(* ===== verification/Rounding.thy ===== *)
theory Rounding
  imports Complex_Main
begin

text \<open>
  Round-to-nearest-even of a rational to 53 bits with the exponent range of binary64 (unbounded
  above: overflow is decided in \<^verbatim>\<open>Double\<close>). \<open>ulp_exp\<close> is the exponent of the last place, \<open>rne\<close> rounds
  to an integer with ties to even, \<open>rnd\<close> is the nearest representable rational. The facts that
  carry the component proofs: \<open>rnd\<close> is monotone, odd, idempotent and the identity on every
  \<open>m * 2 ^ e\<close> with \<open>\<bar>m\<bar> \<le> 2 ^ 53\<close> and \<open>e \<ge> -1074\<close>.
\<close>

fun nbits :: "nat \<Rightarrow> nat" where
  "nbits n = (if n = 0 then 0 else Suc (nbits (n div 2)))"

declare nbits.simps [simp del]

definition ilog2 :: "rat \<Rightarrow> int" where
  "ilog2 q = (let (n, d) = quotient_of q; k = int (nbits (nat n)) - int (nbits (nat d))
              in if 2 powi k \<le> q then k else k - 1)"

definition rne :: "rat \<Rightarrow> int" where
  "rne q = (let f = \<lfloor>q\<rfloor>; d = q - of_int f
            in if d < 1/2 then f else if 1/2 < d then f + 1 else if even f then f else f + 1)"

definition ulp_exp :: "rat \<Rightarrow> int" where
  "ulp_exp q = (if q = 0 then -1074 else max (ilog2 \<bar>q\<bar> - 52) (-1074))"

definition rnd :: "rat \<Rightarrow> rat" where
  "rnd q = (let e = ulp_exp q in of_int (rne (q / 2 powi e)) * 2 powi e)"

lemma nbits_bounds: "0 < n \<Longrightarrow> 2 ^ (nbits n - 1) \<le> n \<and> n < 2 ^ nbits n \<and> 0 < nbits n"
proof (induction n rule: nbits.induct)
  case (1 n)
  show ?case
  proof (cases "n = 1")
    case True
    then show ?thesis by (simp add: nbits.simps)
  next
    case False
    with 1 have IH: "2 ^ (nbits (n div 2) - 1) \<le> n div 2" "n div 2 < 2 ^ nbits (n div 2)"
      "0 < nbits (n div 2)" by auto
    have "nbits n = Suc (nbits (n div 2))" using 1 by (simp add: nbits.simps [of n])
    moreover have "2 ^ nbits (n div 2) = 2 * (2::nat) ^ (nbits (n div 2) - 1)"
      using IH(3) by (metis power_minus_mult mult.commute)
    ultimately show ?thesis using IH by (simp del: One_nat_def) linarith
  qed
qed

lemma p2_pos [simp]: "(0::rat) < 2 powi e"
  by (simp add: zero_less_power_int)

lemma p2_nz [simp]: "(2::rat) powi e \<noteq> 0"
  using p2_pos [of e] by linarith

lemma p2_mono: "a \<le> b \<Longrightarrow> (2::rat) powi a \<le> 2 powi b"
  by (rule power_int_increasing) auto

lemma p2_add: "(2::rat) powi (a + b) = 2 powi a * 2 powi b"
  by (rule power_int_add) simp

lemma p2_nat: "(2::rat) powi (int n) = 2 ^ n"
  by (rule power_int_of_nat)

lemma p2_less_iff: "(2::rat) powi a < 2 powi b \<longleftrightarrow> a < b"
  by (metis linorder_not_less one_less_numeral_iff p2_mono power_int_strict_increasing semiring_norm(76))

lemma p2_int: "0 \<le> e \<Longrightarrow> (2::rat) powi e = of_int (2 ^ nat e)"
  by (metis int_nat_eq of_int_numeral of_int_power p2_nat)

lemma nbits_int:
  assumes "0 < n"
  shows "2 powi (int (nbits (nat n)) - 1) \<le> (of_int n :: rat)"
    and "(of_int n :: rat) < 2 powi int (nbits (nat n))"
proof -
  have nb: "2 ^ (nbits (nat n) - 1) \<le> nat n" "nat n < 2 ^ nbits (nat n)" "0 < nbits (nat n)"
    using nbits_bounds [of "nat n"] assms by auto
  have "(2::int) ^ (nbits (nat n) - 1) \<le> n" "n < 2 ^ nbits (nat n)"
    using nb(1,2) assms by (simp_all add: nat_less_iff le_nat_iff)
  then have "(of_int (2 ^ (nbits (nat n) - 1)) :: rat) \<le> of_int n"
      and lt: "(of_int n :: rat) < of_int (2 ^ nbits (nat n))"
    by (simp_all only: of_int_le_iff of_int_less_iff)
  moreover have "int (nbits (nat n)) - 1 = int (nbits (nat n) - 1)" using nb(3) by linarith
  ultimately show "2 powi (int (nbits (nat n)) - 1) \<le> (of_int n :: rat)"
    by (simp only: p2_nat) simp
  show "(of_int n :: rat) < 2 powi int (nbits (nat n))" using lt by (simp only: p2_nat) simp
qed

lemma ilog2_bounds:
  assumes "0 < q"
  shows "2 powi ilog2 q \<le> q \<and> q < 2 powi (ilog2 q + 1)"
proof -
  obtain n d where qo: "quotient_of q = (n, d)" by fastforce
  have d0: "0 < d" using quotient_of_denom_pos [OF qo] .
  have qq: "q = of_int n / of_int d" using quotient_of_div [OF qo] .
  have n0: "0 < n" using assms d0 qq by (simp add: zero_less_divide_iff)
  define a b where "a = int (nbits (nat n))" and "b = int (nbits (nat d))"
  note N = nbits_int [OF n0, folded a_def] and D = nbits_int [OF d0, folded b_def]
  have up: "q < 2 powi (a - b + 1)"
  proof -
    have "(of_int n :: rat) < 2 powi (a - b + 1) * 2 powi (b - 1)"
      using N(2) by (simp flip: p2_add)
    also have "\<dots> \<le> 2 powi (a - b + 1) * of_int d"
      by (rule mult_left_mono) (use D(1) in auto)
    finally show ?thesis using d0 by (simp add: qq divide_less_eq)
  qed
  have lo: "2 powi (a - b - 1) \<le> q"
  proof -
    have "2 powi (a - b - 1) * (of_int d :: rat) \<le> 2 powi (a - b - 1) * 2 powi b"
      by (rule mult_left_mono) (use D(2) in auto)
    also have "\<dots> = 2 powi (a - 1)" by (simp flip: p2_add)
    also have "\<dots> \<le> of_int n" by (rule N(1))
    finally show ?thesis using d0 by (simp add: qq le_divide_eq)
  qed
  have il: "ilog2 q = (if 2 powi (a - b) \<le> q then a - b else a - b - 1)"
    by (simp add: ilog2_def qo a_def b_def Let_def)
  show ?thesis using up lo il by (auto simp: not_le)
qed

lemma ilog2_unique:
  assumes "2 powi e \<le> q" "q < 2 powi (e + 1)"
  shows "ilog2 q = e"
proof -
  have "0 < q" using assms(1) p2_pos [of e] by linarith
  from ilog2_bounds [OF this] have "2 powi ilog2 q < (2::rat) powi (e + 1)" "2 powi e < (2::rat) powi (ilog2 q + 1)"
    using assms by linarith+
  then show ?thesis by (simp add: p2_less_iff)
qed

lemma rne_of_int [simp]: "rne (of_int k) = k"
  by (simp add: rne_def)

lemma rne_bounds: "of_int (rne q) - 1/2 \<le> q \<and> q \<le> of_int (rne q) + 1/2"
  by (auto simp: rne_def Let_def) (linarith | simp add: le_floor_iff)+

lemma rne_mono: "p \<le> q \<Longrightarrow> rne p \<le> rne q"
proof -
  assume pq: "p \<le> q"
  then have f: "\<lfloor>p\<rfloor> \<le> \<lfloor>q\<rfloor>" by (rule floor_mono)
  show ?thesis
  proof (cases "\<lfloor>p\<rfloor> = \<lfloor>q\<rfloor>")
    case True
    then show ?thesis using pq by (auto simp: rne_def Let_def)
  next
    case False
    with f have "\<lfloor>p\<rfloor> + 1 \<le> \<lfloor>q\<rfloor>" by linarith
    moreover have "rne p \<le> \<lfloor>p\<rfloor> + 1" "\<lfloor>q\<rfloor> \<le> rne q" by (auto simp: rne_def Let_def)
    ultimately show ?thesis by linarith
  qed
qed

lemma rne_minus: "rne (- q) = - rne q"
proof (cases "q = of_int \<lfloor>q\<rfloor>")
  case True
  then show ?thesis by (metis of_int_minus rne_of_int)
next
  case False
  then have c: "\<lfloor>- q\<rfloor> = - \<lfloor>q\<rfloor> - 1"
    by (simp add: floor_eq_iff) linarith
  show ?thesis unfolding rne_def Let_def c by auto
qed

lemma rnd_0 [simp]: "rnd 0 = 0"
  by (simp add: rnd_def rne_def)

lemma ulp_exp_minus [simp]: "ulp_exp (- q) = ulp_exp q"
  by (simp add: ulp_exp_def)

lemma rnd_minus [simp]: "rnd (- q) = - rnd q"
  by (simp add: rnd_def Let_def rne_minus)

lemma ulp_exp_lower: "-1074 \<le> ulp_exp q"
  by (simp add: ulp_exp_def)

lemma ulp_exp_upper: "\<bar>q\<bar> < 2 powi (ulp_exp q + 53)"
proof (cases "q = 0")
  case False
  then have "\<bar>q\<bar> < 2 powi (ilog2 \<bar>q\<bar> + 1)" using ilog2_bounds [of "\<bar>q\<bar>"] by simp
  also have "\<dots> \<le> 2 powi (ulp_exp q + 53)" using False by (intro p2_mono) (auto simp: ulp_exp_def)
  finally show ?thesis .
qed simp

lemma ulp_exp_tight: "ulp_exp q = -1074 \<or> 2 powi (ulp_exp q + 52) \<le> \<bar>q\<bar>"
  using ilog2_bounds [of "\<bar>q\<bar>"] by (auto simp: ulp_exp_def max_def)

lemma rnd_int_bound: "\<bar>rne (q / 2 powi ulp_exp q)\<bar> \<le> 2 ^ 53"
proof -
  let ?e = "ulp_exp q"
  have p53: "(2::rat) powi (?e + 53) = 2 powi ?e * of_int (2 ^ 53)"
    using p2_add [of ?e 53] p2_nat [of 53] by simp
  then have "\<bar>q\<bar> < 2 powi ?e * of_int (2 ^ 53)" using ulp_exp_upper [of q] by simp
  then have "- of_int (2 ^ 53) \<le> q / 2 powi ?e \<and> q / 2 powi ?e \<le> of_int (2 ^ 53)"
    by (simp add: field_simps abs_less_iff pos_divide_le_eq pos_le_divide_eq)
  then have "rne (of_int (- (2 ^ 53))) \<le> rne (q / 2 powi ?e)" "rne (q / 2 powi ?e) \<le> rne (of_int (2 ^ 53))"
    by (auto intro!: rne_mono)
  then show ?thesis unfolding rne_of_int by linarith
qed

lemma rnd_dyadic_pos:
  assumes m: "0 < m" "m < 2 ^ 53" and e: "-1074 \<le> e"
  shows "rnd (of_int m * 2 powi e) = of_int m * 2 powi e"
proof -
  let ?q = "of_int m * 2 powi e :: rat"
  have q0: "0 < ?q" using m(1) by simp
  have "(of_int m :: rat) < of_int (2 ^ 53)" using m(2) by (simp only: of_int_less_iff)
  then have "?q < of_int (2 ^ 53) * 2 powi e" by (rule mult_strict_right_mono) simp
  also have "\<dots> = 2 powi (e + 53)" using p2_add [of e 53] p2_nat [of 53] by simp
  finally have "2 powi ilog2 ?q < (2::rat) powi (e + 53)" using ilog2_bounds [OF q0] by linarith
  then have "ilog2 ?q - 52 \<le> e" by (simp add: p2_less_iff)
  then have le: "ulp_exp ?q \<le> e" using e q0 by (simp add: ulp_exp_def)
  let ?u = "ulp_exp ?q"
  have "?q / 2 powi ?u = of_int (m * 2 ^ nat (e - ?u))"
    using le p2_int [of "e - ?u"] p2_add [of "e - ?u" ?u] by (simp add: field_simps)
  then show ?thesis unfolding rnd_def Let_def
    by (metis nonzero_eq_divide_eq p2_nz rne_of_int)
qed

lemma rnd_dyadic:
  assumes m: "\<bar>m\<bar> \<le> 2 ^ 53" and e: "-1074 \<le> e"
  shows "rnd (of_int m * 2 powi e) = of_int m * 2 powi e"
proof -
  have pos: "rnd (of_int m * 2 powi e) = of_int m * 2 powi e" if "0 < m" "m \<le> 2 ^ 53" for m
  proof (cases "m = 2 ^ 53")
    case True
    have "(of_int m :: rat) * 2 powi e = of_int (2 ^ 52) * 2 powi (e + 1)"
      using True p2_add [of e 1] by simp
    then show ?thesis using rnd_dyadic_pos [of "2 ^ 52" "e + 1"] e by simp
  next
    case False
    then show ?thesis using that e by (intro rnd_dyadic_pos) auto
  qed
  consider "m = 0" | "0 < m" | "0 < - m" by linarith
  then show ?thesis
  proof cases
    case 1 then show ?thesis by simp
  next
    case 2 then show ?thesis using m pos [of m] by simp
  next
    case 3
    then have "rnd (of_int (- m) * 2 powi e) = of_int (- m) * 2 powi e"
      using m by (intro pos) auto
    then show ?thesis by simp
  qed
qed

lemma rnd_idem [simp]: "rnd (rnd q) = rnd q"
  unfolding rnd_def [of q] Let_def
  by (rule rnd_dyadic [OF rnd_int_bound ulp_exp_lower])

lemma rnd_of_int: "\<bar>m\<bar> \<le> 2 ^ 53 \<Longrightarrow> rnd (of_int m) = of_int m"
  using rnd_dyadic [of m 0] by simp

lemma rnd_nonneg: "0 \<le> q \<Longrightarrow> 0 \<le> rnd q"
proof -
  assume "0 \<le> q"
  then have "rne (of_int 0) \<le> rne (q / 2 powi ulp_exp q)" by (intro rne_mono) simp
  then show ?thesis unfolding rne_of_int by (simp add: rnd_def Let_def)
qed

lemma rnd_mono_pos:
  assumes "0 < x" "x \<le> y"
  shows "rnd x \<le> rnd y"
proof (cases "ulp_exp x = ulp_exp y")
  case True
  then have "rne (x / 2 powi ulp_exp x) \<le> rne (y / 2 powi ulp_exp y)"
    using assms by (intro rne_mono) (simp add: divide_right_mono)
  then show ?thesis using True by (simp add: rnd_def Let_def)
next
  case False
  have "2 powi ilog2 x < (2::rat) powi (ilog2 y + 1)"
    using ilog2_bounds [of x] ilog2_bounds [of y] assms by linarith
  then have "ulp_exp x \<le> ulp_exp y" using assms by (auto simp: ulp_exp_def p2_less_iff)
  with False have lt: "ulp_exp x + 1 \<le> ulp_exp y" by linarith
  let ?a = "ulp_exp x" and ?b = "ulp_exp y"
  have "rnd x \<le> of_int (2 ^ 53) * 2 powi ?a"
  proof -
    have "of_int (rne (x / 2 powi ?a)) \<le> (of_int (2 ^ 53) :: rat)"
      using rnd_int_bound [of x] by (subst of_int_le_iff) linarith
    then show ?thesis unfolding rnd_def Let_def by (rule mult_right_mono) simp
  qed
  also have "\<dots> = 2 powi (?a + 1 + 52)"
    using p2_add [of ?a 53] p2_nat [of 53] by (simp add: add.commute mult.commute)
  also have "\<dots> \<le> 2 powi (?b + 52)" by (rule p2_mono) (use lt in simp)
  also have "\<dots> = of_int (2 ^ 52) * 2 powi ?b" using p2_add [of ?b 52] p2_nat [of 52] by simp
  also have "\<dots> \<le> rnd y"
  proof -
    have "2 powi (?b + 52) \<le> y"
      using ulp_exp_tight [of y] lt ulp_exp_lower [of x] assms by auto
    then have "of_int (2 ^ 52) \<le> y / 2 powi ?b"
      using p2_add [of ?b 52] p2_nat [of 52] by (simp add: pos_le_divide_eq mult.commute)
    then have "2 ^ 52 \<le> rne (y / 2 powi ?b)" using rne_mono [of "of_int (2 ^ 52)"] rne_of_int by metis
    then have "(of_int (2 ^ 52) :: rat) \<le> of_int (rne (y / 2 powi ?b))"
      by (simp only: of_int_le_iff)
    then show ?thesis unfolding rnd_def Let_def by (rule mult_right_mono) simp
  qed
  finally show ?thesis .
qed

lemma rnd_mono: "x \<le> y \<Longrightarrow> rnd x \<le> rnd y"
proof -
  assume xy: "x \<le> y"
  consider "0 < x" | "x \<le> 0" "0 \<le> y" | "y < 0" by linarith
  then show ?thesis
  proof cases
    case 1 then show ?thesis using xy by (rule rnd_mono_pos)
  next
    case 2
    then have "rnd x \<le> 0" using rnd_nonneg [of "- x"] by simp
    then show ?thesis using rnd_nonneg [of y] 2 by linarith
  next
    case 3
    then have "rnd (- y) \<le> rnd (- x)" using xy by (intro rnd_mono_pos) auto
    then show ?thesis by simp
  qed
qed

end
