(* ===== verification/Double.thy ===== *)
theory Double
  imports Rounding
begin

text \<open>
  The C++ type \<^verbatim>\<open>double\<close> as IEEE 754 binary64 with round-to-nearest-even, as every platform the
  build targets implements it (no \<^verbatim>\<open>-ffast-math\<close>, no contraction of \<open>a * b + c\<close>): NaN, two
  infinities, a negative zero, and the representable rationals. Payload and sign of a NaN are not
  modelled. \<open>+\<close>, \<open>-\<close>, \<open>*\<close>, \<open>/\<close>, \<open><\<close>, \<open>\<le>\<close> on \<open>double\<close> are the C++ operators; C++ \<open>==\<close> is \<open>deq\<close>;
  HOL equality is identity of values. \<open>lit q\<close> is the literal whose exact value is \<open>q\<close>.
  Every double but NaN has a rational \<open>key\<close> (\<open>\<plusminus>2 ^ 1024\<close> for the infinities) which the comparisons
  compare and whose rounding \<open>crnd\<close> the finite operations compute.
\<close>

datatype fp = NaN | PInf | NInf | NegZero | Fin rat

definition big :: rat where "big = 2 ^ 1024"

fun valid_fp :: "fp \<Rightarrow> bool" where
  "valid_fp (Fin q) = (rnd q = q \<and> \<bar>q\<bar> < big)"
| "valid_fp _ = True"

fun fp_key :: "fp \<Rightarrow> rat" where
  "fp_key (Fin q) = q"
| "fp_key PInf = big"
| "fp_key NInf = - big"
| "fp_key NegZero = 0"
| "fp_key NaN = 0"

fun fp_sign :: "fp \<Rightarrow> bool" where
  "fp_sign (Fin q) = (q < 0)"
| "fp_sign NInf = True"
| "fp_sign NegZero = True"
| "fp_sign _ = False"

definition fp_inf :: "bool \<Rightarrow> fp" where
  "fp_inf s = (if s then NInf else PInf)"

definition fp_zero :: "bool \<Rightarrow> fp" where
  "fp_zero s = (if s then NegZero else Fin 0)"

definition pack :: "bool \<Rightarrow> rat \<Rightarrow> fp" where
  "pack s q = (let r = rnd q in
     if big \<le> r then PInf else if r \<le> - big then NInf
     else if r = 0 then fp_zero s else Fin r)"

fun fp_neg :: "fp \<Rightarrow> fp" where
  "fp_neg (Fin q) = (if q = 0 then NegZero else Fin (- q))"
| "fp_neg PInf = NInf"
| "fp_neg NInf = PInf"
| "fp_neg NegZero = Fin 0"
| "fp_neg NaN = NaN"

definition fp_add :: "fp \<Rightarrow> fp \<Rightarrow> fp" where
  "fp_add x y =
     (if x = NaN \<or> y = NaN then NaN
      else if x = PInf \<or> x = NInf then (if y = fp_neg x then NaN else x)
      else if y = PInf \<or> y = NInf then y
      else let s = fp_key x + fp_key y in pack (if s = 0 then fp_sign x \<and> fp_sign y else s < 0) s)"

definition fp_mul :: "fp \<Rightarrow> fp \<Rightarrow> fp" where
  "fp_mul x y =
     (if x = NaN \<or> y = NaN then NaN
      else if x = PInf \<or> x = NInf \<or> y = PInf \<or> y = NInf then
        (if fp_key x = 0 \<or> fp_key y = 0 then NaN else fp_inf (fp_sign x \<noteq> fp_sign y))
      else pack (fp_sign x \<noteq> fp_sign y) (fp_key x * fp_key y))"

definition fp_div :: "fp \<Rightarrow> fp \<Rightarrow> fp" where
  "fp_div x y =
     (if x = NaN \<or> y = NaN then NaN
      else if x = PInf \<or> x = NInf then
        (if y = PInf \<or> y = NInf then NaN else fp_inf (fp_sign x \<noteq> fp_sign y))
      else if y = PInf \<or> y = NInf then fp_zero (fp_sign x \<noteq> fp_sign y)
      else if fp_key y = 0 then
        (if fp_key x = 0 then NaN else fp_inf (fp_sign x \<noteq> fp_sign y))
      else pack (fp_sign x \<noteq> fp_sign y) (fp_key x / fp_key y))"

lemma big_pos [simp]: "0 < big" "\<not> big \<le> 0" "\<not> big < 0" "0 \<le> big" "big \<noteq> 0" "- big < big" "- big \<le> big" "\<not> big \<le> - big"
  by (simp_all add: big_def)

lemma valid_pack [simp]: "valid_fp (pack s q)"
  by (auto simp: pack_def Let_def fp_zero_def)

lemma valid_neg [simp]: "valid_fp x \<Longrightarrow> valid_fp (fp_neg x)"
  by (cases x) auto

lemma valid_inf_zero [simp]: "valid_fp (fp_inf s)" "valid_fp (fp_zero s)"
  by (auto simp: fp_inf_def fp_zero_def)

typedef double = "{x. valid_fp x}"
  by (rule exI [of _ NaN]) simp

setup_lifting type_definition_double

instantiation double :: "{zero, one, plus, minus, uminus, times, inverse, ord, abs}"
begin

lift_definition zero_double :: double is "Fin 0" by simp
lift_definition one_double :: double is "pack False 1" by simp
lift_definition uminus_double :: "double \<Rightarrow> double" is fp_neg by simp
lift_definition plus_double :: "double \<Rightarrow> double \<Rightarrow> double" is fp_add
  by (auto simp: fp_add_def Let_def)
lift_definition minus_double :: "double \<Rightarrow> double \<Rightarrow> double" is "\<lambda>x y. fp_add x (fp_neg y)"
  by (auto simp: fp_add_def Let_def)
lift_definition times_double :: "double \<Rightarrow> double \<Rightarrow> double" is fp_mul
  by (auto simp: fp_mul_def)
lift_definition divide_double :: "double \<Rightarrow> double \<Rightarrow> double" is fp_div
  by (auto simp: fp_div_def)
lift_definition inverse_double :: "double \<Rightarrow> double" is "fp_div (pack False 1)"
  by (auto simp: fp_div_def)
lift_definition less_double :: "double \<Rightarrow> double \<Rightarrow> bool" is
  "\<lambda>x y. x \<noteq> NaN \<and> y \<noteq> NaN \<and> fp_key x < fp_key y" .
lift_definition less_eq_double :: "double \<Rightarrow> double \<Rightarrow> bool" is
  "\<lambda>x y. x \<noteq> NaN \<and> y \<noteq> NaN \<and> fp_key x \<le> fp_key y" .
lift_definition abs_double :: "double \<Rightarrow> double" is "\<lambda>x. if fp_sign x then fp_neg x else x"
  by simp
instance ..

end

instantiation double :: equal
begin
lift_definition equal_double :: "double \<Rightarrow> double \<Rightarrow> bool" is "(=)" .
instance by standard (transfer, simp)
end

lift_definition isnan :: "double \<Rightarrow> bool" is "\<lambda>x. x = NaN" .
lift_definition isinf :: "double \<Rightarrow> bool" is "\<lambda>x. x = PInf \<or> x = NInf" .
lift_definition isfinite :: "double \<Rightarrow> bool" is "\<lambda>x. x \<noteq> NaN \<and> x \<noteq> PInf \<and> x \<noteq> NInf" .
lift_definition key :: "double \<Rightarrow> rat" is fp_key .
lift_definition deq :: "double \<Rightarrow> double \<Rightarrow> bool" is
  "\<lambda>x y. x \<noteq> NaN \<and> y \<noteq> NaN \<and> fp_key x = fp_key y" .
lift_definition lit :: "rat \<Rightarrow> double" is "\<lambda>q. pack (q < 0) q" by simp
lift_definition quiet_NaN :: double is NaN by simp
lift_definition infinity :: double is PInf by simp


definition crnd :: "rat \<Rightarrow> rat" where
  "crnd q = max (- big) (min big (rnd q))"

definition repr :: "rat \<Rightarrow> bool" where
  "repr q \<longleftrightarrow> rnd q = q \<and> \<bar>q\<bar> < big"

subsection \<open>Rounding with saturation\<close>

lemma crnd_mono: "a \<le> b \<Longrightarrow> crnd a \<le> crnd b"
  using rnd_mono [of a b] by (auto simp: crnd_def max_def min_def)

lemma crnd_minus: "crnd (- q) = - crnd q"
  by (auto simp: crnd_def max_def min_def) (use big_pos(1) in linarith)

lemma crnd_bounds: "- big \<le> crnd q" "crnd q \<le> big"
  by (auto simp: crnd_def max_def min_def)

lemma crnd_repr: "repr q \<Longrightarrow> crnd q = q"
  by (auto simp: crnd_def repr_def max_def min_def abs_if split: if_splits)

lemma rnd_big: "rnd big = big"
proof -
  have "big = of_int 1 * 2 powi 1024" unfolding big_def by (simp flip: p2_nat)
  then show ?thesis using rnd_dyadic [of 1 1024] by simp
qed

lemma crnd_big: "crnd big = big" "crnd (- big) = - big"
  by (simp_all add: crnd_minus) (simp_all add: crnd_def rnd_big)

lemma fp_key_pack: "fp_key (pack s q) = crnd q"
  by (auto simp: pack_def crnd_def Let_def fp_zero_def max_def min_def)

lemma pack_not_NaN [simp]: "pack s q \<noteq> NaN"
  by (auto simp: pack_def Let_def fp_zero_def)


lemma valid_key: "valid_fp x \<Longrightarrow> crnd (fp_key x) = fp_key x"
  by (cases x) (auto simp: crnd_big crnd_repr repr_def intro: crnd_repr [of 0, unfolded repr_def])

lemma valid_key_less: "valid_fp x \<Longrightarrow> \<bar>fp_key x\<bar> < big \<longleftrightarrow> x \<noteq> PInf \<and> x \<noteq> NInf"
  by (cases x) auto

subsection \<open>The reading of a double as a rational\<close>

named_theorems dkey \<open>comparisons and finite arithmetic of doubles in terms of \<open>key\<close>\<close>

lemma crnd_key [simp]: "crnd (key x) = key x"
  by transfer (rule valid_key)

lemma key_bounds: "- big \<le> key x" "key x \<le> big"
  using crnd_bounds [of "key x"] by simp_all

lemma le_key [dkey]: "(x \<le> y) \<longleftrightarrow> \<not> isnan x \<and> \<not> isnan y \<and> key x \<le> key y"
  by transfer simp

lemma less_key [dkey]: "(x < y) \<longleftrightarrow> \<not> isnan x \<and> \<not> isnan y \<and> key x < key y"
  by transfer simp

lemma deq_key [dkey]: "deq x y \<longleftrightarrow> \<not> isnan x \<and> \<not> isnan y \<and> key x = key y"
  by transfer simp

lemma isfinite_key: "isfinite x \<longleftrightarrow> \<not> isnan x \<and> \<bar>key x\<bar> < big"
  by transfer (auto simp: valid_key_less)

lemma isinf_key: "isinf x \<longleftrightarrow> \<not> isnan x \<and> \<bar>key x\<bar> = big"
  by transfer (metis abs_of_pos abs_minus_cancel big_pos(1) fp.distinct(1,3) fp_key.simps(2,3) order_less_irrefl valid_key_less)

lemma finite_not_nan [simp]: "isfinite x \<Longrightarrow> \<not> isnan x"
  by (simp add: isfinite_key)

lemma double_cases: "isnan x \<or> isinf x \<or> isfinite x"
  by transfer auto

lemma key_0 [simp]: "key 0 = 0" and key_1 [simp]: "key 1 = 1"
  and key_lit: "key (lit q) = crnd q"
  and isnan_0 [simp]: "\<not> isnan 0" and isnan_1 [simp]: "\<not> isnan 1"
  and isnan_lit [simp]: "\<not> isnan (lit q)"
  and isnan_NaN [simp]: "isnan quiet_NaN"
proof -
  show "key 0 = 0" "\<not> isnan 0" "\<not> isnan 1" "isnan quiet_NaN" "\<not> isnan (lit q)" "key (lit q) = crnd q"
    by (transfer, simp add: fp_key_pack)+
  have "repr 1" using rnd_of_int [of 1] by (simp add: repr_def big_def)
  then show "key 1 = 1" by transfer (simp add: fp_key_pack crnd_repr)
qed

lemma isfinite_0 [simp]: "isfinite 0" and isfinite_1 [simp]: "isfinite 1"
  by (simp_all add: isfinite_key big_def)

lemma key_uminus [simp]: "key (- x) = - key x" and isnan_uminus [simp]: "isnan (- x) = isnan x"
proof -
  show "isnan (- x) = isnan x" by transfer (metis fp_neg.elims fp.distinct(1,3,5,7))
  show "key (- x) = - key x"
  proof (transfer)
    fix x show "fp_key (fp_neg x) = - fp_key x" by (cases x) auto
  qed
qed

lemma fp_sign_neg_key: "fp_sign x \<Longrightarrow> fp_key x \<le> 0"
  by (cases x) auto

lemma fp_sign_pos_key: "\<not> fp_sign x \<Longrightarrow> 0 \<le> fp_key x"
  by (cases x) auto

lemma key_abs [simp]: "key \<bar>x\<bar> = \<bar>key x\<bar>"
proof (transfer)
  fix x show "fp_key (if fp_sign x then fp_neg x else x) = \<bar>fp_key x\<bar>" by (cases x) auto
qed

lemma isnan_abs [simp]: "isnan \<bar>x\<bar> = isnan x"
proof (transfer)
  fix x show "((if fp_sign x then fp_neg x else x) = NaN) = (x = NaN)" by (cases x) auto
qed

lemma add_finite: "isfinite x \<Longrightarrow> isfinite y \<Longrightarrow> \<not> isnan (x + y) \<and> key (x + y) = crnd (key x + key y)"
  by transfer (auto simp: fp_add_def Let_def fp_key_pack)

lemma sub_finite: "isfinite x \<Longrightarrow> isfinite y \<Longrightarrow> \<not> isnan (x - y) \<and> key (x - y) = crnd (key x - key y)"
proof (transfer)
  fix x y assume "x \<noteq> NaN \<and> x \<noteq> PInf \<and> x \<noteq> NInf" "y \<noteq> NaN \<and> y \<noteq> PInf \<and> y \<noteq> NInf"
  then show "\<not> fp_add x (fp_neg y) = NaN \<and> fp_key (fp_add x (fp_neg y)) = crnd (fp_key x - fp_key y)"
    by (cases y) (auto simp: fp_add_def Let_def fp_key_pack)
qed

lemma mul_finite: "isfinite x \<Longrightarrow> isfinite y \<Longrightarrow> \<not> isnan (x * y) \<and> key (x * y) = crnd (key x * key y)"
  by transfer (auto simp: fp_mul_def fp_key_pack)

lemma div_finite: "isfinite x \<Longrightarrow> isfinite y \<Longrightarrow> key y \<noteq> 0 \<Longrightarrow>
    \<not> isnan (x / y) \<and> key (x / y) = crnd (key x / key y)"
  by transfer (auto simp: fp_div_def fp_key_pack)


subsection \<open>NaN propagation and sign facts that also cover the infinities\<close>

lemma nan_propagates [simp]:
  "isnan x \<or> isnan y \<Longrightarrow> isnan (x + y)" "isnan x \<or> isnan y \<Longrightarrow> isnan (x - y)"
  "isnan x \<or> isnan y \<Longrightarrow> isnan (x * y)" "isnan x \<or> isnan y \<Longrightarrow> isnan (x / y)"
  by (transfer, auto simp: fp_add_def fp_mul_def fp_div_def)+

lemma crnd_0 [simp]: "crnd 0 = 0"
  by (simp add: crnd_def)

lemma crnd_nonneg: "0 \<le> q \<Longrightarrow> 0 \<le> crnd q"
  using crnd_mono [of 0 q] by simp

lemma crnd_nonpos: "q \<le> 0 \<Longrightarrow> crnd q \<le> 0"
  using crnd_mono [of q 0] by simp

lemma fp_key_inf_zero [simp]: "fp_key (fp_inf s) = (if s then - big else big)" "fp_key (fp_zero s) = 0"
  by (simp_all add: fp_inf_def fp_zero_def)

lemma fp_inf_zero_NaN [simp]: "fp_inf s \<noteq> NaN" "fp_zero s \<noteq> NaN"
  by (simp_all add: fp_inf_def fp_zero_def)

lemma add_nonneg_mono:
  assumes "0 \<le> y" "\<not> isnan x"
  shows "isnan (x + y) \<or> x \<le> x + y"
  using assms
proof (transfer)
  fix x y assume v: "valid_fp x" "valid_fp y" and y: "Fin 0 \<noteq> NaN \<and> y \<noteq> NaN \<and> fp_key (Fin 0) \<le> fp_key y"
    and x: "\<not> x = NaN"
  have k: "fp_key x \<le> crnd (fp_key x + fp_key y)"
    using crnd_mono [of "fp_key x" "fp_key x + fp_key y"] valid_key [OF v(1)] y by simp
  show "fp_add x y = NaN \<or> x \<noteq> NaN \<and> fp_add x y \<noteq> NaN \<and> fp_key x \<le> fp_key (fp_add x y)"
    using k x y crnd_bounds valid_key [OF v(1)] crnd_bounds [of "fp_key x"]
    by (auto simp: fp_add_def Let_def fp_key_pack)
qed

lemma sub_nonneg_mono:
  assumes "0 \<le> y" "\<not> isnan x"
  shows "isnan (x - y) \<or> x - y \<le> x"
  using assms
proof (transfer)
  fix x y assume v: "valid_fp x" "valid_fp y" and y: "Fin 0 \<noteq> NaN \<and> y \<noteq> NaN \<and> fp_key (Fin 0) \<le> fp_key y"
    and x: "\<not> x = NaN"
  have nk: "fp_key (fp_neg y) = - fp_key y" "fp_neg y \<noteq> NaN" using y by (cases y; simp)+
  have k: "crnd (fp_key x - fp_key y) \<le> fp_key x"
    using crnd_mono [of "fp_key x - fp_key y" "fp_key x"] valid_key [OF v(1)] y by simp
  show "fp_add x (fp_neg y) = NaN \<or> fp_add x (fp_neg y) \<noteq> NaN \<and> x \<noteq> NaN \<and> fp_key (fp_add x (fp_neg y)) \<le> fp_key x"
    using k x y nk crnd_bounds valid_key [OF v(1)] crnd_bounds [of "fp_key x"]
    by (auto simp: fp_add_def Let_def fp_key_pack)
qed

lemma mul_nonneg: "0 \<le> x \<Longrightarrow> 0 \<le> y \<Longrightarrow> isnan (x * y) \<or> 0 \<le> x * y"
proof (transfer)
  fix x y
  assume "Fin 0 \<noteq> NaN \<and> x \<noteq> NaN \<and> fp_key (Fin 0) \<le> fp_key x"
    "Fin 0 \<noteq> NaN \<and> y \<noteq> NaN \<and> fp_key (Fin 0) \<le> fp_key y"
  then show "fp_mul x y = NaN \<or> Fin 0 \<noteq> NaN \<and> fp_mul x y \<noteq> NaN \<and> fp_key (Fin 0) \<le> fp_key (fp_mul x y)"
    by (cases x; cases y) (auto simp: fp_mul_def fp_key_pack crnd_nonneg)
qed

lemma square_nonneg: "isnan x \<or> 0 \<le> x * x"
proof (transfer)
  fix x show "x = NaN \<or> Fin 0 \<noteq> NaN \<and> fp_mul x x \<noteq> NaN \<and> fp_key (Fin 0) \<le> fp_key (fp_mul x x)"
    by (cases x) (auto simp: fp_mul_def fp_key_pack crnd_nonneg)
qed

lemma div_nonneg: "0 \<le> x \<Longrightarrow> 0 \<le> y \<Longrightarrow> 0 < key y \<Longrightarrow> isnan (x / y) \<or> 0 \<le> x / y"
proof (transfer)
  fix x y
  assume "Fin 0 \<noteq> NaN \<and> x \<noteq> NaN \<and> fp_key (Fin 0) \<le> fp_key x"
    "Fin 0 \<noteq> NaN \<and> y \<noteq> NaN \<and> fp_key (Fin 0) \<le> fp_key y" "0 < fp_key y"
  then show "fp_div x y = NaN \<or> Fin 0 \<noteq> NaN \<and> fp_div x y \<noteq> NaN \<and> fp_key (Fin 0) \<le> fp_key (fp_div x y)"
    by (cases x; cases y) (auto simp: fp_div_def fp_key_pack crnd_nonneg)
qed

lemma div_ge_1:
  assumes "isfinite x" "0 \<le> x" "1 \<le> y"
  shows "0 \<le> x / y \<and> x / y \<le> x"
  using assms
proof (transfer)
  fix x y assume v: "valid_fp x" "valid_fp y" and x: "x \<noteq> NaN \<and> x \<noteq> PInf \<and> x \<noteq> NInf"
    and x0: "Fin 0 \<noteq> NaN \<and> x \<noteq> NaN \<and> fp_key (Fin 0) \<le> fp_key x"
    and y: "pack False 1 \<noteq> NaN \<and> y \<noteq> NaN \<and> fp_key (pack False 1) \<le> fp_key y"
  have "repr 1" using rnd_of_int [of 1] by (simp add: repr_def big_def)
  then have y1: "1 \<le> fp_key y" using y by (simp add: fp_key_pack crnd_repr)
  have "fp_key x / fp_key y \<le> fp_key x" using x0 y1 by (simp add: divide_le_eq mult_le_cancel_left1)
  then have "crnd (fp_key x / fp_key y) \<le> fp_key x" "0 \<le> crnd (fp_key x / fp_key y)"
    using crnd_mono [of "fp_key x / fp_key y" "fp_key x"] valid_key [OF v(1)] x0 y1
    by (auto intro: crnd_nonneg)
  then show "(Fin 0 \<noteq> NaN \<and> fp_div x y \<noteq> NaN \<and> fp_key (Fin 0) \<le> fp_key (fp_div x y)) \<and>
      fp_div x y \<noteq> NaN \<and> x \<noteq> NaN \<and> fp_key (fp_div x y) \<le> fp_key x"
    using x x0 y y1 by (auto simp: fp_div_def fp_key_pack)
qed

lemma abs_nonneg [simp]: "0 \<le> \<bar>x\<bar> \<longleftrightarrow> \<not> isnan (x :: double)"
  by (simp add: dkey)

lemma neg_le_0 [simp]: "- x \<le> 0 \<longleftrightarrow> 0 \<le> (x :: double)"
  by (auto simp: dkey)

lemma less_imp_le_d: "x < y \<Longrightarrow> x \<le> (y :: double)"
  by (simp add: dkey)

lemma le_trans_d: "x \<le> y \<Longrightarrow> y \<le> z \<Longrightarrow> x \<le> (z :: double)"
  by (simp add: dkey)

lemma less_asym_d: "x < y \<Longrightarrow> \<not> y < (x :: double)"
  by (simp add: dkey)

lemma le_refl_d: "x \<le> x \<longleftrightarrow> \<not> isnan x"
  by (simp add: dkey)

lemma not_le_nan [simp]: "isnan x \<Longrightarrow> \<not> x \<le> y" "isnan y \<Longrightarrow> \<not> x \<le> y"
    "isnan x \<Longrightarrow> \<not> x < y" "isnan y \<Longrightarrow> \<not> x < y"
  by (simp_all add: dkey)

subsection \<open>Literals and conversions\<close>

lemma repr_0 [simp]: "repr 0" and repr_1 [simp]: "repr 1"
  using rnd_of_int [of 1] by (simp_all add: repr_def) (simp add: big_def)

lemma repr_of_int:
  assumes "\<bar>m\<bar> \<le> 2 ^ 53"
  shows "repr (of_int m)"
proof -
  have "\<bar>of_int m :: rat\<bar> \<le> of_int (2 ^ 53)" using assms by (metis of_int_abs of_int_le_iff)
  also have "\<dots> < big" by (simp add: big_def)
  finally show ?thesis using rnd_of_int [OF assms] by (simp add: repr_def)
qed

lemma repr_numeral [simp]: "(numeral n :: int) \<le> 9007199254740992 \<Longrightarrow> repr (numeral n)"
  using repr_of_int [of "numeral n"] by simp

lemma repr_minus [simp]: "repr (- q) = repr q"
  by (simp add: repr_def)

lemma repr_half:
  assumes "\<bar>m\<bar> \<le> 2 ^ 53" "k \<le> 1000"
  shows "repr (of_int m / 2 ^ k)"
proof -
  have eq: "of_int m / 2 ^ k = (of_int m * 2 powi (- int k) :: rat)"
    by (simp add: power_int_minus divide_inverse)
  have "\<bar>of_int m / 2 ^ k :: rat\<bar> \<le> of_int \<bar>m\<bar>" by (simp add: divide_le_eq mult_le_cancel_left1)
  also have "\<dots> \<le> of_int (2 ^ 53)" using assms(1) by (simp only: of_int_le_iff)
  also have "\<dots> < big" by (simp add: big_def)
  finally show ?thesis using rnd_dyadic [OF assms(1), of "- int k"] assms(2) eq by (simp add: repr_def)
qed

lemma key_lit_repr: "repr q \<Longrightarrow> key (lit q) = q"
  by (simp add: key_lit crnd_repr)

lemma isfinite_lit_repr: "repr q \<Longrightarrow> isfinite (lit q)"
  by (simp add: isfinite_key key_lit_repr) (simp add: repr_def)

lemma lit_0: "lit 0 = 0"
  by transfer (simp add: pack_def fp_zero_def Let_def)

lemma lit_1: "lit 1 = 1"
  by transfer simp

definition of_size :: "nat \<Rightarrow> double" where
  "of_size n = lit (of_nat n)"

lemma isnan_of_size [simp]: "\<not> isnan (of_size n)"
  by (simp add: of_size_def)

lemma key_of_size: "key (of_size n) = crnd (of_nat n)"
  by (simp add: of_size_def key_lit)

lemma of_size_0 [simp]: "of_size 0 = 0"
  by (simp add: of_size_def lit_0)

lemma of_size_nonneg [simp]: "0 \<le> of_size n"
  by (simp add: dkey key_of_size crnd_nonneg)

lemma of_size_mono: "m \<le> n \<Longrightarrow> of_size m \<le> of_size n"
  by (simp add: dkey key_of_size crnd_mono)

lemma of_size_ge_1: "0 < n \<Longrightarrow> 1 \<le> key (of_size n)"
  using crnd_mono [of 1 "of_nat n"] by (simp add: key_of_size crnd_repr)

end
