(* ===== verification/Double_Ops.thy ===== *)
theory Double_Ops
  imports Double "HOL-Library.Multiset"
begin

text \<open>
  The functions of \<^verbatim>\<open><cmath>\<close>, \<^verbatim>\<open><algorithm>\<close> and the conversions the program applies to
  doubles: \<^verbatim>\<open>std::max\<close>, \<^verbatim>\<open>std::min\<close>, \<^verbatim>\<open>std::floor\<close>, \<^verbatim>\<open>std::sqrt\<close> (correctly rounded, as
  IEEE 754 requires), \<^verbatim>\<open>std::lround\<close>, \<^verbatim>\<open>static_cast<std::size_t>\<close> and \<^verbatim>\<open>std::sort\<close>. An argument for which
  C++ leaves the behaviour undefined gives \<open>None\<close>.
\<close>

definition dmax :: "double \<Rightarrow> double \<Rightarrow> double" where
  "dmax a b = (if a < b then b else a)"

definition dmin :: "double \<Rightarrow> double \<Rightarrow> double" where
  "dmin a b = (if b < a then b else a)"

fun fp_floor :: "fp \<Rightarrow> fp" where
  "fp_floor (Fin q) = pack False (of_int \<lfloor>q\<rfloor>)"
| "fp_floor x = x"

lift_definition dfloor :: "double \<Rightarrow> double" is fp_floor
proof -
  fix x assume "valid_fp x"
  then show "valid_fp (fp_floor x)" by (cases x) auto
qed

text \<open>The conversion to \<^verbatim>\<open>std::size_t\<close> truncates; out of range it is undefined.\<close>

definition to_size :: "double \<Rightarrow> nat option" where
  "to_size x = (if isfinite x \<and> -1 < key x \<and> key x < 2 ^ 64 then Some (nat \<lfloor>key x\<rfloor>) else None)"

text \<open>\<^verbatim>\<open>std::lround\<close>: to the nearest integer, halves away from zero, as a 64-bit \<^verbatim>\<open>long\<close>.\<close>

definition lround :: "double \<Rightarrow> int option" where
  "lround x =
     (let r = (if 0 \<le> key x then \<lfloor>key x + 1/2\<rfloor> else - \<lfloor>1/2 - key x\<rfloor>)
      in if isfinite x \<and> - (2 ^ 63) \<le> r \<and> r < 2 ^ 63 then Some r else None)"

text \<open>Square roots: an integer root of the scaled argument, with a sticky half below its last bit.\<close>

fun isqrt :: "nat \<Rightarrow> nat" where
  "isqrt n = (if n = 0 then 0 else
     let r = 2 * isqrt (n div 4) in if (r + 1) * (r + 1) \<le> n then r + 1 else r)"

declare isqrt.simps [simp del]

definition sqrt_scale :: "rat \<Rightarrow> nat" where
  "sqrt_scale q = nat (60 - ilog2 q)"

definition sqrt_sticky :: "rat \<Rightarrow> rat" where
  "sqrt_sticky q =
     (let k = sqrt_scale q; t = q * 4 ^ k; s = isqrt (nat \<lfloor>t\<rfloor>)
      in (of_nat s + (if of_nat (s * s) = t then 0 else 1/2)) / 2 ^ k)"

fun fp_sqrt :: "fp \<Rightarrow> fp" where
  "fp_sqrt (Fin q) = (if q < 0 then NaN else if q = 0 then Fin 0 else pack False (sqrt_sticky q))"
| "fp_sqrt NInf = NaN"
| "fp_sqrt x = x"

lift_definition dsqrt :: "double \<Rightarrow> double" is fp_sqrt
proof -
  fix x assume "valid_fp x"
  then show "valid_fp (fp_sqrt x)" by (cases x) auto
qed

text \<open>
  \<^verbatim>\<open>std::sort\<close> of a vector of doubles by \<open><\<close>. With a NaN in the vector the comparison is no strict
  weak order and the behaviour is undefined. Otherwise the result is determined up to the order
  of equal elements (the two zeros), for which insertion keeps the order of the input.
\<close>

fun insert_d :: "double \<Rightarrow> double list \<Rightarrow> double list" where
  "insert_d x [] = [x]"
| "insert_d x (y # ys) = (if y < x then y # insert_d x ys else x # y # ys)"

fun isort_d :: "double list \<Rightarrow> double list" where
  "isort_d [] = []"
| "isort_d (x # xs) = insert_d x (isort_d xs)"

definition sort_d :: "double list \<Rightarrow> double list option" where
  "sort_d xs = (if list_ex isnan xs then None else Some (isort_d xs))"

subsection \<open>Facts\<close>

lemma dmax_le [simp]: "dmax a b \<le> c \<longleftrightarrow> (if a < b then b \<le> c else a \<le> c)"
  by (simp add: dmax_def)

lemma dmax_ge: "\<not> isnan a \<Longrightarrow> a \<le> dmax a b"
  by (simp add: dmax_def dkey)

lemma isqrt_bounds: "isqrt n * isqrt n \<le> n \<and> n < (isqrt n + 1) * (isqrt n + 1)"
proof (induction n rule: isqrt.induct)
  case (1 n)
  show ?case
  proof (cases "n = 0")
    case True
    then show ?thesis by (simp add: isqrt.simps)
  next
    case False
    let ?r = "isqrt (n div 4)"
    have lo: "?r * ?r \<le> n div 4" and hi: "n div 4 < (?r + 1) * (?r + 1)" using 1 False by auto
    from lo have "(2 * ?r) * (2 * ?r) \<le> n" by simp
    moreover have "n < (2 * ?r + 2) * (2 * ?r + 2)"
    proof -
      have "n < 4 * (n div 4 + 1)" by presburger
      also have "\<dots> \<le> 4 * ((?r + 1) * (?r + 1))" using hi by simp
      finally show ?thesis by (simp add: algebra_simps)
    qed
    ultimately show ?thesis using False by (subst (1 2 3 4) isqrt.simps) (auto simp: Let_def)
  qed
qed

lemma sqrt_sticky_nonneg: "0 \<le> sqrt_sticky q"
  by (simp add: sqrt_sticky_def Let_def)

text \<open>
  The scaled root has more than 54 bits and encloses the exact root, so rounding the sticky value
  rounds the exact root.
\<close>

lemma sqrt_scale_bound:
  assumes "0 < q"
  shows "(2 ^ 60 :: rat) \<le> q * 4 ^ sqrt_scale q"
proof -
  have q: "2 powi ilog2 q \<le> q" using ilog2_bounds [OF assms] by simp
  have four: "(4::rat) ^ n = 2 powi (2 * int n)" for n
  proof -
    have "(4::rat) ^ n = 2 ^ (2 * n)" by (simp add: power_mult)
    then show ?thesis by (metis of_nat_mult of_nat_numeral p2_nat)
  qed
  have "(2::rat) ^ 60 = 2 powi 60" using p2_nat [of 60] by simp
  also have "\<dots> \<le> 2 powi (ilog2 q + 2 * int (sqrt_scale q))"
    by (rule p2_mono) (simp add: sqrt_scale_def)
  also have "\<dots> = 2 powi ilog2 q * 4 ^ sqrt_scale q" by (simp add: four p2_add)
  also have "\<dots> \<le> q * 4 ^ sqrt_scale q" using q by (rule mult_right_mono) simp
  finally show ?thesis .
qed

lemma sqrt_sticky_encloses:
  assumes "0 < q"
  defines "k \<equiv> sqrt_scale q" and "s \<equiv> isqrt (nat \<lfloor>q * 4 ^ sqrt_scale q\<rfloor>)"
  shows "of_nat (s * s) \<le> q * 4 ^ k \<and> q * 4 ^ k < of_nat ((s + 1) * (s + 1))"
proof -
  let ?t = "q * 4 ^ k"
  have t0: "0 \<le> ?t" using assms(1) by simp
  have b: "s * s \<le> nat \<lfloor>?t\<rfloor>" "nat \<lfloor>?t\<rfloor> < (s + 1) * (s + 1)"
    using isqrt_bounds [of "nat \<lfloor>?t\<rfloor>"] by (simp_all add: s_def k_def)
  have "int (s * s) \<le> \<lfloor>?t\<rfloor>" using b(1) t0 by (metis nat_0_le of_nat_le_iff zero_le_floor)
  moreover have "\<lfloor>?t\<rfloor> < int ((s + 1) * (s + 1))" using b(2) t0 by linarith
  ultimately show ?thesis by (metis floor_less_iff le_floor_iff of_int_of_nat_eq)
qed

lemma dsqrt_nonneg: "isnan (dsqrt x) \<or> 0 \<le> dsqrt x"
proof (transfer)
  fix x show "fp_sqrt x = NaN \<or> Fin 0 \<noteq> NaN \<and> fp_sqrt x \<noteq> NaN \<and> fp_key (Fin 0) \<le> fp_key (fp_sqrt x)"
    by (cases x) (auto simp: fp_key_pack intro: crnd_nonneg sqrt_sticky_nonneg)
qed

lemma isnan_dsqrt: "0 \<le> x \<Longrightarrow> \<not> isnan (dsqrt x)"
proof (transfer)
  fix x assume "Fin 0 \<noteq> NaN \<and> x \<noteq> NaN \<and> fp_key (Fin 0) \<le> fp_key x"
  then show "\<not> fp_sqrt x = NaN" by (cases x) auto
qed

lemma mset_insert_d [simp]: "mset (insert_d x xs) = add_mset x (mset xs)"
  by (induction xs) auto

lemma mset_isort_d [simp]: "mset (isort_d xs) = mset xs"
  by (induction xs) auto

lemma set_isort_d [simp]: "set (isort_d xs) = set xs"
  by (metis mset_isort_d set_mset_mset)

lemma length_isort_d [simp]: "length (isort_d xs) = length xs"
  by (metis mset_isort_d size_mset)

lemma set_insert_d: "set (insert_d x xs) = insert x (set xs)"
  by (induction xs) auto

lemma sorted_insert_d:
  "sorted_wrt (\<le>) xs \<Longrightarrow> \<not> isnan x \<Longrightarrow> \<forall>y \<in> set xs. \<not> isnan y \<Longrightarrow> sorted_wrt (\<le>) (insert_d x xs)"
  by (induction xs) (auto simp: set_insert_d dkey)

lemma sorted_isort_d: "\<forall>x \<in> set xs. \<not> isnan x \<Longrightarrow> sorted_wrt (\<le>) (isort_d xs)"
  by (induction xs) (auto intro: sorted_insert_d)

lemma sort_d_SomeD:
  "sort_d xs = Some ys \<Longrightarrow> mset ys = mset xs \<and> sorted_wrt (\<le>) ys \<and> (\<forall>x \<in> set xs. \<not> isnan x)"
  by (auto simp: sort_d_def list_ex_iff sorted_isort_d split: if_splits)

subsection \<open>Arithmetic on exactly represented literals\<close>

named_theorems deval \<open>evaluation of closed double terms\<close>

lemma pack_repr: "repr q \<Longrightarrow> pack (q < 0) q = Fin q"
  by (auto simp: pack_def repr_def Let_def fp_zero_def)

lemma lit_rep: "repr q \<Longrightarrow> Rep_double (lit q) = Fin q"
  by (simp add: lit.rep_eq pack_repr)

lemma lit_eqI: "Rep_double x = pack (q < 0) q \<Longrightarrow> x = lit q"
  by (simp flip: Rep_double_inject add: lit.rep_eq)

lemma lit_add [deval]: "repr a \<Longrightarrow> repr b \<Longrightarrow> lit a + lit b = lit (a + b)"
  by (rule lit_eqI) (auto simp: plus_double.rep_eq lit_rep fp_add_def Let_def
      intro!: arg_cong2 [where f = pack])

lemma lit_sub [deval]: "repr a \<Longrightarrow> repr b \<Longrightarrow> lit a - lit b = lit (a - b)"
  by (rule lit_eqI) (auto simp: minus_double.rep_eq lit_rep fp_add_def Let_def
      intro!: arg_cong2 [where f = pack])

lemma lit_mul [deval]:
  "repr a \<Longrightarrow> repr b \<Longrightarrow> 0 \<le> a \<and> 0 \<le> b \<or> a * b \<noteq> 0 \<Longrightarrow> lit a * lit b = lit (a * b)"
  by (rule lit_eqI) (auto simp: times_double.rep_eq lit_rep fp_mul_def mult_less_0_iff
      intro!: arg_cong2 [where f = pack])

lemma lit_div [deval]:
  "repr a \<Longrightarrow> repr b \<Longrightarrow> b \<noteq> 0 \<Longrightarrow> 0 \<le> a \<and> 0 \<le> b \<or> a \<noteq> 0 \<Longrightarrow> lit a / lit b = lit (a / b)"
  by (rule lit_eqI) (auto simp: divide_double.rep_eq lit_rep fp_div_def divide_less_0_iff
      intro!: arg_cong2 [where f = pack])

lemma lit_less [deval]: "repr a \<Longrightarrow> repr b \<Longrightarrow> lit a < lit b \<longleftrightarrow> a < b"
  by (simp add: dkey key_lit_repr)

lemma lit_le [deval]: "repr a \<Longrightarrow> repr b \<Longrightarrow> lit a \<le> lit b \<longleftrightarrow> a \<le> b"
  by (simp add: dkey key_lit_repr)

lemma lit_deq [deval]: "repr a \<Longrightarrow> repr b \<Longrightarrow> deq (lit a) (lit b) \<longleftrightarrow> a = b"
  by (simp add: dkey key_lit_repr)


lemma lit_abs [deval]: "repr q \<Longrightarrow> \<bar>lit q\<bar> = lit \<bar>q\<bar>"
proof (rule lit_eqI)
  assume q: "repr q"
  then have "repr \<bar>q\<bar>" by (simp add: abs_if)
  from pack_repr [OF this] show "Rep_double \<bar>lit q\<bar> = pack (\<bar>q\<bar> < 0) \<bar>q\<bar>"
    by (simp add: abs_double.rep_eq lit_rep [OF q])
qed

lemma of_size_lit [deval]: "of_size n = lit (of_nat n)"
  by (simp add: of_size_def)

lemma lit_mono: "a \<le> b \<Longrightarrow> lit a \<le> lit b"
  by (simp add: le_key key_lit crnd_mono)

lemma less_le_d: "x < y \<Longrightarrow> y \<le> z \<Longrightarrow> x < (z :: double)"
  by (auto simp: dkey)

lemma lit_not_less: "b \<le> a \<Longrightarrow> \<not> lit a < lit b"
  by (simp add: less_key key_lit crnd_mono not_less)

lemma isqrt_square: "isqrt (m * m) = m"
proof -
  have b: "(isqrt (m * m))\<^sup>2 \<le> m\<^sup>2" "m\<^sup>2 < (isqrt (m * m) + 1)\<^sup>2"
    using isqrt_bounds [of "m * m"] by (simp_all add: power2_eq_square)
  then show ?thesis using power_less_imp_less_base [OF b(2)] by (simp add: power_mono_iff)
qed

lemma dsqrt_square:
  assumes "0 < q" "repr q" "repr (q * q)" "of_nat m = q * 2 ^ sqrt_scale (q * q)"
  shows "dsqrt (lit (q * q)) = lit q"
proof (rule lit_eqI)
  let ?k = "sqrt_scale (q * q)"
  have "(4::rat) ^ ?k = 2 ^ ?k * 2 ^ ?k" by (simp flip: power_mult_distrib)
  then have t: "q * q * 4 ^ ?k = of_nat (m * m)" by (simp add: assms(4))
  have "nat \<lfloor>q * q * 4 ^ ?k\<rfloor> = m * m" unfolding t by (metis floor_of_nat nat_int)
  then have "sqrt_sticky (q * q) = of_nat m / 2 ^ ?k"
    using t by (simp add: sqrt_sticky_def Let_def isqrt_square)
  then have "sqrt_sticky (q * q) = q" by (simp add: assms(4))
  then show "Rep_double (dsqrt (lit (q * q))) = pack (q < 0) q"
    using assms(1) by (simp add: dsqrt.rep_eq lit_rep [OF assms(3)] not_less)
qed

lemma lit_unique: "\<not> isnan x \<Longrightarrow> key x = q \<Longrightarrow> q \<noteq> 0 \<Longrightarrow> repr q \<Longrightarrow> x = lit q"
proof (transfer)
  fix x q assume x: "valid_fp x" "\<not> x = NaN" "fp_key x = q" "q \<noteq> 0" "repr q"
  then have "\<bar>q\<bar> < big" by (simp add: repr_def)
  then have "x = Fin q" using x by (cases x) auto
  then show "x = pack (q < 0) q" using pack_repr [OF x(5)] by simp
qed

subsection \<open>Not negative\<close>

text \<open>NaN or at least zero: what sums, products and quotients of such values keep.\<close>

definition nn :: "double \<Rightarrow> bool" where
  "nn x \<longleftrightarrow> isnan x \<or> 0 \<le> x"

lemma nn_0 [simp, intro]: "nn 0" and nn_nan [intro]: "isnan x \<Longrightarrow> nn x" and nn_of_size [simp, intro]: "nn (of_size n)"
  by (auto simp: nn_def dkey key_of_size crnd_nonneg)

lemma nn_abs [simp, intro]: "nn \<bar>x\<bar>"
  by (auto simp: nn_def)

lemma nn_square [intro]: "nn (x * x)"
  using square_nonneg [of x] by (cases "isnan x") (auto simp: nn_def)

lemma nn_sqrt [intro]: "nn (dsqrt x)"
  using dsqrt_nonneg [of x] by (simp add: nn_def)

lemma nn_add [intro]: "nn x \<Longrightarrow> nn y \<Longrightarrow> nn (x + y)"
proof -
  assume "nn x" "nn y"
  then consider "isnan x \<or> isnan y" | "0 \<le> x" "0 \<le> y" "\<not> isnan x" by (auto simp: nn_def)
  then show ?thesis
  proof cases
    case 1 then show ?thesis by (auto simp: nn_def)
  next
    case 2 then show ?thesis using add_nonneg_mono [of y x] by (auto simp: nn_def dest: le_trans_d)
  qed
qed

lemma nn_mul [intro]: "nn x \<Longrightarrow> nn y \<Longrightarrow> nn (x * y)"
  unfolding nn_def using mul_nonneg [of x y] by (auto intro: nan_propagates)

lemma nn_div [intro]: "nn x \<Longrightarrow> 0 < y \<Longrightarrow> nn (x / y)"
  unfolding nn_def using div_nonneg [of x y] by (auto simp: dkey intro: nan_propagates)

lemma of_size_pos: "0 < n \<Longrightarrow> 0 < of_size n"
  using of_size_ge_1 [of n] by (simp add: dkey)

lemma nn_div_size [intro]: "nn x \<Longrightarrow> 0 < n \<Longrightarrow> nn (x / of_size n)"
  by (intro nn_div of_size_pos)

lemma nn_foldl:
  "nn a \<Longrightarrow> (\<And>acc x. nn acc \<Longrightarrow> x \<in> set xs \<Longrightarrow> nn (f acc x)) \<Longrightarrow> nn (foldl f a xs)"
  by (induction xs arbitrary: a) auto

lemma nn_dmax [intro]: "nn a \<Longrightarrow> nn b \<Longrightarrow> nn (dmax a b)"
  by (simp add: dmax_def)

text \<open>\<open>x\<close> is NaN or between \<open>a\<close> and \<open>b\<close>.\<close>

definition nan_or_between :: "double \<Rightarrow> double \<Rightarrow> double \<Rightarrow> bool" where
  "nan_or_between a b x \<longleftrightarrow> isnan x \<or> a \<le> x \<and> x \<le> b"

end
