(* ===== verification/Prelude.thy ===== *)
theory Prelude
  imports Double_Ops
begin

text \<open>
  What the components share: the result type and its bind, the exceptions of
  \<^verbatim>\<open>core/errors.hpp\<close>, generic lemmas on lists and results, and the collections of the development.
\<close>

named_theorems result_simps \<open>rewriting of results and of their bind\<close>

section \<open>Results\<close>

definition ebind :: "'e + 'a \<Rightarrow> ('a \<Rightarrow> 'e + 'b) \<Rightarrow> 'e + 'b" where
  "ebind m f = (case m of Inl e \<Rightarrow> Inl e | Inr x \<Rightarrow> f x)"

lemma ebind_simps [simp]:
  "ebind (Inl e) f = Inl e" "ebind (Inr x) f = f x"
  by (simp_all add: ebind_def)

lemma ebind_Inr_iff [result_simps]: "ebind m f = Inr y \<longleftrightarrow> (\<exists>x. m = Inr x \<and> f x = Inr y)"
  by (cases m) auto

lemma ebind_Inl_iff [result_simps]:
  "ebind m f = Inl e \<longleftrightarrow> m = Inl e \<or> (\<exists>x. m = Inr x \<and> f x = Inl e)"
  by (cases m) auto

lemma ebind_assoc: "ebind (ebind m f) g = ebind m (\<lambda>x. ebind (f x) g)"
  by (cases m) auto

lemma ebind_cong [fundef_cong]:
  "m = m' \<Longrightarrow> (\<And>x. m' = Inr x \<Longrightarrow> f x = g x) \<Longrightarrow> ebind m f = ebind m' g"
  by (cases m') auto

text \<open>A guard: the error when the condition holds, as \<^verbatim>\<open>if (c) throw e;\<close>.\<close>

definition throw_if :: "bool \<Rightarrow> 'e \<Rightarrow> 'e + unit" where
  "throw_if c e = (if c then Inl e else Inr ())"

lemma throw_if_simps [simp]:
  "throw_if True e = Inl e" "throw_if False e = Inr ()"
  "throw_if c e = Inr u \<longleftrightarrow> \<not> c" "throw_if c e = Inl e' \<longleftrightarrow> c \<and> e = e'"
  by (auto simp: throw_if_def)

definition of_option :: "'e \<Rightarrow> 'a option \<Rightarrow> 'e + 'a" where
  "of_option e m = (case m of None \<Rightarrow> Inl e | Some x \<Rightarrow> Inr x)"

lemma of_option_simps [simp]:
  "of_option e None = Inl e" "of_option e (Some x) = Inr x"
  "of_option e m = Inr x \<longleftrightarrow> m = Some x"
  by (auto simp: of_option_def split: option.splits)

section \<open>Loops that push one element per iteration\<close>

text \<open>
  \<open>for_push f s xs\<close> is \<^verbatim>\<open>for (x : xs) { ... out.push_back(b); }\<close> with the variables the body
  updates in the state \<open>s\<close>: the body maps the state and the element to the next state and the
  element pushed.
\<close>

fun for_push :: "('s \<Rightarrow> 'x \<Rightarrow> 's \<times> 'b) \<Rightarrow> 's \<Rightarrow> 'x list \<Rightarrow> 'b list" where
  "for_push f s [] = []"
| "for_push f s (x # xs) = snd (f s x) # for_push f (fst (f s x)) xs"

lemma length_for_push [simp]: "length (for_push f s xs) = length xs"
  by (induction xs arbitrary: s) auto

lemma take_for_push: "take n (for_push f s xs) = for_push f s (take n xs)"
  by (induction xs arbitrary: n s) (auto simp: take_Cons split: nat.splits)

lemma for_push_cong [fundef_cong]:
  "xs = ys \<Longrightarrow> s = t \<Longrightarrow> (\<And>s x. x \<in> set ys \<Longrightarrow> f s x = g s x) \<Longrightarrow> for_push f s xs = for_push g t ys"
proof (induction ys arbitrary: xs s t)
  case (Cons y ys)
  then show ?case by auto
qed simp

text \<open>A function of the pushed element that depends on the visited element only.\<close>

lemma map_for_push:
  "(\<And>s x. x \<in> set xs \<Longrightarrow> h (snd (f s x)) = g x) \<Longrightarrow> map h (for_push f s xs) = map g xs"
  by (induction xs arbitrary: s) auto

lemma for_push_eq_map:
  "(\<And>s x. x \<in> set xs \<Longrightarrow> snd (f s x) = g x) \<Longrightarrow> for_push f s xs = map g xs"
  using map_for_push [of xs id f g] by simp

lemma for_push_nth: "i < length xs \<Longrightarrow> \<exists>s'. for_push f s xs ! i = snd (f s' (xs ! i))"
  by (induction xs arbitrary: i s) (auto simp: nth_Cons split: nat.splits)

lemma for_push_nthI: "i < length xs \<Longrightarrow> (\<And>s. Q (snd (f s (xs ! i)))) \<Longrightarrow> Q (for_push f s xs ! i)"
  by (metis for_push_nth)

text \<open>An invariant of the state that gives a property of every element pushed.\<close>

lemma for_push_inv:
  assumes "P s" and step: "\<And>s x. P s \<Longrightarrow> x \<in> set xs \<Longrightarrow> P (fst (f s x)) \<and> Q (snd (f s x))"
  shows "\<forall>b \<in> set (for_push f s xs). Q b"
  using assms
proof (induction xs arbitrary: s)
  case (Cons x xs)
  from Cons.prems(2) [of s x] Cons.prems(1) have "P (fst (f s x))" "Q (snd (f s x))" by auto
  moreover have "\<forall>b \<in> set (for_push f (fst (f s x)) xs). Q b"
    using calculation(1) Cons.prems(2) by (intro Cons.IH) auto
  ultimately show ?case by simp
qed simp

section \<open>Lists\<close>

lemma take_map_upt: "take n (map f [0..<m]) = map f [0..<min n m]"
  by (simp add: take_map min_def)

lemma map_take_upt: "map f (take n xs) = map (\<lambda>i. f (xs ! i)) [0..<min n (length xs)]"
  by (rule nth_equalityI) auto

lemma map_upt_nth: "map (\<lambda>i. f (xs ! i)) [0..<length xs] = map f xs"
  by (rule nth_equalityI) auto

lemma take_append_le: "n \<le> length xs \<Longrightarrow> take n (xs @ ys) = take n xs"
  by simp

lemma map_upt_cong: "(\<And>i. i < n \<Longrightarrow> f i = g i) \<Longrightarrow> map f [0..<n] = map g [0..<n]"
  by simp

end
