(* ===== verification/Core.thy ===== *)
theory Core
  imports Prelude
begin

text \<open>
  \<^verbatim>\<open>core/\<close>: the exceptions of \<^verbatim>\<open>errors.hpp\<close>, the value objects of \<^verbatim>\<open>value_objects.{hpp,cpp}\<close>.
  A string is the list of its bytes. A \<^verbatim>\<open>Date\<close> (a \<^verbatim>\<open>system_clock::time_point\<close>) is the number of
  nanoseconds since the epoch. The text of an exception is the list of the pieces streamed into
  it; how a stream renders a number is not modelled.
\<close>

section \<open>Exceptions\<close>

datatype msg_part = T string | D double | N nat | Z int

type_synonym msg = "msg_part list"

text \<open>
  The classes of \<^verbatim>\<open>errors.hpp\<close>, then \<^verbatim>\<open>audit::NotFoundError\<close> (\<^verbatim>\<open>audit/storage.hpp\<close>),
  \<^verbatim>\<open>std::runtime_error\<close> and \<^verbatim>\<open>std::length_error\<close>. \<open>UndefinedBehaviour\<close> is no exception: it marks an
  execution to which C++ gives no meaning, and no \<^verbatim>\<open>catch\<close> of the model handles it.
\<close>

datatype exn =
    InvalidTickerError
  | InvalidDateRangeError
  | InvalidCommandError msg
  | NotFoundError
  | DataQualityError msg
  | ProviderNotAvailableError string
  | InternalError msg
  | InsufficientDataError msg
  | InvalidPricesError msg
  | AuditNotFoundError
  | RuntimeError msg
  | LengthError string
  | UndefinedBehaviour string

type_synonym 'a result = "exn + 'a"

fun exn_what :: "exn \<Rightarrow> msg" where
  "exn_what InvalidTickerError = [T ''invalid ticker'']"
| "exn_what InvalidDateRangeError = [T ''invalid date range'']"
| "exn_what (InvalidCommandError m) = T ''invalid command: '' # m"
| "exn_what NotFoundError = [T ''not found'']"
| "exn_what (DataQualityError m) = T ''data quality: '' # m"
| "exn_what (ProviderNotAvailableError name) = [T ''provider not available: '', T name]"
| "exn_what (InternalError m) = T ''internal error: '' # m"
| "exn_what (InsufficientDataError m) = T ''insufficient data: '' # m"
| "exn_what (InvalidPricesError m) = T ''invalid prices: '' # m"
| "exn_what AuditNotFoundError = [T ''audit: no records found'']"
| "exn_what (RuntimeError m) = m"
| "exn_what (LengthError s) = [T s]"
| "exn_what (UndefinedBehaviour s) = []"

section \<open>Characters and strings of the C locale\<close>

definition isspace :: "char \<Rightarrow> bool" where
  "isspace c \<longleftrightarrow> (of_char c :: nat) \<in> {9, 10, 11, 12, 13, 32}"

definition tolower :: "char \<Rightarrow> char" where
  "tolower c = (let n = (of_char c :: nat) in if 65 \<le> n \<and> n \<le> 90 then char_of (n + 32) else c)"

definition Trim :: "string \<Rightarrow> string" where
  "Trim s =
     (let start = length (takeWhile isspace s);
          stop = length s - length (takeWhile isspace (rev s))
      in if stop \<le> start then [] else take (stop - start) (drop start s))"

section \<open>Value objects\<close>

type_synonym Date = int

record Ticker =
  tk_symbol :: string
  tk_exchange :: string

definition make_Ticker :: "string \<Rightarrow> Ticker result" where
  "make_Ticker symbol =
     (let s = Trim symbol in
      ebind (throw_if (s = []) InvalidTickerError) (\<lambda>_. Inr \<lparr>tk_symbol = s, tk_exchange = []\<rparr>))"

definition SetExchange :: "Ticker \<Rightarrow> string \<Rightarrow> Ticker" where
  "SetExchange t exchange = t\<lparr>tk_exchange := exchange\<rparr>"

datatype BarInterval = Daily | Weekly | Monthly

fun BarInterval_ToString :: "BarInterval \<Rightarrow> string" where
  "BarInterval_ToString Daily = ''daily''"
| "BarInterval_ToString Weekly = ''weekly''"
| "BarInterval_ToString Monthly = ''monthly''"

definition ParseBarInterval :: "string \<Rightarrow> BarInterval result" where
  "ParseBarInterval s =
     (let lower = map tolower (Trim s) in
      if lower = [] \<or> lower = ''daily'' then Inr Daily
      else if lower = ''weekly'' then Inr Weekly
      else if lower = ''monthly'' then Inr Monthly
      else Inl (InvalidCommandError
        [T ''invalid interval '', T s, T '' (want daily, weekly, or monthly)'']))"

record DateRange =
  range_start :: Date
  range_end :: Date

definition make_DateRange :: "Date \<Rightarrow> Date \<Rightarrow> DateRange result" where
  "make_DateRange start stop =
     ebind (throw_if (stop < start) InvalidDateRangeError) (\<lambda>_. Inr \<lparr>range_start = start, range_end = stop\<rparr>)"

record OHLCV =
  bar_date :: Date
  bar_open :: double
  bar_high :: double
  bar_low :: double
  bar_close :: double
  bar_volume :: int

record TickerInfo =
  ti_symbol :: string
  ti_name :: string
  ti_sector :: string
  ti_industry :: string
  ti_employees :: int
  ti_city :: string
  ti_country :: string
  ti_website :: string

record FinancialRatios =
  fr_symbol :: string
  fr_forward_pe :: string
  fr_trailing_pe :: string
  fr_price_to_book :: string
  fr_debt_to_equity :: string
  fr_roe :: string
  fr_profit_margins :: string
  fr_dividend_yield :: string
  fr_market_cap :: int

record DataSetMetadata =
  md_provider :: string
  md_adjusted :: bool
  md_survivorship_free :: bool
  md_point_in_time :: bool
  md_frequency :: string
  md_timezone :: string
  md_retrieved_at :: Date

section \<open>Facts\<close>

lemma Trim_alt: "Trim s = rev (dropWhile isspace (rev (dropWhile isspace s)))"
proof (cases "list_all isspace s")
  case True
  then have eqs: "dropWhile isspace s = []" "takeWhile isspace s = s"
    by (simp_all add: list_all_iff)
  show ?thesis unfolding Trim_def Let_def eqs by simp
next
  case False
  let ?d = "dropWhile isspace s" and ?n = "length (takeWhile isspace s)"
  from False have ne: "?d \<noteq> []" by (auto simp: list_all_iff)
  have s: "s = takeWhile isspace s @ ?d" by simp
  have hd: "\<not> isspace (hd ?d)" using ne hd_dropWhile by blast
  have tw: "takeWhile isspace (rev s) = takeWhile isspace (rev ?d)"
  proof -
    have "\<exists>x \<in> set (rev ?d). \<not> isspace x" using ne hd by (metis hd_in_set set_rev)
    then have "takeWhile isspace (rev ?d @ rev (takeWhile isspace s)) = takeWhile isspace (rev ?d)"
      by (metis takeWhile_append1)
    then show ?thesis using s by (metis rev_append)
  qed
  let ?t = "length (takeWhile isspace (rev ?d))"
  have t: "?t < length ?d"
  proof -
    have "dropWhile isspace (rev ?d) \<noteq> []"
      using ne hd by (metis dropWhile_eq_Nil_conv hd_in_set set_rev)
    then have "0 < length (dropWhile isspace (rev ?d))" by simp
    moreover have "?t + length (dropWhile isspace (rev ?d)) = length (rev ?d)"
      by (metis length_append takeWhile_dropWhile_id)
    ultimately have "?t < length (rev ?d)" by linarith
    then show ?thesis by simp
  qed
  have len: "length s = ?n + length ?d" using s by (metis length_append)
  have "Trim s = take (length ?d - ?t) ?d"
  proof -
    have "drop ?n s = ?d" by (rule dropWhile_eq_drop [symmetric])
    moreover have "\<not> length s - ?t \<le> ?n" "length s - ?t - ?n = length ?d - ?t"
      using t len by linarith+
    ultimately show ?thesis unfolding Trim_def Let_def tw by (simp only: if_False)
  qed
  also have "\<dots> = rev (drop ?t (rev ?d))" by (simp add: drop_rev)
  also have "\<dots> = rev (dropWhile isspace (rev ?d))" by (simp add: dropWhile_eq_drop)
  finally show ?thesis .
qed

lemma Trim_ends: "Trim s \<noteq> [] \<Longrightarrow> \<not> isspace (hd (Trim s)) \<and> \<not> isspace (last (Trim s))"
proof -
  assume ne: "Trim s \<noteq> []"
  let ?d = "dropWhile isspace s" and ?e = "dropWhile isspace (rev (dropWhile isspace s))"
  have t: "Trim s = rev ?e" by (rule Trim_alt)
  with ne have e: "?e \<noteq> []" by auto
  then have "\<not> isspace (hd ?e)" by (rule hd_dropWhile)
  moreover have "last (Trim s) = hd ?e" using e by (simp add: t last_rev)
  moreover have "hd (Trim s) = hd ?d"
  proof -
    have "rev ?d = takeWhile isspace (rev ?d) @ ?e" by simp
    then have "?d = rev ?e @ rev (takeWhile isspace (rev ?d))" by (metis rev_append rev_rev_ident)
    then show ?thesis using e t by (metis hd_append2 rev_is_Nil_conv)
  qed
  moreover have "?d \<noteq> []" using e by (metis dropWhile.simps(1) rev.simps(1))
  then have "\<not> isspace (hd ?d)" by (rule hd_dropWhile)
  ultimately show ?thesis by simp
qed

lemma Trim_no_space: "s = [] \<or> \<not> isspace (hd s) \<and> \<not> isspace (last s) \<Longrightarrow> Trim s = s"
proof -
  assume h: "s = [] \<or> \<not> isspace (hd s) \<and> \<not> isspace (last s)"
  show ?thesis
  proof (cases "s = []")
    case False
    with h have "dropWhile isspace s = s" "dropWhile isspace (rev s) = rev s"
      by (simp_all add: dropWhile_eq_self_iff hd_rev)
    then show ?thesis by (simp add: Trim_alt)
  qed (simp add: Trim_alt)
qed

lemma Trim_idem [simp]: "Trim (Trim s) = Trim s"
  by (rule Trim_no_space) (use Trim_ends in blast)

lemma Trim_Nil_iff: "Trim s = [] \<longleftrightarrow> list_all isspace s"
  by (simp add: Trim_alt list_all_iff)
    (metis dropWhile_eq_Nil_conv hd_dropWhile hd_in_set set_dropWhileD)

lemma make_Ticker_Inr: "make_Ticker s = Inr t \<longleftrightarrow>
    \<not> list_all isspace s \<and> t = \<lparr>tk_symbol = Trim s, tk_exchange = []\<rparr>"
  by (auto simp: make_Ticker_def Let_def result_simps Trim_Nil_iff)

lemma make_DateRange_Inr: "make_DateRange a b = Inr r \<longleftrightarrow> a \<le> b \<and> r = \<lparr>range_start = a, range_end = b\<rparr>"
  by (auto simp: make_DateRange_def result_simps)

end
