(* ===== verification/Portfolio.thy ===== *)
theory Portfolio
  imports Core "HOL-Library.List_Lexorder" "HOL-Library.Char_ord"
begin

text \<open>
  \<^verbatim>\<open>portfolio/\<close>: matrices as lists of rows, the validation of the inputs, covariance, inversion,
  the weights of the mean-variance, risk-parity and Black-Litterman portfolios and the validation of a
  result. The three source files repeat their helpers word for word; they are defined once, from
  \<^verbatim>\<open>optimizer.cpp\<close>. A \<^verbatim>\<open>std::map\<close> is the list of its entries in the order of their keys.

  Inversion and the vector operations are written over any type with the operations they use, so that
  they can also be read in exact arithmetic: at the type \<open>double\<close> they are the code.
\<close>

section \<open>Ordered maps\<close>

fun map_put :: "'k :: linorder \<Rightarrow> 'v \<Rightarrow> ('k \<times> 'v) list \<Rightarrow> ('k \<times> 'v) list" where
  "map_put k v [] = [(k, v)]"
| "map_put k v ((k', v') # m) =
     (if k < k' then (k, v) # (k', v') # m else if k = k' then (k, v) # m else (k', v') # map_put k v m)"

section \<open>Results\<close>

record PortfolioResult =
  pr_weights :: "(string \<times> double) list"
  pr_expected_return :: double
  pr_volatility :: double
  pr_sharpe_ratio :: double

definition kWeightSumTolerance :: double where
  "kWeightSumTolerance = lit (1 / 10 ^ 6)"

fun check_weights :: "double \<Rightarrow> (string \<times> double) list \<Rightarrow> double result" where
  "check_weights s [] = Inr s"
| "check_weights s ((label, w) # ws) =
     (if isnan w \<or> isinf w then Inl (DataQualityError [T ''weight for '', T label, T '' is non-finite''])
      else check_weights (s + w) ws)"

definition Validate :: "PortfolioResult \<Rightarrow> unit result" where
  "Validate r =
     ebind (throw_if (pr_weights r = []) (DataQualityError [T ''result contains no weights''])) (\<lambda>_.
     ebind (check_weights 0 (pr_weights r)) (\<lambda>total.
     ebind (throw_if (kWeightSumTolerance < \<bar>total - 1\<bar>)
         (InvalidCommandError [T ''weights sum to '', D total, T '', expected 1.0''])) (\<lambda>_.
     ebind (throw_if (isnan (pr_expected_return r) \<or> isinf (pr_expected_return r))
         (DataQualityError [T ''expected return is non-finite''])) (\<lambda>_.
     ebind (throw_if (isnan (pr_volatility r) \<or> isinf (pr_volatility r) \<or> pr_volatility r < 0)
         (DataQualityError [T ''volatility is non-finite or negative''])) (\<lambda>_.
     throw_if (isnan (pr_sharpe_ratio r) \<or> isinf (pr_sharpe_ratio r))
         (DataQualityError [T ''sharpe ratio is non-finite'']))))))"

section \<open>Validation of the inputs\<close>

type_synonym matrix = "double list list"

definition kMaxAssets :: nat where
  "kMaxAssets = 100"

fun check_labels :: "string set \<Rightarrow> string list \<Rightarrow> unit result" where
  "check_labels seen [] = Inr ()"
| "check_labels seen (label # labels) =
     (if label \<in> seen then Inl (InvalidCommandError [T ''duplicate label '', T label])
      else check_labels (insert label seen) labels)"

fun check_values :: "nat \<Rightarrow> nat \<Rightarrow> double list \<Rightarrow> unit result" where
  "check_values i j [] = Inr ()"
| "check_values i j (v # vs) =
     (if \<not> isfinite v then
        Inl (DataQualityError [T ''series '', N i, T '' contains non-finite value at index '', N j])
      else check_values i (j + 1) vs)"

fun check_series :: "nat \<Rightarrow> nat \<Rightarrow> matrix \<Rightarrow> unit result" where
  "check_series obs i [] = Inr ()"
| "check_series obs i (row # rows) =
     ebind (throw_if (length row \<noteq> obs)
         (DataQualityError [T ''series '', N i, T '' has length '', N (length row),
            T '' but series 0 has length '', N obs])) (\<lambda>_.
     ebind (check_values i 0 row) (\<lambda>_. check_series obs (i + 1) rows))"

definition ValidateReturnMatrix :: "matrix \<Rightarrow> string list \<Rightarrow> unit result" where
  "ValidateReturnMatrix returns labels =
     ebind (throw_if (returns = []) (DataQualityError [T ''returns matrix must contain at least one series''])) (\<lambda>_.
     ebind (throw_if (kMaxAssets < length returns)
         (InvalidCommandError [T ''asset count '', N (length returns), T '' exceeds maximum of '', N kMaxAssets])) (\<lambda>_.
     ebind (throw_if (length labels \<noteq> length returns)
         (InvalidCommandError [T ''expected '', N (length returns), T '' labels, got '', N (length labels)])) (\<lambda>_.
     ebind (check_labels {} labels) (\<lambda>_.
     let obs = length (returns ! 0) in
     ebind (throw_if (obs < 2)
         (DataQualityError [T ''each return series must contain at least two observations''])) (\<lambda>_.
     check_series obs 0 returns)))))"

section \<open>Vectors and matrices\<close>

definition MatAlloc :: "nat \<Rightarrow> 'a :: zero list list" where
  "MatAlloc n = replicate n (replicate n 0)"

definition VecDotMat :: "'a :: {zero, plus, times} list list \<Rightarrow> 'a list \<Rightarrow> 'a list" where
  "VecDotMat a x = map (\<lambda>i. foldl (\<lambda>sum j. sum + a ! i ! j * x ! j) 0 [0..<length x]) [0..<length a]"

definition VecDot :: "'a :: {zero, plus, times} list \<Rightarrow> 'a list \<Rightarrow> 'a" where
  "VecDot a b = foldl (\<lambda>sum i. sum + a ! i * b ! i) 0 [0..<length a]"

definition QuadraticForm :: "'a :: {zero, plus, times} list \<Rightarrow> 'a list list \<Rightarrow> 'a" where
  "QuadraticForm x a =
     (let n = length x in
      foldl (\<lambda>res i. foldl (\<lambda>res j. res + x ! i * a ! i ! j * x ! j) res [0..<n]) 0 [0..<n])"

definition pf_Mean :: "double list \<Rightarrow> double" where
  "pf_Mean vs = foldl (+) 0 vs / of_size (length vs)"

definition pf_Sum :: "'a :: {zero, plus} list \<Rightarrow> 'a" where
  "pf_Sum vs = foldl (+) 0 vs"

definition pf_Scale :: "'a :: times list \<Rightarrow> 'a \<Rightarrow> 'a list" where
  "pf_Scale vs factor = map (\<lambda>v. v * factor) vs"

definition Blend :: "double list \<Rightarrow> double list \<Rightarrow> double \<Rightarrow> double list" where
  "Blend a b alpha = map (\<lambda>i. alpha * a ! i + (1 - alpha) * b ! i) [0..<length a]"

definition Clamp :: "double \<Rightarrow> double \<Rightarrow> double \<Rightarrow> double" where
  "Clamp v lo hi = (if v < lo then lo else if hi < v then hi else v)"

definition ComputeMeans :: "matrix \<Rightarrow> double list" where
  "ComputeMeans returns = map pf_Mean returns"

definition CenterReturns :: "matrix \<Rightarrow> double list \<Rightarrow> matrix" where
  "CenterReturns returns means =
     (let n = length returns; obs = length (returns ! 0)
      in map (\<lambda>i. map (\<lambda>t. returns ! i ! t - means ! i) [0..<obs]) [0..<n])"

text \<open>The two assignments of the loop fill the upper triangle and its mirror image.\<close>

definition cov_at :: "matrix \<Rightarrow> nat \<Rightarrow> nat \<Rightarrow> double" where
  "cov_at centered i j =
     (let obs = length (centered ! 0);
          scale = 1 / (of_size obs - 1);
          sum = foldl (\<lambda>sum t. sum + centered ! i ! t * centered ! j ! t) 0 [0..<obs]
      in sum * scale)"

definition SampleCovariance :: "matrix \<Rightarrow> matrix" where
  "SampleCovariance centered =
     (let n = length centered in
      foldl (\<lambda>cov i. foldl (\<lambda>cov j.
          let c = cov_at centered i j;
              cov = cov[i := (cov ! i)[j := c]]
          in cov[j := (cov ! j)[i := cov ! i ! j]]) cov [i..<n]) (MatAlloc n) [0..<n])"

definition add_ridge :: "double \<Rightarrow> matrix \<Rightarrow> matrix" where
  "add_ridge ridge cov = foldl (\<lambda>cov i. cov[i := (cov ! i)[i := cov ! i ! i + ridge]]) cov [0..<length cov]"

section \<open>Inversion\<close>

text \<open>
  Gauss-Jordan elimination with partial pivoting on the augmented matrix. The operations are those of
  the type class; \<open>vanishes\<close> is the comparison \<^verbatim>\<open>== 0.0\<close>.
\<close>

definition vanishes :: "'a :: {zero, ord} \<Rightarrow> bool" where
  "vanishes x \<longleftrightarrow> x \<le> 0 \<and> 0 \<le> x"

definition augment :: "'a :: {zero, one} list list \<Rightarrow> 'a list list" where
  "augment m =
     (let n = length m
      in map (\<lambda>i. (take (2 * n) (m ! i) @ replicate (2 * n - length (m ! i)) 0)[n + i := 1]) [0..<n])"

definition find_pivot :: "'a :: {abs, ord} list list \<Rightarrow> nat \<Rightarrow> nat \<times> 'a" where
  "find_pivot aug col =
     foldl (\<lambda>(pivot, max_val) row.
         let v = \<bar>aug ! row ! col\<bar> in if max_val < v then (row, v) else (pivot, max_val))
       (col, \<bar>aug ! col ! col\<bar>) [col + 1..<length aug]"

definition swap_rows :: "nat \<Rightarrow> nat \<Rightarrow> 'a list list \<Rightarrow> 'a list list" where
  "swap_rows i j aug = (if j \<noteq> i then aug[i := aug ! j, j := aug ! i] else aug)"

definition normalize_row :: "nat \<Rightarrow> 'a :: inverse list list \<Rightarrow> 'a list list" where
  "normalize_row col aug =
     (let pivot_val = aug ! col ! col in aug[col := map (\<lambda>x. x / pivot_val) (aug ! col)])"

definition eliminate_row :: "nat \<Rightarrow> 'a :: {zero, ord, minus, times} list list \<Rightarrow> nat \<Rightarrow> 'a list list" where
  "eliminate_row col aug row =
     (if row = col then aug
      else let factor = aug ! row ! col in
        if vanishes factor then aug
        else aug[row := map (\<lambda>j. aug ! row ! j - factor * aug ! col ! j) [0..<length (aug ! row)]])"

definition eliminate_column ::
    "'a \<Rightarrow> 'a :: {zero, ord, abs, minus, times, inverse} list list \<Rightarrow> nat \<Rightarrow> 'a list list result" where
  "eliminate_column pivot_eps aug col =
     (let (pivot, max_val) = find_pivot aug col in
      if max_val < pivot_eps then Inl (InternalError [T ''matrix is singular or near-singular''])
      else Inr (foldl (eliminate_row col) (normalize_row col (swap_rows col pivot aug)) [0..<length aug]))"

fun eliminate_columns ::
    "'a \<Rightarrow> 'a :: {zero, ord, abs, minus, times, inverse} list list \<Rightarrow> nat list \<Rightarrow> 'a list list result" where
  "eliminate_columns pivot_eps aug [] = Inr aug"
| "eliminate_columns pivot_eps aug (col # cols) =
     ebind (eliminate_column pivot_eps aug col) (\<lambda>aug. eliminate_columns pivot_eps aug cols)"

definition invert ::
    "'a \<Rightarrow> 'a :: {zero, one, ord, abs, minus, times, inverse} list list \<Rightarrow> 'a list list result" where
  "invert pivot_eps m =
     (let n = length m in
      ebind (throw_if (n = 0) (InvalidCommandError [T ''cannot invert empty matrix''])) (\<lambda>_.
      ebind (throw_if (list_ex (\<lambda>row. length row \<noteq> n) m) (InvalidCommandError [T ''matrix must be square''])) (\<lambda>_.
      ebind (eliminate_columns pivot_eps (augment m) [0..<n]) (\<lambda>aug.
        Inr (map (\<lambda>i. map (\<lambda>j. aug ! i ! (n + j)) [0..<n]) [0..<n])))))"

definition kInversePivotEps :: double where
  "kInversePivotEps = lit (1 / 10 ^ 15)"

definition MatInverse :: "matrix \<Rightarrow> matrix result" where
  "MatInverse m = invert kInversePivotEps m"

section \<open>The metrics of a portfolio\<close>

definition double_lowest :: double where
  "double_lowest = lit (- ((2 ^ 53 - 1) * 2 ^ 971))"

definition PortfolioMetrics :: "double list \<Rightarrow> double list \<Rightarrow> matrix \<Rightarrow> double \<Rightarrow> double \<times> double \<times> double" where
  "PortfolioMetrics weights means cov rf =
     (let expected_return = VecDot weights means;
          variance = QuadraticForm weights cov;
          volatility = dsqrt (dmax 0 variance);
          sharpe = (if 0 < volatility then (expected_return - rf) / volatility else double_lowest)
      in (expected_return, volatility, sharpe))"

definition weight_map :: "string list \<Rightarrow> double list \<Rightarrow> (string \<times> double) list" where
  "weight_map labels weights = foldl (\<lambda>m i. map_put (labels ! i) (weights ! i) m) [] [0..<length labels]"

definition BuildResult :: "double list \<Rightarrow> string list \<Rightarrow> double \<times> double \<times> double \<Rightarrow> PortfolioResult result" where
  "BuildResult weights labels metrics =
     (case metrics of (expected_return, volatility, sharpe) \<Rightarrow>
       let res = \<lparr>pr_weights = weight_map labels weights, pr_expected_return = expected_return,
         pr_volatility = volatility, pr_sharpe_ratio = sharpe\<rparr>
       in ebind (Validate res) (\<lambda>_. Inr res))"

end
