(* ===== verification/Analysis.thy ===== *)
theory Analysis
  imports Portfolio "HOL-Library.Signed_Division"
begin

text \<open>
  \<^verbatim>\<open>analysis/\<close>: regression, cointegration, the Hurst exponent, principal components, correlation and
  Black-Scholes prices. \<open>num\<close> reads a literal or a size: \<open>lit\<close> in the code. The regression and the
  Jacobi iteration are written over any type with the operations they use, so that they can be read in
  exact arithmetic. \<^verbatim>\<open>std::log\<close> and \<^verbatim>\<open>std::exp\<close>, whose rounding C++ does not fix, are
  arguments, and so is \<^verbatim>\<open>std::sort\<close> where the order of equal elements shows.
\<close>

section \<open>Requests and results\<close>

datatype OptionType = Call | Put

record BlackScholesParams =
  bs_spot :: double
  bs_strike :: double
  bs_risk_free_rate :: double
  bs_volatility :: double
  bs_time_to_maturity :: double
  bs_option_type :: OptionType

record Request =
  rq_operation :: string
  rq_asset_returns :: "double list"
  rq_benchmark_returns :: "double list"
  rq_a_closes :: "double list"
  rq_b_closes :: "double list"
  rq_prices :: "double list"
  rq_max_lag :: "int option"
  rq_returns_matrix :: matrix
  rq_n_components :: int
  rq_returns_map :: "(string \<times> double list) list"
  rq_black_scholes :: "BlackScholesParams option"

record 'a RegressionResult =
  rg_alpha :: 'a
  rg_beta :: 'a
  rg_r_squared :: 'a
  rg_residuals :: "'a list"

record CointegrationResult =
  ci_hedge_ratio :: double
  ci_adf_statistic :: double
  ci_half_life :: double
  ci_current_z_score :: double

record HurstResult =
  hu_exponent :: double
  hu_interpretation :: string

record PCAResult =
  pc_labels :: "string list"
  pc_explained_variance_ratio :: "double list"
  pc_loadings :: matrix
  pc_factor_returns :: matrix

record CorrelationResult =
  co_labels :: "string list"
  co_matrix :: matrix
  co_average :: double
  co_min :: double
  co_max :: double

record OptionPricingResult =
  op_price :: double
  op_delta :: double
  op_gamma :: double
  op_vega :: double
  op_theta :: double
  op_rho :: double

datatype AnalysisResult =
    RegressionR "double RegressionResult"
  | CointegrationR CointegrationResult
  | HurstR HurstResult
  | PcaR PCAResult
  | CorrelationR CorrelationResult
  | OptionsR OptionPricingResult

section \<open>Helpers\<close>

text \<open>The first value that is not finite is an error; \<open>context\<close> is the text of the second argument.\<close>

definition ValidateFinite :: "double list \<Rightarrow> msg \<Rightarrow> unit result" where
  "ValidateFinite vs context =
     throw_if (list_ex (\<lambda>v. isnan v \<or> isinf v) vs)
       (DataQualityError (T ''input contains non-finite (NaN or infinite) values'' #
          (if context \<noteq> [] then T '' in '' # context else [])))"

fun ValidateFinite_matrix :: "nat \<Rightarrow> matrix \<Rightarrow> msg \<Rightarrow> unit result" where
  "ValidateFinite_matrix i [] context = Inr ()"
| "ValidateFinite_matrix i (row # rows) context =
     ebind (ValidateFinite row (context @ [T '' series '', N i])) (\<lambda>_. ValidateFinite_matrix (i + 1) rows context)"

definition an_Mean :: "(rat \<Rightarrow> 'a) \<Rightarrow> 'a :: {zero, plus, inverse} list \<Rightarrow> 'a" where
  "an_Mean num vs = (if vs = [] then 0 else foldl (+) 0 vs / num (of_nat (length vs)))"

definition Slope :: "double list \<Rightarrow> double list \<Rightarrow> double" where
  "Slope xs ys =
     (if length xs \<noteq> length ys \<or> xs = [] then 0
      else
        let mean_x = an_Mean lit xs;
            mean_y = an_Mean lit ys;
            (nm, den) = foldl (\<lambda>(nm, den) i.
              let dx = xs ! i - mean_x in (nm + dx * (ys ! i - mean_y), den + dx * dx)) (0, 0) [0..<length xs]
        in if deq den 0 then 0 else nm / den)"

definition cdf_poly :: "double \<Rightarrow> double" where
  "cdf_poly t =
     t * (t * (t * (t * (t * lit (1330274429 / 10 ^ 9) + lit (- (1821255978 / 10 ^ 9))) +
       lit (1781477937 / 10 ^ 9)) + lit (- (356563782 / 10 ^ 9))) + lit (319381530 / 10 ^ 9))"

text \<open>The recursion on \<open>- x\<close> is that of the code; \<open>None\<close> when it never ends.\<close>

partial_function (option) NormalCdf :: "(double \<Rightarrow> double) \<Rightarrow> double \<Rightarrow> double option" where
  "NormalCdf exp_fn x =
     (if isinf x then Some (if 0 < x then 1 else 0)
      else if 0 \<le> x then
        let t = 1 / (1 + lit (2316419 / 10 ^ 7) * x)
        in Some (1 - lit (3989422804014327 / 10 ^ 16) * exp_fn (- x * x / lit 2) * cdf_poly t)
      else Option.bind (NormalCdf exp_fn (- x)) (\<lambda>y. Some (1 - y)))"

definition NormalPdf :: "(double \<Rightarrow> double) \<Rightarrow> double \<Rightarrow> double" where
  "NormalPdf exp_fn x =
     exp_fn (- x * x / lit 2) / dsqrt (lit 2 * lit (314159265358979323846 / 10 ^ 20))"

definition AR1Coefficient :: "double list \<Rightarrow> double" where
  "AR1Coefficient vs =
     (if length vs < 2 then 0
      else
        let (nm, den) = foldl (\<lambda>(nm, den) i.
              (nm + vs ! i * vs ! (i - 1), den + vs ! (i - 1) * vs ! (i - 1))) (0, 0) [1..<length vs]
        in if deq den 0 then 0 else nm / den)"

definition AdfStatistic :: "double list \<Rightarrow> double" where
  "AdfStatistic vs =
     (if length vs < 3 then 0
      else
        let (nm, den) = foldl (\<lambda>(nm, den) i.
              let y_prev = vs ! (i - 1) in (nm + (vs ! i - y_prev) * y_prev, den + y_prev * y_prev))
              (0, 0) [1..<length vs]
        in if deq den 0 then 0
           else
             let gamma = nm / den;
                 ss_res = foldl (\<lambda>ss i.
                   let y_prev = vs ! (i - 1); dy = vs ! i - y_prev; eps = dy - gamma * y_prev in ss + eps * eps)
                   0 [1..<length vs];
                 df = of_size (length vs - 2);
                 mse = ss_res / df;
                 se = dsqrt (mse / den)
             in if deq se 0 then 0 else gamma / se)"

definition StandardScore :: "double \<Rightarrow> double list \<Rightarrow> double" where
  "StandardScore v vs =
     (let m = an_Mean lit vs;
          sum = foldl (\<lambda>sum v. let d = v - m in sum + d * d) 0 vs;
          std = dsqrt (sum / of_size (length vs))
      in if deq std 0 then 0 else (v - m) / std)"

section \<open>Regression and cointegration\<close>

text \<open>The two sums of squares of a fit: of the explaining series with itself and with the explained one.\<close>

definition regression_sums ::
    "'a \<Rightarrow> 'a \<Rightarrow> 'a :: {zero, plus, minus, times} list \<Rightarrow> 'a list \<Rightarrow> 'a \<times> 'a" where
  "regression_sums mean_x mean_y xs ys =
     foldl (\<lambda>(ss_xx, ss_xy) i.
         let dx = xs ! i - mean_x in (ss_xx + dx * dx, ss_xy + dx * (ys ! i - mean_y)))
       (0, 0) [0..<length ys]"

definition regression_fit ::
    "(rat \<Rightarrow> 'a) \<Rightarrow> 'a :: {zero, one, plus, minus, times, inverse, ord} list \<Rightarrow> 'a list \<Rightarrow>
     'a RegressionResult result" where
  "regression_fit num asset_returns benchmark_returns =
     (let n = length asset_returns;
          mean_x = an_Mean num benchmark_returns;
          mean_y = an_Mean num asset_returns;
          (ss_xx, ss_xy) = regression_sums mean_x mean_y benchmark_returns asset_returns
      in ebind (throw_if (vanishes ss_xx) (DataQualityError [T ''benchmark returns have zero variance''])) (\<lambda>_.
      let beta = ss_xy / ss_xx;
          alpha = mean_y - beta * mean_x;
          residuals = map (\<lambda>i. asset_returns ! i - (alpha + beta * benchmark_returns ! i)) [0..<n];
          (ss_res, ss_tot) = foldl (\<lambda>(ss_res, ss_tot) i.
              (ss_res + residuals ! i * residuals ! i,
               ss_tot + (asset_returns ! i - mean_y) * (asset_returns ! i - mean_y))) (0, 0) [0..<n]
      in Inr \<lparr>rg_alpha = alpha, rg_beta = beta,
           rg_r_squared = (if \<not> vanishes ss_tot then 1 - ss_res / ss_tot else 0), rg_residuals = residuals\<rparr>))"

definition Regression :: "Request \<Rightarrow> double RegressionResult result" where
  "Regression request =
     (let asset_returns = rq_asset_returns request; benchmark_returns = rq_benchmark_returns request in
      ebind (ValidateFinite asset_returns [T ''asset returns'']) (\<lambda>_.
      ebind (ValidateFinite benchmark_returns [T ''benchmark returns'']) (\<lambda>_.
      ebind (throw_if (length asset_returns \<noteq> length benchmark_returns)
          (DataQualityError [T ''asset and benchmark returns must have the same length (got '',
             N (length asset_returns), T '' and '', N (length benchmark_returns), T '')''])) (\<lambda>_.
      ebind (throw_if (length asset_returns < 2)
          (DataQualityError [T ''regression requires at least two observations''])) (\<lambda>_.
      regression_fit lit asset_returns benchmark_returns)))))"

definition half_life_of :: "(double \<Rightarrow> double) \<Rightarrow> double \<Rightarrow> double" where
  "half_life_of log_fn phi =
     (if 0 < phi \<and> phi < 1 then - log_fn (lit 2) / log_fn phi else infinity)"

definition Cointegration :: "(double \<Rightarrow> double) \<Rightarrow> Request \<Rightarrow> CointegrationResult result" where
  "Cointegration log_fn request =
     (let a_closes = rq_a_closes request; b_closes = rq_b_closes request; n = length a_closes in
      ebind (ValidateFinite a_closes [T ''a closes'']) (\<lambda>_.
      ebind (ValidateFinite b_closes [T ''b closes'']) (\<lambda>_.
      ebind (throw_if (n \<noteq> length b_closes)
          (DataQualityError [T ''price series must have the same length (got '', N n, T '' and '',
             N (length b_closes), T '')''])) (\<lambda>_.
      ebind (throw_if (n < 10)
          (DataQualityError [T ''cointegration test requires at least ten observations''])) (\<lambda>_.
      let mean_a = an_Mean lit a_closes;
          mean_b = an_Mean lit b_closes;
          (ss_bb, ss_ab) = foldl (\<lambda>(ss_bb, ss_ab) i.
              let db = b_closes ! i - mean_b in (ss_bb + db * db, ss_ab + (a_closes ! i - mean_a) * db))
              (0, 0) [0..<n]
      in ebind (throw_if (deq ss_bb 0) (DataQualityError [T ''benchmark series has zero variance''])) (\<lambda>_.
      let hedge_ratio = ss_ab / ss_bb;
          alpha = mean_a - hedge_ratio * mean_b;
          residuals = map (\<lambda>i. a_closes ! i - (alpha + hedge_ratio * b_closes ! i)) [0..<n]
      in Inr \<lparr>ci_hedge_ratio = hedge_ratio, ci_adf_statistic = AdfStatistic residuals,
           ci_half_life = half_life_of log_fn (AR1Coefficient residuals),
           ci_current_z_score = StandardScore (last residuals) residuals\<rparr>))))))"

section \<open>The Hurst exponent\<close>

text \<open>The conversion of a size to a 32-bit \<^verbatim>\<open>int\<close> wraps.\<close>

definition as_int :: "nat \<Rightarrow> int" where
  "as_int n = signed_take_bit 31 (int n)"

definition double_max :: double where
  "double_max = lit ((2 ^ 53 - 1) * 2 ^ 971)"

text \<open>Range over deviation of one chunk, when the deviation is positive.\<close>

definition chunk_range :: "double list \<Rightarrow> double option" where
  "chunk_range chunk =
     (let chunk_mean = an_Mean lit chunk;
          (cumulative, max_dev, min_dev) = foldl (\<lambda>(cumulative, max_dev, min_dev) r.
              let cumulative = cumulative + (r - chunk_mean)
              in (cumulative, if max_dev < cumulative then cumulative else max_dev,
                  if cumulative < min_dev then cumulative else min_dev))
              (0, double_lowest, double_max) chunk;
          range_val = max_dev - min_dev;
          variance = foldl (\<lambda>variance r. let d = r - chunk_mean in variance + d * d) 0 chunk / of_size (length chunk);
          std = dsqrt variance
      in if 0 < std then Some (range_val / std) else None)"

definition RescaledRange :: "double list \<Rightarrow> int \<Rightarrow> double" where
  "RescaledRange series lag =
     (let chunks = as_int (length series) sdiv lag;
          (total, count) = foldl (\<lambda>(total, count) c.
              case chunk_range (take (nat lag) (drop (c * nat lag) series)) of
                None \<Rightarrow> (total, count)
              | Some r \<Rightarrow> (total + r, count + 1)) (0, 0 :: nat) [0..<nat chunks]
      in if count = 0 then 0 else total / of_size count)"

definition InterpretHurst :: "double \<Rightarrow> string" where
  "InterpretHurst exponent =
     (if exponent < lit (4 / 10) then ''mean-reverting''
      else if exponent < lit (55 / 100) then ''approximately random walk''
      else ''persistent/trending'')"

definition hurst_max_lag :: "nat \<Rightarrow> int option \<Rightarrow> int" where
  "hurst_max_lag n max_lag =
     (let max_l = (case max_lag of
            None \<Rightarrow> if as_int (n div 4) < 8 then 8 else as_int (n div 4)
          | Some m \<Rightarrow> let m = (if m < 8 then 8 else m) in if as_int (n div 4) < m then as_int (n div 4) else m)
      in if as_int n - 1 < max_l then as_int n - 1 else max_l)"

text \<open>\<^verbatim>\<open>for (lag = min_lag; lag <= max_l; lag += step)\<close> with a positive step.\<close>

function lags_from :: "int \<Rightarrow> int \<Rightarrow> int \<Rightarrow> int list" where
  "lags_from step max_l lag = (if lag \<le> max_l \<and> 0 < step then lag # lags_from step max_l (lag + step) else [])"
  by pat_completeness auto
termination by (relation "measure (\<lambda>(step, max_l, lag). nat (max_l + 1 - lag))") auto

declare lags_from.simps [simp del]

definition log_returns :: "(double \<Rightarrow> double) \<Rightarrow> double list \<Rightarrow> double list" where
  "log_returns log_fn prices = map (\<lambda>i. log_fn (prices ! i / prices ! (i - 1))) [1..<length prices]"

definition hurst_points :: "(double \<Rightarrow> double) \<Rightarrow> double list \<Rightarrow> int list \<Rightarrow> (double \<times> double) list" where
  "hurst_points log_fn returns lags =
     concat (map (\<lambda>lag. let rs = RescaledRange returns lag in
       if 0 < rs then [(log_fn (lit (of_int lag)), log_fn rs)] else []) lags)"

definition clamp_exponent :: "double \<Rightarrow> double" where
  "clamp_exponent e = (let e = (if e < 0 then 0 else e) in if 1 < e then 1 else e)"

definition hurst_step :: "int \<Rightarrow> int" where
  "hurst_step max_l = (if (max_l - 8) sdiv 50 < 1 then 1 else (max_l - 8) sdiv 50)"

definition Hurst :: "(double \<Rightarrow> double) \<Rightarrow> Request \<Rightarrow> HurstResult result" where
  "Hurst log_fn request =
     (let prices = rq_prices request in
      ebind (ValidateFinite prices [T ''prices'']) (\<lambda>_.
      ebind (throw_if (length prices < 50)
          (DataQualityError [T ''Hurst estimation requires at least 50 price observations''])) (\<lambda>_.
      ebind (throw_if (list_ex (\<lambda>p. p \<le> 0) prices)
          (DataQualityError [T ''prices must be positive to compute log-returns''])) (\<lambda>_.
      let returns = log_returns log_fn prices;
          max_l = hurst_max_lag (length returns) (rq_max_lag request)
      in ebind (throw_if (max_l \<le> 8)
          (DataQualityError [T ''series is too short for meaningful R/S analysis''])) (\<lambda>_.
      let points = hurst_points log_fn returns (lags_from (hurst_step max_l) max_l 8)
      in ebind (throw_if (length points < 2)
          (DataQualityError [T ''could not compute rescaled range for any lag''])) (\<lambda>_.
      let exponent = clamp_exponent (Slope (map fst points) (map snd points))
      in Inr \<lparr>hu_exponent = exponent, hu_interpretation = InterpretHurst exponent\<rparr>))))))"


section \<open>The Jacobi eigendecomposition\<close>

text \<open>Cosine and sine of the rotation that zeroes the entry at \<open>(p, q)\<close>.\<close>

definition jacobi_angle ::
    "(rat \<Rightarrow> 'a) \<Rightarrow> ('a \<Rightarrow> 'a) \<Rightarrow> 'a :: {zero, one, plus, minus, uminus, times, inverse, ord, abs} list list \<Rightarrow>
     nat \<Rightarrow> nat \<Rightarrow> 'a \<times> 'a" where
  "jacobi_angle num sqrt_fn a p q =
     (let theta = (a ! q ! q - a ! p ! p) / (num 2 * a ! p ! q);
          t = (if 0 \<le> theta then 1 else num (- 1)) / (\<bar>theta\<bar> + sqrt_fn (theta * theta + 1));
          c = 1 / sqrt_fn (t * t + 1)
      in (c, t * c))"

definition rotate_columns ::
    "'a \<Rightarrow> 'a \<Rightarrow> nat \<Rightarrow> nat \<Rightarrow> 'a :: {plus, minus, times} list list \<Rightarrow> 'a list list" where
  "rotate_columns c s p q a = map (\<lambda>row. row[p := c * row ! p - s * row ! q, q := s * row ! p + c * row ! q]) a"

definition rotate_rows ::
    "'a \<Rightarrow> 'a \<Rightarrow> nat \<Rightarrow> nat \<Rightarrow> 'a :: {plus, minus, times} list list \<Rightarrow> 'a list list" where
  "rotate_rows c s p q a =
     a[p := map (\<lambda>k. c * a ! p ! k - s * a ! q ! k) [0..<length a],
       q := map (\<lambda>k. s * a ! p ! k + c * a ! q ! k) [0..<length a]]"

definition jacobi_rotate ::
    "(rat \<Rightarrow> 'a) \<Rightarrow> ('a \<Rightarrow> 'a) \<Rightarrow>
     'a :: {zero, one, plus, minus, uminus, times, inverse, ord, abs} list list \<times> 'a list list \<Rightarrow>
     nat \<times> nat \<Rightarrow> 'a list list \<times> 'a list list" where
  "jacobi_rotate num sqrt_fn av pq =
     (case (av, pq) of ((a, v), (p, q)) \<Rightarrow>
       if \<bar>a ! p ! q\<bar> < num (1 / 10 ^ 300) then (a, v)
       else
         let (c, s) = jacobi_angle num sqrt_fn a p q
         in (rotate_rows c s p q (rotate_columns c s p q a), rotate_columns c s p q v))"

definition upper_pairs :: "nat \<Rightarrow> (nat \<times> nat) list" where
  "upper_pairs n = concat (map (\<lambda>p. map (\<lambda>q. (p, q)) [p + 1..<n]) [0..<n])"

definition off_diagonal :: "'a :: {zero, plus, times} list list \<Rightarrow> 'a" where
  "off_diagonal a = foldl (\<lambda>off (p, q). off + a ! p ! q * a ! p ! q) 0 (upper_pairs (length a))"

fun jacobi_sweeps ::
    "nat \<Rightarrow> (rat \<Rightarrow> 'a) \<Rightarrow> ('a \<Rightarrow> 'a) \<Rightarrow>
     'a :: {zero, one, plus, minus, uminus, times, inverse, ord, abs} list list \<times> 'a list list \<Rightarrow>
     'a list list \<times> 'a list list" where
  "jacobi_sweeps 0 num sqrt_fn av = av"
| "jacobi_sweeps (Suc sweeps) num sqrt_fn av =
     (if off_diagonal (fst av) < num (1 / 10 ^ 30) then av
      else jacobi_sweeps sweeps num sqrt_fn
        (foldl (jacobi_rotate num sqrt_fn) av (upper_pairs (length (fst av)))))"

definition JacobiEigen ::
    "(rat \<Rightarrow> 'a) \<Rightarrow> ('a \<Rightarrow> 'a) \<Rightarrow>
     'a :: {zero, one, plus, minus, uminus, times, inverse, ord, abs} list list \<Rightarrow> 'a list \<times> 'a list list" where
  "JacobiEigen num sqrt_fn a =
     (let n = length a;
          v = map (\<lambda>i. (replicate n 0)[i := 1]) [0..<n];
          (a', v') = jacobi_sweeps 100 num sqrt_fn (a, v)
      in (map (\<lambda>i. a' ! i ! i) [0..<n], v'))"

section \<open>Principal components\<close>

fun decimal :: "nat \<Rightarrow> string" where
  "decimal n = (if n < 10 then [char_of (48 + n)] else decimal (n div 10) @ [char_of (48 + n mod 10)])"

declare decimal.simps [simp del]

definition largest_component :: "double list \<Rightarrow> nat" where
  "largest_component loading =
     foldl (\<lambda>pivot i. if \<bar>loading ! pivot\<bar> < \<bar>loading ! i\<bar> then i else pivot) 0 [1..<length loading]"

definition pca_loading :: "matrix \<Rightarrow> nat \<Rightarrow> double list" where
  "pca_loading eigenvectors idx =
     (let loading = map (\<lambda>row. row ! idx) eigenvectors
      in if loading ! largest_component loading < 0 then map uminus loading else loading)"

definition explained_ratio :: "double \<Rightarrow> double \<Rightarrow> double" where
  "explained_ratio total_variance eigenvalue =
     (if 0 < total_variance then dmax 0 eigenvalue / total_variance else 0)"

definition factor_series :: "double list \<Rightarrow> matrix \<Rightarrow> nat \<Rightarrow> double list" where
  "factor_series loading centered n_obs =
     map (\<lambda>t. foldl (\<lambda>acc i. acc + loading ! i * centered ! i ! t) 0 [0..<length loading]) [0..<n_obs]"

fun check_lengths :: "nat \<Rightarrow> nat \<Rightarrow> matrix \<Rightarrow> unit result" where
  "check_lengths n_obs i [] = Inr ()"
| "check_lengths n_obs i (row # rows) =
     ebind (throw_if (length row \<noteq> n_obs)
         (DataQualityError [T ''series '', N i, T '' has length '', N (length row),
            T '' but series 0 has length '', N n_obs])) (\<lambda>_. check_lengths n_obs (i + 1) rows)"

text \<open>\<open>sort_fn\<close> is \<^verbatim>\<open>std::sort\<close> with a comparison; with a NaN among two or more values the
  comparison is no strict weak order.\<close>

definition Pca :: "((nat \<Rightarrow> nat \<Rightarrow> bool) \<Rightarrow> nat list \<Rightarrow> nat list) \<Rightarrow> Request \<Rightarrow> PCAResult result" where
  "Pca sort_fn request =
     (let returns_matrix = rq_returns_matrix request; n_components = rq_n_components request;
          n_vars = length returns_matrix; n_obs = length (returns_matrix ! 0) in
      ebind (throw_if (returns_matrix = [])
          (DataQualityError [T ''returns matrix must contain at least one series''])) (\<lambda>_.
      ebind (throw_if (n_components \<le> 0 \<or> int n_vars < n_components)
          (DataQualityError [T ''n_components must be in [1, '', N n_vars, T ''], got '', Z n_components])) (\<lambda>_.
      ebind (throw_if (n_obs < 2)
          (DataQualityError [T ''each return series must contain at least two observations''])) (\<lambda>_.
      ebind (ValidateFinite_matrix 0 returns_matrix [T ''returns matrix'']) (\<lambda>_.
      ebind (check_lengths n_obs 0 returns_matrix) (\<lambda>_.
      let centered = CenterReturns returns_matrix (map (an_Mean lit) returns_matrix);
          (eigenvalues, eigenvectors) = JacobiEigen lit dsqrt (SampleCovariance centered)
      in ebind (throw_if (1 < n_vars \<and> list_ex isnan eigenvalues) (UndefinedBehaviour ''std::sort with NaN'')) (\<lambda>_.
      let indices = sort_fn (\<lambda>a b. eigenvalues ! b < eigenvalues ! a) [0..<n_vars];
          total_variance = foldl (+) 0 eigenvalues;
          ks = [0..<nat n_components];
          loadings = map (\<lambda>k. pca_loading eigenvectors (indices ! k)) ks
      in Inr \<lparr>pc_labels = map (\<lambda>i. ''PC'' @ decimal (i + 1)) [0..<n_vars],
           pc_explained_variance_ratio = map (\<lambda>k. explained_ratio total_variance (eigenvalues ! (indices ! k))) ks,
           pc_loadings = loadings,
           pc_factor_returns = map (\<lambda>loading. factor_series loading centered n_obs) loadings\<rparr>)))))))"


section \<open>Correlation\<close>

definition series_of :: "(string \<times> double list) list \<Rightarrow> string \<Rightarrow> double list" where
  "series_of returns_map label = the (map_of returns_map label)"

fun check_map :: "(string \<times> double list) list \<Rightarrow> nat \<Rightarrow> string list \<Rightarrow> unit result" where
  "check_map returns_map n [] = Inr ()"
| "check_map returns_map n (label # labels) =
     ebind (ValidateFinite (series_of returns_map label) [T ''series '', T label]) (\<lambda>_.
     ebind (throw_if (length (series_of returns_map label) \<noteq> n)
         (DataQualityError [T ''series '', T label, T '' has length '', N (length (series_of returns_map label)),
            T '' but expected '', N n])) (\<lambda>_. check_map returns_map n labels))"

definition covariance_value :: "matrix \<Rightarrow> double list \<Rightarrow> nat \<Rightarrow> nat \<Rightarrow> nat \<Rightarrow> double" where
  "covariance_value series means n i j =
     foldl (\<lambda>acc t. acc + (series ! i ! t - means ! i) * (series ! j ! t - means ! j)) 0 [0..<n] / of_size (n - 1)"

text \<open>The loops fill the upper triangle, mirror it, and keep the diagonal as the variances.\<close>

definition covariance_table :: "matrix \<Rightarrow> double list \<Rightarrow> nat \<Rightarrow> matrix" where
  "covariance_table series means n =
     (let k = length series
      in map (\<lambda>i. map (\<lambda>j. covariance_value series means n (min i j) (max i j)) [0..<k]) [0..<k])"

fun each :: "('x \<Rightarrow> 'y result) \<Rightarrow> 'x list \<Rightarrow> 'y list result" where
  "each f [] = Inr []"
| "each f (x # xs) = ebind (f x) (\<lambda>y. ebind (each f xs) (\<lambda>ys. Inr (y # ys)))"

definition correlation_entry :: "string list \<Rightarrow> matrix \<Rightarrow> nat \<Rightarrow> nat \<Rightarrow> double result" where
  "correlation_entry labels cov i j =
     (let denom = dsqrt (cov ! i ! i * cov ! j ! j)
      in ebind (throw_if (deq denom 0)
           (DataQualityError [T ''series '', T (labels ! i), T '' and/or '', T (labels ! j), T '' have zero variance'']))
         (\<lambda>_. Inr (cov ! i ! j / denom)))"

definition correlation_stats :: "matrix \<Rightarrow> double \<times> double \<times> double \<times> nat" where
  "correlation_stats m =
     foldl (\<lambda>(sum, lo, hi, count) (i, j).
         let v = m ! i ! j
         in (sum + v, if v < lo then v else lo, if hi < v then v else hi, count + 1))
       (0, infinity, - infinity, 0) (upper_pairs (length m))"

definition Correlation :: "Request \<Rightarrow> CorrelationResult result" where
  "Correlation request =
     (let returns_map = rq_returns_map request in
      ebind (throw_if (returns_map = [])
          (DataQualityError [T ''returns map must contain at least one series''])) (\<lambda>_.
      let labels = sort (map fst returns_map);
          n = length (series_of returns_map (labels ! 0))
      in ebind (throw_if (n < 2)
          (DataQualityError [T ''each return series must contain at least two observations''])) (\<lambda>_.
      ebind (check_map returns_map n labels) (\<lambda>_.
      let k = length labels;
          series = map (series_of returns_map) labels;
          cov = covariance_table series (map (an_Mean lit) series) n
      in ebind (each (\<lambda>i. each (correlation_entry labels cov i) [0..<k]) [0..<k]) (\<lambda>m.
      let (sum, lo, hi, count) = correlation_stats m
      in Inr \<lparr>co_labels = labels, co_matrix = m,
           co_average = (if 0 < count then sum / of_size count else 0), co_min = lo, co_max = hi\<rparr>)))))"

section \<open>Black-Scholes\<close>

definition check_params :: "BlackScholesParams \<Rightarrow> unit result" where
  "check_params p =
     ebind (ValidateFinite [bs_spot p, bs_strike p, bs_risk_free_rate p, bs_volatility p, bs_time_to_maturity p]
         [T ''Black-Scholes inputs'']) (\<lambda>_.
     ebind (throw_if (bs_spot p < 0) (DataQualityError [T ''spot must be a non-negative finite number''])) (\<lambda>_.
     ebind (throw_if (bs_strike p < 0) (DataQualityError [T ''strike must be a non-negative finite number''])) (\<lambda>_.
     ebind (throw_if (bs_risk_free_rate p < 0)
         (DataQualityError [T ''risk_free_rate must be a non-negative finite number''])) (\<lambda>_.
     ebind (throw_if (bs_volatility p < 0)
         (DataQualityError [T ''volatility must be a non-negative finite number''])) (\<lambda>_.
     ebind (throw_if (bs_time_to_maturity p < 0)
         (DataQualityError [T ''time_to_maturity must be a non-negative finite number''])) (\<lambda>_.
     ebind (throw_if (deq (bs_time_to_maturity p) 0)
         (DataQualityError [T ''time_to_maturity must be positive''])) (\<lambda>_.
     throw_if (deq (bs_volatility p) 0) (DataQualityError [T ''volatility must be positive'']))))))))"

definition option_d1 :: "(double \<Rightarrow> double) \<Rightarrow> BlackScholesParams \<Rightarrow> double" where
  "option_d1 log_fn p =
     (log_fn (bs_spot p / bs_strike p) +
       (bs_risk_free_rate p + lit (1/2) * bs_volatility p * bs_volatility p) * bs_time_to_maturity p) /
     (bs_volatility p * dsqrt (bs_time_to_maturity p))"

definition option_d2 :: "(double \<Rightarrow> double) \<Rightarrow> BlackScholesParams \<Rightarrow> double" where
  "option_d2 log_fn p = option_d1 log_fn p - bs_volatility p * dsqrt (bs_time_to_maturity p)"

definition option_greeks ::
    "(double \<Rightarrow> double) \<Rightarrow> BlackScholesParams \<Rightarrow> double \<Rightarrow> double \<Rightarrow> double \<Rightarrow> double \<Rightarrow> double \<Rightarrow>
     OptionPricingResult" where
  "option_greeks exp_fn p d1 nd1 nd2 n_neg_d1 n_neg_d2 =
     (let spot = bs_spot p; strike = bs_strike p; rate = bs_risk_free_rate p; vol = bs_volatility p;
          time = bs_time_to_maturity p;
          sqrt_t = dsqrt time;
          pdf_d1 = NormalPdf exp_fn d1;
          discount = exp_fn (- rate * time);
          gamma = pdf_d1 / (spot * vol * sqrt_t);
          vega = spot * pdf_d1 * sqrt_t
      in case bs_option_type p of
           Call \<Rightarrow> \<lparr>op_price = spot * nd1 - strike * discount * nd2, op_delta = nd1, op_gamma = gamma, op_vega = vega,
             op_theta = - spot * pdf_d1 * vol / (lit 2 * sqrt_t) - rate * strike * discount * nd2,
             op_rho = strike * time * discount * nd2\<rparr>
         | Put \<Rightarrow> \<lparr>op_price = strike * discount * n_neg_d2 - spot * n_neg_d1, op_delta = nd1 - 1, op_gamma = gamma,
             op_vega = vega,
             op_theta = - spot * pdf_d1 * vol / (lit 2 * sqrt_t) + rate * strike * discount * n_neg_d2,
             op_rho = - strike * time * discount * n_neg_d2\<rparr>)"

text \<open>\<open>None\<close> when an evaluation of \<open>NormalCdf\<close> never ends.\<close>

definition Options ::
    "(double \<Rightarrow> double) \<Rightarrow> (double \<Rightarrow> double) \<Rightarrow> Request \<Rightarrow> OptionPricingResult result option" where
  "Options log_fn exp_fn request =
     (case rq_black_scholes request of
        None \<Rightarrow> Some (Inl (DataQualityError [T ''BlackScholes params are required for operation options'']))
      | Some p \<Rightarrow>
          (case check_params p of
             Inl e \<Rightarrow> Some (Inl e)
           | Inr _ \<Rightarrow>
               let d1 = option_d1 log_fn p; d2 = option_d2 log_fn p in
               Option.bind (NormalCdf exp_fn d1) (\<lambda>nd1.
               Option.bind (NormalCdf exp_fn d2) (\<lambda>nd2.
               Option.bind (NormalCdf exp_fn (- d1)) (\<lambda>n_neg_d1.
               Option.bind (NormalCdf exp_fn (- d2)) (\<lambda>n_neg_d2.
                 Some (Inr (option_greeks exp_fn p d1 nd1 nd2 n_neg_d1 n_neg_d2))))))))"

section \<open>Dispatch\<close>

definition AnalysisCalculate ::
    "(double \<Rightarrow> double) \<Rightarrow> (double \<Rightarrow> double) \<Rightarrow> ((nat \<Rightarrow> nat \<Rightarrow> bool) \<Rightarrow> nat list \<Rightarrow> nat list) \<Rightarrow> Request \<Rightarrow>
     AnalysisResult result option" where
  "AnalysisCalculate log_fn exp_fn sort_fn request =
     (if rq_operation request = ''regression'' then Some (map_sum id RegressionR (Regression request))
      else if rq_operation request = ''cointegration'' then
        Some (map_sum id CointegrationR (Cointegration log_fn request))
      else if rq_operation request = ''hurst'' then Some (map_sum id HurstR (Hurst log_fn request))
      else if rq_operation request = ''pca'' then Some (map_sum id PcaR (Pca sort_fn request))
      else if rq_operation request = ''correlation'' then Some (map_sum id CorrelationR (Correlation request))
      else if rq_operation request = ''options'' then map_option (map_sum id OptionsR) (Options log_fn exp_fn request)
      else Some (Inl (InvalidCommandError [T ''unknown analysis operation '', T (rq_operation request)])))"


end
