(* ===== verification/Exact_Inverse.thy ===== *)
theory Exact_Inverse
  imports Portfolio
begin

text \<open>
  The inversion of \<^verbatim>\<open>MatInverse\<close> read in a linearly ordered field: its result, when it has one, is
  the inverse. The invariant of the elimination is row-wise: the left half of every row of the augmented
  matrix is its right half times the matrix, and the columns treated so far are those of the identity.
\<close>

section \<open>Shapes\<close>

definition rows_of :: "nat \<Rightarrow> nat \<Rightarrow> 'a list list \<Rightarrow> bool" where
  "rows_of n k a \<longleftrightarrow> length a = n \<and> (\<forall>i < n. length (a ! i) = k)"

lemma rows_of_update: "rows_of n k a \<Longrightarrow> length row = k \<Longrightarrow> rows_of n k (a[i := row])"
  unfolding rows_of_def by (metis length_list_update nth_list_update_eq nth_list_update_neq)

lemma rows_of_swap: "rows_of n k a \<Longrightarrow> i < n \<Longrightarrow> j < n \<Longrightarrow> rows_of n k (swap_rows i j a)"
  by (auto simp: swap_rows_def rows_of_def nth_list_update)

lemma rows_of_normalize: "rows_of n k a \<Longrightarrow> i < n \<Longrightarrow> rows_of n k (normalize_row i a)"
  by (auto simp: normalize_row_def Let_def rows_of_def nth_list_update)

lemma rows_of_eliminate: "rows_of n k a \<Longrightarrow> i < n \<Longrightarrow> rows_of n k (eliminate_row c a i)"
  by (auto simp: eliminate_row_def Let_def rows_of_def nth_list_update)

lemma nth_swap: "i < length a \<Longrightarrow> j < length a \<Longrightarrow> l < length a \<Longrightarrow>
    swap_rows i j a ! l = (if l = i then a ! j else if l = j then a ! i else a ! l)"
  by (auto simp: swap_rows_def nth_list_update)

text \<open>The pivot is a row at or below the diagonal, and the maximum is the absolute value of its entry.\<close>

lemma find_pivot_fold:
  "col \<le> fst st \<Longrightarrow> fst st < n \<Longrightarrow> snd st = \<bar>aug ! fst st ! col\<bar> \<Longrightarrow> \<forall>r \<in> set rows. col \<le> r \<and> r < n \<Longrightarrow>
     (case foldl (\<lambda>(pivot, max_val) row.
         let v = \<bar>aug ! row ! col\<bar> in if max_val < v then (row, v) else (pivot, max_val)) st rows of
       (p, v) \<Rightarrow> col \<le> p \<and> p < n \<and> v = \<bar>aug ! p ! col\<bar>)"
proof (induction rows arbitrary: st)
  case (Cons r rows)
  obtain p v where st: "st = (p, v)" by (cases st)
  show ?case
  proof (cases "v < \<bar>aug ! r ! col\<bar>")
    case True
    then show ?thesis using Cons.IH [of "(r, \<bar>aug ! r ! col\<bar>)"] Cons.prems by (simp add: st Let_def)
  next
    case False
    then show ?thesis using Cons.IH [of "(p, v)"] Cons.prems by (simp add: st Let_def)
  qed
qed auto

lemma find_pivot_range:
  assumes "col < length aug" "find_pivot aug col = (p, v)"
  shows "col \<le> p \<and> p < length aug \<and> v = \<bar>aug ! p ! col\<bar>"
  using find_pivot_fold [of col "(col, \<bar>aug ! col ! col\<bar>)" "length aug" aug "[col + 1..<length aug]"] assms
  by (simp add: find_pivot_def)

section \<open>The invariant\<close>

text \<open>\<open>row_ok n m row\<close>: the left half of \<open>row\<close> is its right half times \<open>m\<close>.\<close>

definition row_ok :: "nat \<Rightarrow> 'a :: field list list \<Rightarrow> 'a list \<Rightarrow> bool" where
  "row_ok n m row \<longleftrightarrow> (\<forall>c < n. row ! c = (\<Sum>k < n. row ! (n + k) * m ! k ! c))"

definition elim_inv :: "'a :: linordered_field list list \<Rightarrow> nat \<Rightarrow> 'a list list \<Rightarrow> bool" where
  "elim_inv m col aug \<longleftrightarrow> rows_of (length m) (2 * length m) aug \<and> (\<forall>i < length m. row_ok (length m) m (aug ! i)) \<and>
     (\<forall>i < length m. \<forall>c < col. aug ! i ! c = (if i = c then 1 else 0))"

lemma row_ok_divide:
  assumes "row_ok n m row" "length row = 2 * n"
  shows "row_ok n m (map (\<lambda>x. x / d) row)"
  using assms by (auto simp: row_ok_def sum_divide_distrib intro!: sum.cong)

lemma row_ok_combine:
  assumes "row_ok n m r" "row_ok n m s" "length r = 2 * n"
  shows "row_ok n m (map (\<lambda>j. r ! j - f * s ! j) [0..<length r])"
proof -
  have "r ! c - f * s ! c = (\<Sum>k < n. (r ! (n + k) - f * s ! (n + k)) * m ! k ! c)" if "c < n" for c
    using assms(1,2) that
    by (simp add: row_ok_def left_diff_distrib sum_subtractf sum_distrib_left mult.assoc)
  then show ?thesis using assms(3) by (simp add: row_ok_def)
qed

lemma vanishes_0: "vanishes (x :: 'a :: linordered_field) \<longleftrightarrow> x = 0"
  by (auto simp: vanishes_def)

text \<open>Eliminating one row: its entry in the column becomes 0, the other rows stay.\<close>

lemma eliminate_row_facts:
  assumes "rows_of n (2 * n) (a :: 'a :: linordered_field list list)" "\<forall>i < n. row_ok n m (a ! i)" "col < n" "row < n"
    and "a ! col ! col = 1"
  defines "b \<equiv> eliminate_row col a row"
  shows "rows_of n (2 * n) b" "\<forall>i < n. row_ok n m (b ! i)" "\<And>i. i \<noteq> row \<Longrightarrow> b ! i = a ! i"
    "row \<noteq> col \<Longrightarrow> b ! row ! col = 0" "\<And>c. c < 2 * n \<Longrightarrow> a ! col ! c = 0 \<Longrightarrow> b ! row ! c = a ! row ! c"
proof -
  show "rows_of n (2 * n) b" using rows_of_eliminate assms(1,4) by (simp add: b_def)
  show "b ! i = a ! i" if "i \<noteq> row" for i using that by (auto simp: b_def eliminate_row_def Let_def)
  have l: "length a = n" "length (a ! row) = 2 * n" "length (a ! col) = 2 * n" using assms(1,3,4) by (auto simp: rows_of_def)
  then show "row \<noteq> col \<Longrightarrow> b ! row ! col = 0"
    using assms(3-5) by (auto simp: b_def eliminate_row_def Let_def vanishes_0)
  show "b ! row ! c = a ! row ! c" if "c < 2 * n" "a ! col ! c = 0" for c
    using that l assms(4) by (auto simp: b_def eliminate_row_def Let_def)
  have "row_ok n m (b ! row)"
    using row_ok_combine [of n m "a ! row" "a ! col" "a ! row ! col"] assms(2-4) l
    by (auto simp: b_def eliminate_row_def Let_def)
  then show "\<forall>i < n. row_ok n m (b ! i)"
    using assms(2) \<open>\<And>i. i \<noteq> row \<Longrightarrow> b ! i = a ! i\<close> by (metis)
qed

text \<open>Eliminating all rows up to \<open>k\<close>.\<close>

lemma eliminate_rows:
  assumes "rows_of n (2 * n) (a :: 'a :: linordered_field list list)" "\<forall>i < n. row_ok n m (a ! i)" "col < n"
    and "a ! col ! col = 1" "k \<le> n"
  defines "b \<equiv> foldl (eliminate_row col) a [0..<k]"
  shows "rows_of n (2 * n) b \<and> (\<forall>i < n. row_ok n m (b ! i)) \<and> b ! col = a ! col \<and>
    (\<forall>i < k. i \<noteq> col \<longrightarrow> b ! i ! col = 0) \<and>
    (\<forall>i < n. \<forall>c < n. a ! col ! c = 0 \<longrightarrow> b ! i ! c = a ! i ! c)"
  using assms(5) unfolding b_def
proof (induction k)
  case 0
  then show ?case using assms by simp
next
  case (Suc k)
  let ?b = "foldl (eliminate_row col) a [0..<k]"
  from Suc have IH: "rows_of n (2 * n) ?b" "\<forall>i < n. row_ok n m (?b ! i)" "?b ! col = a ! col"
    "\<forall>i < k. i \<noteq> col \<longrightarrow> ?b ! i ! col = 0" "\<forall>i < n. \<forall>c < n. a ! col ! c = 0 \<longrightarrow> ?b ! i ! c = a ! i ! c" "k < n"
    by auto
  have one: "?b ! col ! col = 1" using IH(3) assms(4) by simp
  note f = eliminate_row_facts [OF IH(1,2) assms(3) IH(6) one]
  have "eliminate_row col ?b k ! col = a ! col"
    using f(3) [of col] IH(3) by (cases "col = k") (auto simp: eliminate_row_def)
  moreover have "eliminate_row col ?b k ! i ! col = 0" if "i < Suc k" "i \<noteq> col" for i
    using that f(3) [of i] f(4) IH(4) by (cases "i = k") auto
  moreover have "eliminate_row col ?b k ! i ! c = a ! i ! c" if "i < n" "c < n" "a ! col ! c = 0" for i c
    using that f(3) [of i] f(5) [of c] IH(3,5) by (cases "i = k") auto
  ultimately show ?case using f(1,2) by simp
qed

text \<open>Treating one column keeps the invariant and adds the column.\<close>

lemma eliminate_column_inv:
  assumes "elim_inv m col aug" "col < length m" "0 < eps" "eliminate_column eps aug col = Inr aug'"
  shows "elim_inv m (Suc col) aug'"
proof -
  let ?n = "length m"
  have inv: "rows_of ?n (2 * ?n) aug" "\<forall>i < ?n. row_ok ?n m (aug ! i)"
    "\<forall>i < ?n. \<forall>c < col. aug ! i ! c = (if i = c then 1 else 0)"
    using assms(1) by (simp_all add: elim_inv_def)
  have la: "length aug = ?n" using inv(1) by (simp add: rows_of_def)
  obtain p v where p: "find_pivot aug col = (p, v)" by (cases "find_pivot aug col")
  then have pr: "col \<le> p" "p < ?n" "v = \<bar>aug ! p ! col\<bar>" using find_pivot_range assms(2) la by metis+
  let ?s = "swap_rows col p aug"
  let ?t = "normalize_row col ?s"
  from assms(4) p have v: "eps \<le> v" and aug': "aug' = foldl (eliminate_row col) ?t [0..<?n]"
    by (auto simp: eliminate_column_def la swap_rows_def normalize_row_def Let_def split: if_splits)
  have s: "rows_of ?n (2 * ?n) ?s" using rows_of_swap inv(1) assms(2) pr(2) by blast
  have sn: "?s ! i = (if i = col then aug ! p else if i = p then aug ! col else aug ! i)" if "i < ?n" for i
    using nth_swap [of col aug p i] that assms(2) pr(2) la by simp
  have sz: "?s ! i ! c = (if i = c then 1 else 0)" if "i < ?n" "c < col" for i c
    using that pr(1,2) inv(3) assms(2) sn [OF that(1)] by auto
  have pv: "?s ! col ! col \<noteq> 0" using sn [OF assms(2)] pr(3) v assms(3) by auto
  have ls: "length (?s ! col) = 2 * ?n" "length ?s = ?n" using s assms(2) by (auto simp: rows_of_def)
  have tn: "?t ! i = (if i = col then map (\<lambda>x. x / ?s ! col ! col) (?s ! col) else ?s ! i)" if "i < ?n" for i
    using that ls(2) by (simp add: normalize_row_def Let_def)
  have t: "rows_of ?n (2 * ?n) ?t" using rows_of_normalize [OF s] assms(2) by simp
  have tr: "\<forall>i < ?n. row_ok ?n m (?t ! i)"
    using row_ok_divide [of ?n m "?s ! col"] inv(2) sn tn ls(1) assms(2) pr(2) by simp
  have tc: "?t ! col ! c = (if c = col then 1 else 0)" if "c < Suc col" for c
    using that tn [OF assms(2)] pv ls(1) assms(2) sz [OF assms(2), of c] by (auto simp: less_Suc_eq)
  have e: "rows_of ?n (2 * ?n) aug'" "\<forall>i < ?n. row_ok ?n m (aug' ! i)" "aug' ! col = ?t ! col"
    "\<forall>i < ?n. i \<noteq> col \<longrightarrow> aug' ! i ! col = 0" "\<forall>i < ?n. \<forall>c < ?n. ?t ! col ! c = 0 \<longrightarrow> aug' ! i ! c = ?t ! i ! c"
    using eliminate_rows [OF t tr assms(2) _ order_refl] tc [of col] by (simp_all add: aug')
  have "aug' ! i ! c = (if i = c then 1 else 0)" if "i < ?n" "c < Suc col" for i c
  proof (cases "c = col")
    case True
    then show ?thesis using e(3,4) tc that by auto
  next
    case False
    then have c: "c < col" "c < ?n" using that assms(2) by auto
    then have "aug' ! i ! c = ?t ! i ! c" using e(5) tc [of c] that(1) by auto
    also have "\<dots> = (if i = c then 1 else 0)"
      using c tc [of c] tn [OF that(1)] sz [OF that(1) c(1)] by auto
    finally show ?thesis .
  qed
  then show ?thesis using e(1,2) by (simp add: elim_inv_def)
qed

lemma eliminate_columns_inv:
  assumes "0 < eps" "k \<le> length m" "elim_inv m j aug" "j + k = length m"
    and "eliminate_columns eps aug [j..<length m] = Inr aug'"
  shows "elim_inv m (length m) aug'"
  using assms(2-5)
proof (induction k arbitrary: j aug)
  case (Suc k)
  then have j: "j < length m" by simp
  from Suc.prems(4) obtain aug1 where 1: "eliminate_column eps aug j = Inr aug1"
    "eliminate_columns eps aug1 [Suc j..<length m] = Inr aug'"
    by (auto simp: upt_conv_Cons [OF j] ebind_Inr_iff)
  have "elim_inv m (Suc j) aug1" using eliminate_column_inv [OF Suc.prems(2) j assms(1) 1(1)] .
  then show ?case using Suc.IH [OF _ _ _ 1(2)] Suc.prems by simp
qed simp

lemma augment_inv:
  assumes "list_all (\<lambda>row. length row = length m) m"
  shows "elim_inv (m :: 'a :: linordered_field list list) 0 (augment m)"
proof -
  let ?n = "length m"
  have a: "augment m ! i = (m ! i @ replicate ?n 0)[?n + i := 1]" "length (m ! i) = ?n" if "i < ?n" for i
    using assms that by (simp_all add: augment_def Let_def list_all_length mult_2)
  have "row_ok ?n m (augment m ! i)" if "i < ?n" for i
  proof -
    have "augment m ! i ! c = (\<Sum>k < ?n. augment m ! i ! (?n + k) * m ! k ! c)" if "c < ?n" for c
    proof -
      have "(\<Sum>k < ?n. augment m ! i ! (?n + k) * m ! k ! c) = (\<Sum>k < ?n. (if k = i then m ! i ! c else 0))"
        using a [OF \<open>i < ?n\<close>] \<open>i < ?n\<close> by (intro sum.cong) (auto simp: nth_list_update nth_append)
      then show ?thesis using a [OF \<open>i < ?n\<close>] \<open>i < ?n\<close> that by (simp add: nth_list_update nth_append)
    qed
    then show ?thesis by (simp add: row_ok_def)
  qed
  moreover have "rows_of ?n (2 * ?n) (augment m)" using a by (simp add: rows_of_def augment_def Let_def)
  ultimately show ?thesis by (simp add: elim_inv_def)
qed

section \<open>The inverse\<close>

definition matrix_product :: "'a :: comm_semiring_1 list list \<Rightarrow> 'a list list \<Rightarrow> 'a list list" where
  "matrix_product a b =
     map (\<lambda>i. map (\<lambda>j. \<Sum>k < length b. a ! i ! k * b ! k ! j) [0..<length b]) [0..<length a]"

definition identity_matrix :: "nat \<Rightarrow> 'a :: zero_neq_one list list" where
  "identity_matrix n = map (\<lambda>i. map (\<lambda>j. if i = j then 1 else 0) [0..<n]) [0..<n]"

lemma invert_exact:
  assumes "0 < (eps :: 'a :: linordered_field)" "invert eps m = Inr w"
  shows "matrix_product w m = identity_matrix (length m)"
proof -
  let ?n = "length m"
  from assms(2) have sq: "list_all (\<lambda>row. length row = ?n) m"
    by (auto simp: invert_def Let_def ebind_Inr_iff list_all_iff list_ex_iff)
  from assms(2) obtain aug where e: "eliminate_columns eps (augment m) [0..<?n] = Inr aug"
    and w: "w = map (\<lambda>i. map (\<lambda>j. aug ! i ! (?n + j)) [0..<?n]) [0..<?n]"
    by (auto simp: invert_def Let_def ebind_Inr_iff)
  have "elim_inv m ?n aug" using eliminate_columns_inv [OF assms(1) order_refl augment_inv [OF sq] _ e] by simp
  then have "(\<Sum>k < ?n. aug ! i ! (?n + k) * m ! k ! c) = (if i = c then 1 else 0)" if "i < ?n" "c < ?n" for i c
    using that unfolding elim_inv_def row_ok_def by metis
  then show ?thesis by (intro nth_equalityI) (auto simp: matrix_product_def identity_matrix_def w)
qed

text \<open>At the doubles, the test of the elimination is the comparison with 0 of the code.\<close>

lemma vanishes_double: "vanishes x \<longleftrightarrow> deq x 0"
  by (auto simp: vanishes_def dkey)

section \<open>Properties\<close>

text \<open>C28: the Gauss-Jordan inversion of the optimizers is right: read in exact rational arithmetic, with any
  positive pivot threshold, a matrix it returns times the input is the identity.\<close>

theorem exact_inverse:
  assumes "0 < (pivot_eps :: rat)" "invert pivot_eps m = Inr inverse_matrix"
  shows "matrix_product inverse_matrix m = identity_matrix (length m)"
  by (rule invert_exact [OF assms])

theorem exact_inverse_witness:
  "invert (1 / 10) [[0, 2], [1, 3 :: rat]] = Inr [[- 3 / 2, 1], [1 / 2, 0]] \<and>
     matrix_product [[- 3 / 2, 1], [1 / 2, 0 :: rat]] [[0, 2], [1, 3]] = identity_matrix 2"
proof -
  have "invert (1 / 10) [[0, 2], [1, 3 :: rat]] = Inr [[- 3 / 2, 1], [1 / 2, 0]]" by code_simp
  from exact_inverse [OF _ this] this show ?thesis by (simp add: numeral_2_eq_2)
qed

end
