(* ===== verification/Portfolio_Optimizers.thy ===== *)
theory Portfolio_Optimizers
  imports Portfolio
begin

text \<open>
  The three portfolios: mean-variance (\<^verbatim>\<open>portfolio/optimizer.cpp\<close>), risk parity
  (\<^verbatim>\<open>portfolio/risk_parity.cpp\<close>) and Black-Litterman (\<^verbatim>\<open>portfolio/black_litterman.cpp\<close>).
\<close>

definition kCovRidge :: double where
  "kCovRidge = lit (1 / 10 ^ 8)"

definition kDegeneracyEps :: double where
  "kDegeneracyEps = lit (1 / 10 ^ 12)"

section \<open>Mean-variance\<close>

record MeanVarianceRequest =
  mv_returns :: matrix
  mv_labels :: "string list"
  mv_risk_free_rate :: double
  mv_objective :: string
  mv_target_return :: "double option"
  mv_target_volatility :: "double option"

definition SolveQuadraticForBlend :: "double \<Rightarrow> double \<Rightarrow> double \<Rightarrow> double" where
  "SolveQuadraticForBlend a b c =
     (let discriminant = b * b - lit 4 * a * c in
      if discriminant < 0 \<or> \<bar>a\<bar> < kDegeneracyEps then
        (if \<bar>b\<bar> < kDegeneracyEps then lit (1/2) else Clamp (- c / b) 0 1)
      else
        let sqrt_d = dsqrt discriminant;
            alpha1 = (- b + sqrt_d) / (lit 2 * a);
            alpha2 = (- b - sqrt_d) / (lit 2 * a)
        in Clamp (dmax alpha1 alpha2) 0 1)"

definition TargetVolatilityBlend ::
    "double list \<Rightarrow> double list \<Rightarrow> matrix \<Rightarrow> double \<Rightarrow> double \<Rightarrow> double \<Rightarrow> double list" where
  "TargetVolatilityBlend w_ms w_mv cov target_vol vol_mv vol_ms =
     (let target = dmax vol_mv (dmin vol_ms target_vol) in
      if target \<le> vol_mv \<or> \<bar>vol_ms - vol_mv\<bar> < kDegeneracyEps then w_mv
      else if vol_ms \<le> target then w_ms
      else
        let var_ms = vol_ms * vol_ms;
            var_mv = vol_mv * vol_mv;
            sigma_wmv = VecDotMat cov w_mv;
            cov_ms_mv = VecDot w_ms sigma_wmv;
            target_var = target * target;
            a = var_ms + var_mv - lit 2 * cov_ms_mv;
            b = lit 2 * cov_ms_mv - lit 2 * var_mv;
            c = var_mv - target_var;
            alpha = SolveQuadraticForBlend a b c
        in Blend w_ms w_mv alpha)"

definition check_objective :: "MeanVarianceRequest \<Rightarrow> unit result" where
  "check_objective request =
     (if mv_objective request = ''target_return'' then
        throw_if (case mv_target_return request of None \<Rightarrow> True | Some t \<Rightarrow> \<not> isfinite t)
          (InvalidCommandError [T ''target_return must be a finite number''])
      else if mv_objective request = ''target_volatility'' then
        throw_if (case mv_target_volatility request of None \<Rightarrow> True | Some t \<Rightarrow> \<not> isfinite t \<or> t < 0)
          (InvalidCommandError [T ''target_volatility must be a finite non-negative number''])
      else throw_if (mv_objective request \<noteq> ''max_sharpe'' \<and> mv_objective request \<noteq> ''min_volatility'')
          (InvalidCommandError [T ''unknown objective '', T (mv_objective request)]))"

text \<open>The weights of the objective, from the two funds and their metrics.\<close>

definition objective_weights ::
    "MeanVarianceRequest \<Rightarrow> matrix \<Rightarrow> double list \<Rightarrow> double list \<Rightarrow>
     double \<times> double \<times> double \<Rightarrow> double \<times> double \<times> double \<Rightarrow> double list" where
  "objective_weights request cov w_mv w_ms metrics_mv metrics_ms =
     (case (metrics_mv, metrics_ms) of ((ret_mv, vol_mv, sharpe_mv), (ret_ms, vol_ms, sharpe_ms)) \<Rightarrow>
       if mv_objective request = ''max_sharpe'' then w_ms
       else if mv_objective request = ''min_volatility'' then w_mv
       else if mv_objective request = ''target_return'' then
         let alpha = (if kDegeneracyEps \<le> \<bar>ret_ms - ret_mv\<bar>
               then (the (mv_target_return request) - ret_mv) / (ret_ms - ret_mv) else 0)
         in Blend w_ms w_mv (Clamp alpha 0 1)
       else TargetVolatilityBlend w_ms w_mv cov (the (mv_target_volatility request)) vol_mv vol_ms)"

text \<open>The global minimum-variance weights, from the row sums of the inverse covariance.\<close>

definition min_variance_weights :: "'a :: {zero, one, plus, times, inverse} list list \<Rightarrow> 'a list" where
  "min_variance_weights inv_cov =
     (let inv1 = VecDotMat inv_cov (replicate (length inv_cov) 1) in pf_Scale inv1 (1 / pf_Sum inv1))"

definition MeanVariance :: "MeanVarianceRequest \<Rightarrow> PortfolioResult result" where
  "MeanVariance request =
     ebind (throw_if (\<not> isfinite (mv_risk_free_rate request))
         (InvalidCommandError [T ''risk_free_rate must be finite''])) (\<lambda>_.
     ebind (ValidateReturnMatrix (mv_returns request) (mv_labels request)) (\<lambda>_.
     ebind (check_objective request) (\<lambda>_.
     let n = length (mv_returns request);
         rf = mv_risk_free_rate request;
         means = ComputeMeans (mv_returns request);
         centered = CenterReturns (mv_returns request) means;
         cov = add_ridge kCovRidge (SampleCovariance centered)
     in ebind (MatInverse cov) (\<lambda>inv_cov.
     let denom_mv = pf_Sum (VecDotMat inv_cov (replicate n 1))
     in ebind (throw_if (\<bar>denom_mv\<bar> < kDegeneracyEps)
         (InternalError [T ''minimum-variance portfolio is degenerate''])) (\<lambda>_.
     let w_mv = min_variance_weights inv_cov;
         excess = map (\<lambda>i. means ! i - rf) [0..<n];
         k = VecDotMat inv_cov excess;
         sum_k = pf_Sum k;
         w_ms = (if \<bar>sum_k\<bar> < kDegeneracyEps then w_mv else pf_Scale k (1 / sum_k));
         weights = objective_weights request cov w_mv w_ms
           (PortfolioMetrics w_mv means cov rf) (PortfolioMetrics w_ms means cov rf)
     in BuildResult weights (mv_labels request) (PortfolioMetrics weights means cov rf))))))"

section \<open>Risk parity\<close>

text \<open>\<^verbatim>\<open>risk_parity.cpp\<close> has helpers of its own, in an anonymous namespace, with the text of those of \<^verbatim>\<open>optimizer.cpp\<close>.\<close>

abbreviation (input) rp_ValidateReturnMatrix :: "matrix \<Rightarrow> string list \<Rightarrow> unit result" where
  "rp_ValidateReturnMatrix \<equiv> ValidateReturnMatrix"

abbreviation (input) rp_Mean :: "double list \<Rightarrow> double" where
  "rp_Mean \<equiv> pf_Mean"

abbreviation (input) rp_Sum :: "double list \<Rightarrow> double" where
  "rp_Sum \<equiv> pf_Sum"

abbreviation (input) rp_MatAlloc :: "nat \<Rightarrow> matrix" where
  "rp_MatAlloc \<equiv> MatAlloc"

abbreviation (input) rp_SampleCovariance :: "matrix \<Rightarrow> matrix" where
  "rp_SampleCovariance \<equiv> SampleCovariance"

abbreviation (input) rp_VecDot :: "double list \<Rightarrow> double list \<Rightarrow> double" where
  "rp_VecDot \<equiv> VecDot"

abbreviation (input) rp_QuadraticForm :: "double list \<Rightarrow> matrix \<Rightarrow> double" where
  "rp_QuadraticForm \<equiv> QuadraticForm"

abbreviation (input) rp_PortfolioMetrics :: "double list \<Rightarrow> double list \<Rightarrow> matrix \<Rightarrow> double \<Rightarrow> double \<times> double \<times> double" where
  "rp_PortfolioMetrics \<equiv> PortfolioMetrics"

record RiskParityRequest =
  rp_returns :: matrix
  rp_labels :: "string list"

definition risk_contributions :: "matrix \<Rightarrow> double list \<Rightarrow> double list" where
  "risk_contributions cov weights =
     map (\<lambda>i. weights ! i * foldl (\<lambda>mrc j. mrc + cov ! i ! j * weights ! j) 0 [0..<length weights])
       [0..<length weights]"

definition damped_weights :: "double list \<Rightarrow> double list \<Rightarrow> double \<Rightarrow> double list" where
  "damped_weights weights rc target =
     map (\<lambda>i. weights ! i + lit (1/2) *
         (weights ! i * target / dmax (rc ! i) kDegeneracyEps - weights ! i)) [0..<length weights]"

text \<open>The body of the iteration; \<open>None\<close> is \<^verbatim>\<open>break\<close>.\<close>

definition parity_step :: "matrix \<Rightarrow> double list \<Rightarrow> double list option" where
  "parity_step cov weights =
     (let n = length weights;
          rc = risk_contributions cov weights;
          total_rc = rp_Sum rc
      in if total_rc < kDegeneracyEps then None
         else
           let target = total_rc / of_size n in
           if \<not> list_ex (\<lambda>r. lit (1 / 10 ^ 10) \<le> \<bar>r - target\<bar>) rc then None
           else
             let nxt = damped_weights weights rc target;
                 next_total = rp_Sum nxt
             in if next_total < kDegeneracyEps then None
                else Some (map (\<lambda>w. w / next_total) nxt))"

fun parity_loop :: "nat \<Rightarrow> matrix \<Rightarrow> double list \<Rightarrow> double list" where
  "parity_loop 0 cov weights = weights"
| "parity_loop (Suc iterations) cov weights =
     (case parity_step cov weights of
        None \<Rightarrow> weights
      | Some weights' \<Rightarrow> parity_loop iterations cov weights')"

definition RiskParity :: "RiskParityRequest \<Rightarrow> PortfolioResult result" where
  "RiskParity request =
     ebind (rp_ValidateReturnMatrix (rp_returns request) (rp_labels request)) (\<lambda>_.
     let n = length (rp_returns request);
         means = ComputeMeans (rp_returns request);
         cov = rp_SampleCovariance (CenterReturns (rp_returns request) means);
         total_variance = foldl (\<lambda>v i. v + cov ! i ! i) 0 [0..<n]
     in ebind (throw_if (total_variance < kDegeneracyEps)
         (DataQualityError [T ''all assets have zero volatility; cannot compute risk-parity weights''])) (\<lambda>_.
     let weights = parity_loop 1000 cov (replicate n (1 / of_size n))
     in BuildResult weights (rp_labels request) (rp_PortfolioMetrics weights means cov 0)))"

section \<open>Black-Litterman\<close>

text \<open>\<^verbatim>\<open>black_litterman.cpp\<close> has helpers of its own, in an anonymous namespace, with the text of those of \<^verbatim>\<open>optimizer.cpp\<close>.\<close>

abbreviation (input) bl_ValidateReturnMatrix :: "matrix \<Rightarrow> string list \<Rightarrow> unit result" where
  "bl_ValidateReturnMatrix \<equiv> ValidateReturnMatrix"

abbreviation (input) bl_MatAlloc :: "nat \<Rightarrow> matrix" where
  "bl_MatAlloc \<equiv> MatAlloc"

abbreviation (input) bl_VecDotMat :: "matrix \<Rightarrow> double list \<Rightarrow> double list" where
  "bl_VecDotMat \<equiv> VecDotMat"

abbreviation (input) bl_VecDot :: "double list \<Rightarrow> double list \<Rightarrow> double" where
  "bl_VecDot \<equiv> VecDot"

abbreviation (input) bl_QuadraticForm :: "double list \<Rightarrow> matrix \<Rightarrow> double" where
  "bl_QuadraticForm \<equiv> QuadraticForm"

abbreviation (input) bl_MatInverse :: "matrix \<Rightarrow> matrix result" where
  "bl_MatInverse \<equiv> MatInverse"

abbreviation (input) bl_SampleCovariance :: "matrix \<Rightarrow> matrix" where
  "bl_SampleCovariance \<equiv> SampleCovariance"

abbreviation (input) bl_Mean :: "double list \<Rightarrow> double" where
  "bl_Mean \<equiv> pf_Mean"

abbreviation (input) bl_Sum :: "double list \<Rightarrow> double" where
  "bl_Sum \<equiv> pf_Sum"

abbreviation (input) bl_Scale :: "double list \<Rightarrow> double \<Rightarrow> double list" where
  "bl_Scale \<equiv> pf_Scale"

abbreviation (input) bl_PortfolioMetrics :: "double list \<Rightarrow> double list \<Rightarrow> matrix \<Rightarrow> double \<Rightarrow> double \<times> double \<times> double" where
  "bl_PortfolioMetrics \<equiv> PortfolioMetrics"

abbreviation (input) bl_MatCopy :: "matrix \<Rightarrow> matrix" where
  "bl_MatCopy m \<equiv> m"

record BlackLittermanRequest =
  bl_returns :: matrix
  bl_labels :: "string list"
  bl_market_caps :: "double list"
  bl_p_matrix :: matrix
  bl_q_vector :: "double list"
  bl_tau :: double
  bl_risk_aversion :: double

record BlackLittermanResult =
  blr_portfolio :: PortfolioResult
  blr_expected_returns :: "(string \<times> double) list"
  blr_covariance :: matrix

fun check_caps :: "nat \<Rightarrow> double list \<Rightarrow> unit result" where
  "check_caps i [] = Inr ()"
| "check_caps i (c # caps) =
     (if c \<le> 0 \<or> \<not> isfinite c then
        Inl (InvalidCommandError [T ''market cap '', N i, T '' must be positive and finite''])
      else check_caps (i + 1) caps)"

fun check_views :: "nat \<Rightarrow> nat \<Rightarrow> matrix \<Rightarrow> unit result" where
  "check_views n i [] = Inr ()"
| "check_views n i (row # rows) =
     ebind (throw_if (length row \<noteq> n)
         (InvalidCommandError [T ''P row '', N i, T '' has length '', N (length row), T '' but there are '', N n,
            T '' assets''])) (\<lambda>_.
     ebind (throw_if (\<not> list_ex (\<lambda>v. \<not> deq v 0) row)
         (InvalidCommandError [T ''P row '', N i, T '' is all zeros''])) (\<lambda>_.
     check_views n (i + 1) rows))"

definition ValidateBlackLittermanRequest :: "BlackLittermanRequest \<Rightarrow> unit result" where
  "ValidateBlackLittermanRequest req =
     ebind (throw_if (bl_tau req \<le> 0 \<or> \<not> isfinite (bl_tau req))
         (InvalidCommandError [T ''tau must be a positive finite number''])) (\<lambda>_.
     ebind (throw_if (bl_risk_aversion req \<le> 0 \<or> \<not> isfinite (bl_risk_aversion req))
         (InvalidCommandError [T ''risk_aversion must be a positive finite number''])) (\<lambda>_.
     ebind (bl_ValidateReturnMatrix (bl_returns req) (bl_labels req)) (\<lambda>_.
     let n = length (bl_returns req) in
     ebind (throw_if (length (bl_market_caps req) \<noteq> n)
         (InvalidCommandError [T ''expected '', N n, T '' market caps, got '', N (length (bl_market_caps req))])) (\<lambda>_.
     ebind (check_caps 0 (bl_market_caps req)) (\<lambda>_.
     ebind (throw_if (bl_p_matrix req = [])
         (InvalidCommandError [T ''P matrix must contain at least one view''])) (\<lambda>_.
     ebind (throw_if (length (bl_p_matrix req) \<noteq> length (bl_q_vector req))
         (InvalidCommandError [T ''P matrix has '', N (length (bl_p_matrix req)), T '' rows but Q has '',
            N (length (bl_q_vector req)), T '' elements''])) (\<lambda>_.
     check_views n 0 (bl_p_matrix req))))))))"

definition MatScale :: "matrix \<Rightarrow> double \<Rightarrow> matrix" where
  "MatScale m s = map (map (\<lambda>v. v * s)) m"

definition MatAdd :: "matrix \<Rightarrow> matrix \<Rightarrow> matrix" where
  "MatAdd a b = (let n = length a in map (\<lambda>i. map (\<lambda>j. a ! i ! j + b ! i ! j) [0..<n]) [0..<n])"

fun view_confidences :: "matrix \<Rightarrow> nat \<Rightarrow> matrix \<Rightarrow> double list result" where
  "view_confidences tau_sigma i [] = Inr []"
| "view_confidences tau_sigma i (row # rows) =
     (let p_sigma = bl_VecDotMat tau_sigma row;
          omega_i = bl_VecDot row p_sigma
      in if \<bar>omega_i\<bar> < kDegeneracyEps then Inl (DataQualityError [T ''view '', N i, T '' has zero confidence''])
         else ebind (view_confidences tau_sigma (i + 1) rows) (\<lambda>omega_inv. Inr (1 / omega_i # omega_inv)))"

text \<open>\<open>P' Omega\<^sup>-\<^sup>1 P\<close> and \<open>P' Omega\<^sup>-\<^sup>1 Q\<close>, summed over the views in their order.\<close>

definition views_matrix :: "nat \<Rightarrow> matrix \<Rightarrow> double list \<Rightarrow> matrix" where
  "views_matrix n p omega_inv =
     map (\<lambda>a. map (\<lambda>b. foldl (\<lambda>s i. s + omega_inv ! i * p ! i ! a * p ! i ! b) 0 [0..<length p]) [0..<n]) [0..<n]"

definition views_vector :: "nat \<Rightarrow> matrix \<Rightarrow> double list \<Rightarrow> double list \<Rightarrow> double list" where
  "views_vector n p omega_inv q =
     map (\<lambda>a. foldl (\<lambda>s i. s + omega_inv ! i * q ! i * p ! i ! a) 0 [0..<length p]) [0..<n]"

definition BlackLitterman :: "BlackLittermanRequest \<Rightarrow> BlackLittermanResult result" where
  "BlackLitterman req =
     ebind (ValidateBlackLittermanRequest req) (\<lambda>_.
     let n = length (bl_returns req);
         p = bl_p_matrix req;
         means = map (\<lambda>i. bl_Mean (bl_returns req ! i)) [0..<n];
         cov = add_ridge kCovRidge (bl_SampleCovariance (CenterReturns (bl_returns req) means));
         cap_sum = bl_Sum (bl_market_caps req);
         w_mkt = map (\<lambda>i. bl_market_caps req ! i / cap_sum) [0..<n];
         pi = bl_Scale (bl_VecDotMat cov w_mkt) (bl_risk_aversion req);
         tau_sigma = MatScale cov (bl_tau req)
     in ebind (view_confidences tau_sigma 0 p) (\<lambda>omega_inv.
     let pt_op = views_matrix n p omega_inv;
         pt_oq = views_vector n p omega_inv (bl_q_vector req)
     in ebind (bl_MatInverse tau_sigma) (\<lambda>tau_sigma_inv.
     ebind (bl_MatInverse (MatAdd tau_sigma_inv pt_op)) (\<lambda>m1_inv.
     let m2_part = bl_VecDotMat tau_sigma_inv pi;
         m2 = map (\<lambda>i. m2_part ! i + pt_oq ! i) [0..<n];
         mu_bl = bl_VecDotMat m1_inv m2;
         sigma_bl = MatAdd cov m1_inv
     in ebind (bl_MatInverse (MatScale sigma_bl (bl_risk_aversion req))) (\<lambda>a_inv.
     let w_raw = bl_VecDotMat a_inv mu_bl;
         w_sum = bl_Sum w_raw
     in ebind (throw_if (\<bar>w_sum\<bar> < kDegeneracyEps)
         (InternalError [T ''optimised weights sum to zero''])) (\<lambda>_.
     let w = bl_Scale w_raw (1 / w_sum)
     in ebind (BuildResult w (bl_labels req) (bl_PortfolioMetrics w mu_bl sigma_bl 0)) (\<lambda>portfolio.
       Inr \<lparr>blr_portfolio = portfolio, blr_expected_returns = weight_map (bl_labels req) mu_bl,
         blr_covariance = sigma_bl\<rparr>)))))))"

text \<open>The variant with one view per asset. The maps of the request are their entries in key order.\<close>

record BlackLittermanSimplifiedRequest =
  bs_returns :: matrix
  bs_labels :: "string list"
  bs_market_caps :: "(string \<times> double) list"
  bs_views :: "(string \<times> double) list"
  bs_tau :: double
  bs_risk_aversion :: double

fun ordered_caps :: "(string \<times> double) list \<Rightarrow> string list \<Rightarrow> double list result" where
  "ordered_caps caps [] = Inr []"
| "ordered_caps caps (label # labels) =
     (case map_of caps label of
        None \<Rightarrow> Inl (InvalidCommandError [T ''missing market cap for asset '', T label])
      | Some c \<Rightarrow>
          if c \<le> 0 \<or> \<not> isfinite c then
            Inl (InvalidCommandError [T ''market cap for '', T label, T '' must be positive and finite''])
          else ebind (ordered_caps caps labels) (\<lambda>cs. Inr (c # cs)))"

fun view_rows :: "string list \<Rightarrow> (string \<times> double) list \<Rightarrow> (matrix \<times> double list) result" where
  "view_rows labels [] = Inr ([], [])"
| "view_rows labels ((label, expected_return) # views) =
     (if label \<notin> set labels then Inl (InvalidCommandError [T ''unknown view asset '', T label])
      else
        let idx = length (takeWhile (\<lambda>l. l \<noteq> label) labels);
            row = (replicate (length labels) 0)[idx := 1]
        in ebind (view_rows labels views) (\<lambda>(p_rows, q). Inr (row # p_rows, expected_return # q)))"

definition BlackLittermanSimplified :: "BlackLittermanSimplifiedRequest \<Rightarrow> BlackLittermanResult result" where
  "BlackLittermanSimplified req =
     ebind (throw_if (bs_labels req = []) (DataQualityError [T ''labels must not be empty''])) (\<lambda>_.
     ebind (throw_if (bs_views req = []) (InvalidCommandError [T ''at least one expert view is required''])) (\<lambda>_.
     ebind (throw_if (bs_tau req \<le> 0 \<or> \<not> isfinite (bs_tau req))
         (InvalidCommandError [T ''tau must be a positive finite number''])) (\<lambda>_.
     ebind (throw_if (bs_risk_aversion req \<le> 0 \<or> \<not> isfinite (bs_risk_aversion req))
         (InvalidCommandError [T ''risk_aversion must be a positive finite number''])) (\<lambda>_.
     ebind (ordered_caps (bs_market_caps req) (bs_labels req)) (\<lambda>caps.
     ebind (view_rows (bs_labels req) (bs_views req)) (\<lambda>(p_rows, q).
       BlackLitterman \<lparr>bl_returns = bs_returns req, bl_labels = bs_labels req, bl_market_caps = caps,
         bl_p_matrix = p_rows, bl_q_vector = q, bl_tau = bs_tau req, bl_risk_aversion = bs_risk_aversion req\<rparr>))))))"

end
