(* ===== verification/Min_Variance.thy ===== *)
theory Min_Variance
  imports Exact_Inverse Portfolio_Optimizers
begin

text \<open>
  The minimum-variance weights in exact arithmetic: they sum to one and no weights that do have a smaller
  variance.
\<close>

section \<open>Sums\<close>

lemma foldl_sum: "foldl (\<lambda>s j. s + f j) a [0..<n] = a + (\<Sum>j < n. f j :: 'a :: comm_monoid_add)"
  by (induction n) (simp_all add: ac_simps)

lemma foldl_sum2: "foldl (\<lambda>res i. foldl (\<lambda>res j. res + f i j) res [0..<m]) a [0..<n] =
    a + (\<Sum>i < n. \<Sum>j < m. f i j :: 'a :: comm_monoid_add)"
  by (simp only: foldl_sum)

lemma foldl_list: "foldl (+) a xs = a + (\<Sum>i < length xs. xs ! i :: 'a :: comm_monoid_add)"
proof -
  have "foldl (+) a xs = a + sum_list xs" by (induction xs arbitrary: a) (simp_all add: ac_simps)
  then show ?thesis by (simp add: sum_list_sum_nth atLeast0LessThan)
qed

lemma QuadraticForm_sum:
  "QuadraticForm x a = (\<Sum>i < length x. \<Sum>j < length x. x ! i * a ! i ! j * x ! j :: 'a :: comm_semiring_1)"
  by (simp add: QuadraticForm_def Let_def foldl_sum2)

lemma pf_Sum_sum: "pf_Sum x = (\<Sum>i < length x. x ! i :: 'a :: comm_monoid_add)"
  by (simp add: pf_Sum_def foldl_list)

section \<open>The inverse of a symmetric matrix\<close>

definition symmetric :: "'a list list \<Rightarrow> bool" where
  "symmetric a \<longleftrightarrow> list_all (\<lambda>i. list_all (\<lambda>j. a ! i ! j = a ! j ! i) [0..<length a]) [0..<length a]"

text \<open>Matrices as functions of two indices below \<open>n\<close>: a left inverse of a symmetric matrix is symmetric, so it
  is a right inverse.\<close>

lemma left_inverse_symmetric:
  fixes a w :: "nat \<Rightarrow> nat \<Rightarrow> 'a :: comm_ring_1"
  assumes inv: "\<And>i j. i < n \<Longrightarrow> j < n \<Longrightarrow> (\<Sum>k < n. w i k * a k j) = (if i = j then 1 else 0)"
    and sym: "\<And>i j. i < n \<Longrightarrow> j < n \<Longrightarrow> a i j = a j i"
    and ij: "i < n" "j < n"
  shows "w i j = w j i"
proof -
  have "(\<Sum>k < n. \<Sum>l < n. w i k * a k l * w j l) = (\<Sum>k < n. w i k * (\<Sum>l < n. w j l * a l k))"
    using sym by (intro sum.cong) (simp_all add: sum_distrib_left ac_simps)
  also have "\<dots> = (\<Sum>k < n. if k = j then w i k else 0)" using inv ij by (intro sum.cong) auto
  also have "\<dots> = w i j" using ij by simp
  finally have 1: "(\<Sum>k < n. \<Sum>l < n. w i k * a k l * w j l) = w i j" .
  have "(\<Sum>k < n. \<Sum>l < n. w i k * a k l * w j l) = (\<Sum>l < n. (\<Sum>k < n. w i k * a k l) * w j l)"
    by (subst sum.swap) (simp add: sum_distrib_right)
  also have "\<dots> = (\<Sum>l < n. if l = i then w j l else 0)" using inv ij by (intro sum.cong) auto
  also have "\<dots> = w j i" using ij by simp
  finally show ?thesis using 1 by simp
qed

lemma right_inverse_row_sums:
  fixes a w :: "nat \<Rightarrow> nat \<Rightarrow> 'a :: comm_ring_1"
  assumes inv: "\<And>i j. i < n \<Longrightarrow> j < n \<Longrightarrow> (\<Sum>k < n. w i k * a k j) = (if i = j then 1 else 0)"
    and sym: "\<And>i j. i < n \<Longrightarrow> j < n \<Longrightarrow> a i j = a j i"
    and i: "i < n"
  shows "(\<Sum>j < n. a i j * (\<Sum>k < n. w j k)) = 1"
proof -
  have "(\<Sum>j < n. a i j * (\<Sum>k < n. w j k)) = (\<Sum>j < n. \<Sum>k < n. w k j * a j i)"
    using left_inverse_symmetric [OF inv sym] sym i
    by (intro sum.cong) (simp_all add: sum_distrib_left ac_simps)
  also have "\<dots> = (\<Sum>k < n. \<Sum>j < n. w k j * a j i)" by (rule sum.swap)
  also have "\<dots> = 1" using inv i by simp
  finally show ?thesis .
qed

section \<open>The variance of weights\<close>

text \<open>The variance at \<open>x\<close>, developed around weights \<open>v\<close> on which the matrix is constant.\<close>

lemma quadratic_around:
  fixes a :: "nat \<Rightarrow> nat \<Rightarrow> 'a :: comm_ring_1"
  assumes sym: "\<And>i j. i < n \<Longrightarrow> j < n \<Longrightarrow> a i j = a j i"
    and const: "\<And>i. i < n \<Longrightarrow> (\<Sum>j < n. a i j * v j) = c"
    and sums: "(\<Sum>i < n. x i) = (\<Sum>i < n. v i)"
  shows "(\<Sum>i < n. \<Sum>j < n. x i * a i j * x j) =
    (\<Sum>i < n. \<Sum>j < n. v i * a i j * v j) + (\<Sum>i < n. \<Sum>j < n. (x i - v i) * a i j * (x j - v j))"
proof -
  have row: "(\<Sum>i < n. \<Sum>j < n. y i * a i j * v j) = (\<Sum>i < n. y i) * c" for y
    using const by (simp add: mult.assoc sum_distrib_left [symmetric] sum_distrib_right)
  have col: "(\<Sum>i < n. \<Sum>j < n. v i * a i j * y j) = (\<Sum>i < n. y i) * c" for y
  proof -
    have "(\<Sum>i < n. \<Sum>j < n. v i * a i j * y j) = (\<Sum>j < n. \<Sum>i < n. y j * a j i * v i)"
      by (subst sum.swap) (use sym in \<open>auto intro!: sum.cong simp: ac_simps\<close>)
    then show ?thesis using row by simp
  qed
  have "(\<Sum>i < n. \<Sum>j < n. (x i - v i) * a i j * (x j - v j)) =
      (\<Sum>i < n. \<Sum>j < n. x i * a i j * x j) - (\<Sum>i < n. \<Sum>j < n. x i * a i j * v j) -
      (\<Sum>i < n. \<Sum>j < n. v i * a i j * x j) + (\<Sum>i < n. \<Sum>j < n. v i * a i j * v j)"
    by (simp add: algebra_simps sum.distrib sum_subtractf)
  then show ?thesis using sums by (simp add: row col)
qed

text \<open>Weights on which the covariance is constant have the smallest variance.\<close>

lemma constant_is_optimal:
  fixes cov :: "'a :: linordered_field list list"
  assumes sym: "symmetric cov" and psd: "\<And>z. length z = length cov \<Longrightarrow> 0 \<le> QuadraticForm z cov"
    and const: "\<And>i. i < length cov \<Longrightarrow> (\<Sum>j < length cov. cov ! i ! j * v ! j) = c"
    and len: "length v = length cov" "length x = length cov" and sums: "pf_Sum x = pf_Sum v"
  shows "QuadraticForm v cov \<le> QuadraticForm x cov"
proof -
  let ?n = "length cov"
  have "QuadraticForm x cov = QuadraticForm v cov + QuadraticForm (map (\<lambda>i. x ! i - v ! i) [0..<?n]) cov"
    using quadratic_around [of ?n "\<lambda>i j. cov ! i ! j" "(!) v" c "(!) x"] sym const sums
    by (simp add: QuadraticForm_sum pf_Sum_sum len symmetric_def list_all_iff)
  then show ?thesis using psd [of "map (\<lambda>i. x ! i - v ! i) [0..<?n]"] by simp
qed


text \<open>The weights from the inverse: the covariance is constant on them.\<close>

lemma invert_shape:
  assumes "invert eps m = Inr w"
  shows "length w = length m" "\<And>i. i < length m \<Longrightarrow> length (w ! i) = length m"
  using assms by (auto simp: invert_def Let_def ebind_Inr_iff)

lemma min_variance_nth:
  assumes "length inv_cov = n" "i < n"
  shows "min_variance_weights inv_cov ! i = (\<Sum>j < n. inv_cov ! i ! j) / pf_Sum (VecDotMat inv_cov (replicate n (1 :: 'a :: linordered_field)))"
proof -
  have "VecDotMat inv_cov (replicate n 1) ! i = (\<Sum>j < n. inv_cov ! i ! j)"
    using assms by (simp add: VecDotMat_def foldl_sum)
  then show ?thesis using assms by (simp add: min_variance_weights_def Let_def pf_Scale_def VecDotMat_def)
qed

lemma min_variance_sum:
  fixes inv_cov :: "'a :: linordered_field list list"
  assumes "pf_Sum (VecDotMat inv_cov (replicate (length inv_cov) 1)) \<noteq> 0"
  shows "pf_Sum (min_variance_weights inv_cov) = 1"
proof -
  have "pf_Sum (pf_Scale xs c) = pf_Sum xs * c" for xs and c :: 'a
    by (simp add: pf_Sum_sum pf_Scale_def sum_distrib_right)
  then show ?thesis using assms by (simp add: min_variance_weights_def Let_def)
qed

lemma min_variance_constant:
  fixes cov :: "'a :: linordered_field list list"
  assumes "0 < eps" "invert eps cov = Inr inv_cov" "symmetric cov" "i < length cov"
  shows "(\<Sum>j < length cov. cov ! i ! j * min_variance_weights inv_cov ! j) =
    1 / pf_Sum (VecDotMat inv_cov (replicate (length cov) 1))"
proof -
  let ?n = "length cov" and ?d = "pf_Sum (VecDotMat inv_cov (replicate (length cov) 1))"
  have n: "length inv_cov = ?n" using invert_shape [OF assms(2)] by simp
  have "(\<Sum>k < ?n. inv_cov ! i ! k * cov ! k ! j) = (if i = j then 1 else 0)" if "i < ?n" "j < ?n" for i j
  proof -
    have "matrix_product inv_cov cov ! i ! j = identity_matrix ?n ! i ! j" using invert_exact [OF assms(1,2)] by simp
    then show ?thesis using that n by (simp add: matrix_product_def identity_matrix_def)
  qed
  moreover have "cov ! i ! j = cov ! j ! i" if "i < ?n" "j < ?n" for i j
    using assms(3) that by (simp add: symmetric_def list_all_iff)
  ultimately have "(\<Sum>j < ?n. cov ! i ! j * (\<Sum>k < ?n. inv_cov ! j ! k)) = 1"
    by (intro right_inverse_row_sums) (use assms(4) in auto)
  then show ?thesis using n by (simp add: min_variance_nth sum_divide_distrib [symmetric])
qed

section \<open>Properties\<close>

text \<open>C29: the minimum-variance weights, read in exact rational arithmetic, deserve their name: for a
  symmetric, positive semidefinite covariance that the inversion accepts, they sum to one and no weights
  that sum to one have a smaller variance.\<close>

theorem min_variance_optimal:
  assumes "0 < (pivot_eps :: rat)" "invert pivot_eps cov = Inr inv_cov" "symmetric cov"
    and "\<And>z. length z = length cov \<Longrightarrow> 0 \<le> QuadraticForm z cov"
    and "pf_Sum (VecDotMat inv_cov (replicate (length cov) 1)) \<noteq> 0"
  shows "pf_Sum (min_variance_weights inv_cov) = 1 \<and>
    (\<forall>x. length x = length cov \<and> pf_Sum x = 1 \<longrightarrow>
      QuadraticForm (min_variance_weights inv_cov) cov \<le> QuadraticForm x cov)"
proof -
  have n: "length inv_cov = length cov" using invert_shape [OF assms(2)] by simp
  then have "length (min_variance_weights inv_cov) = length cov"
    by (simp add: min_variance_weights_def Let_def pf_Scale_def VecDotMat_def)
  moreover have one: "pf_Sum (min_variance_weights inv_cov) = 1" using min_variance_sum [of inv_cov] assms(5) n by simp
  ultimately show ?thesis
    using constant_is_optimal [OF assms(3,4) min_variance_constant [OF assms(1-3)]] by simp
qed

theorem min_variance_optimal_witness:
  "invert (1 / 10) [[2, 1], [1, 3 :: rat]] = Inr [[3 / 5, - 1 / 5], [- 1 / 5, 2 / 5]] \<and>
     min_variance_weights [[3 / 5, - 1 / 5], [- 1 / 5, 2 / 5 :: rat]] = [2 / 3, 1 / 3] \<and>
     QuadraticForm [2 / 3, 1 / 3] [[2, 1], [1, 3 :: rat]] \<le> QuadraticForm [1 / 2, 1 / 2] [[2, 1], [1, 3]]"
proof -
  let ?cov = "[[2, 1], [1, 3 :: rat]]" and ?inv = "[[3 / 5, - 1 / 5], [- 1 / 5, 2 / 5 :: rat]]"
  have i: "invert (1 / 10) ?cov = Inr ?inv" by code_simp
  have w: "min_variance_weights ?inv = [2 / 3, 1 / 3]" by code_simp
  have psd: "0 \<le> QuadraticForm z ?cov" if z: "length z = length ?cov" for z
  proof -
    from z obtain a b where "z = [a, b]" by (auto simp: length_Suc_conv)
    then have "QuadraticForm z ?cov = a\<^sup>2 + (a + b)\<^sup>2 + 2 * b\<^sup>2"
      by (simp add: QuadraticForm_def Let_def upt_conv_Cons power2_eq_square algebra_simps)
    then show ?thesis by simp
  qed
  have s: "symmetric ?cov" by code_simp
  have d: "pf_Sum (VecDotMat ?inv (replicate (length ?cov) 1)) \<noteq> 0" by code_simp
  have h: "length [1 / 2, 1 / 2 :: rat] = length ?cov \<and> pf_Sum [1 / 2, 1 / 2 :: rat] = 1" by code_simp
  have "QuadraticForm (min_variance_weights ?inv) ?cov \<le> QuadraticForm [1 / 2, 1 / 2] ?cov"
    using min_variance_optimal [OF _ i s psd d] h by simp
  then show ?thesis using i w by simp
qed


end
