(* ===== verification/Portfolio_Facts.thy ===== *)
theory Portfolio_Facts
  imports Portfolio_Optimizers
begin

text \<open>
  Facts of the portfolios: what a validated result guarantees, risk-parity weights are never negative,
  and Gauss-Jordan inversion, read in exact arithmetic, gives the inverse.
\<close>

section \<open>Ordered maps\<close>

lemma keys_map_put: "sorted_wrt (<) (map fst m) \<Longrightarrow>
    sorted_wrt (<) (map fst (map_put k v m)) \<and> fst ` set (map_put k v m) = insert k (fst ` set m)"
  by (induction k v m rule: map_put.induct) auto

lemma map_of_put: "sorted_wrt (<) (map fst m) \<Longrightarrow> map_of (map_put k v m) = (map_of m)(k \<mapsto> v)"
proof (induction k v m rule: map_put.induct)
  case (2 k v k' v' m)
  then show ?case by (cases k k' rule: linorder_cases) (auto simp: fun_eq_iff)
qed simp

lemma weight_map_upto:
  "sorted_wrt (<) (map fst (foldl (\<lambda>m i. map_put (labels ! i) (weights ! i) m) [] [0..<n])) \<and>
   fst ` set (foldl (\<lambda>m i. map_put (labels ! i) (weights ! i) m) [] [0..<n]) = (!) labels ` {..<n}"
proof (induction n)
  case (Suc n)
  let ?m = "foldl (\<lambda>m i. map_put (labels ! i) (weights ! i) m) [] [0..<n]"
  have "sorted_wrt (<) (map fst (map_put (labels ! n) (weights ! n) ?m)) \<and>
      fst ` set (map_put (labels ! n) (weights ! n) ?m) = insert (labels ! n) (fst ` set ?m)"
    using Suc by (intro keys_map_put) blast
  then show ?case using Suc by (simp add: lessThan_Suc)
qed simp

lemma weight_map_keys:
  "sorted_wrt (<) (map fst (weight_map labels weights))" "fst ` set (weight_map labels weights) = set labels"
proof -
  have "(!) labels ` {..<length labels} = set labels" by (auto simp: set_conv_nth)
  then show "sorted_wrt (<) (map fst (weight_map labels weights))" "fst ` set (weight_map labels weights) = set labels"
    using weight_map_upto [of labels weights "length labels"] by (simp_all add: weight_map_def)
qed

text \<open>With distinct labels the map holds the weight of each label.\<close>

lemma weight_map_of_upto:
  assumes "distinct labels" "n \<le> length labels" "i < n"
  shows "map_of (foldl (\<lambda>m i. map_put (labels ! i) (weights ! i) m) [] [0..<n]) (labels ! i) = Some (weights ! i)"
  using assms(2,3)
proof (induction n)
  case (Suc n)
  let ?m = "foldl (\<lambda>m i. map_put (labels ! i) (weights ! i) m) [] [0..<n]"
  have "map_of (map_put (labels ! n) (weights ! n) ?m) = (map_of ?m)(labels ! n \<mapsto> weights ! n)"
    using weight_map_upto by (intro map_of_put) blast
  moreover have "labels ! i = labels ! n \<longleftrightarrow> i = n"
    using assms(1) Suc.prems by (simp add: nth_eq_iff_index_eq)
  ultimately show ?case using Suc by (auto simp: less_Suc_eq)
qed simp

lemma weight_map_of: "distinct labels \<Longrightarrow> i < length labels \<Longrightarrow>
    map_of (weight_map labels weights) (labels ! i) = Some (weights ! i)"
  using weight_map_of_upto [of labels "length labels" i weights] by (simp add: weight_map_def)

lemma weight_map_values:
  assumes "distinct labels" "length weights = length labels"
  shows "snd ` set (weight_map labels weights) = set weights"
proof -
  have d: "distinct (map fst (weight_map labels weights))"
    using weight_map_keys(1) [of labels weights] by (simp add: strict_sorted_iff)
  have "w \<in> set weights" if "(l, w) \<in> set (weight_map labels weights)" for l w
  proof -
    have "l \<in> set labels" using that weight_map_keys(2) [of labels weights] by force
    then obtain i where "i < length labels" "l = labels ! i" by (auto simp: in_set_conv_nth)
    then show ?thesis using weight_map_of [OF assms(1)] assms(2) map_of_is_SomeI [OF d that] by (metis nth_mem option.inject)
  qed
  moreover have "w \<in> snd ` set (weight_map labels weights)" if w: "w \<in> set weights" for w
  proof -
    obtain i where "i < length labels" "w = weights ! i" using w assms(2) by (auto simp: in_set_conv_nth)
    then show ?thesis using weight_map_of [OF assms(1), of i weights] map_of_SomeD by force
  qed
  ultimately show ?thesis by force
qed

lemma weight_map_sorted: "distinct labels \<Longrightarrow> map fst (weight_map labels weights) = sort labels"
proof -
  assume d: "distinct labels"
  have "sorted (map fst (weight_map labels weights))" "distinct (map fst (weight_map labels weights))"
    using weight_map_keys(1) [of labels weights] by (simp_all add: strict_sorted_iff)
  moreover have "set (map fst (weight_map labels weights)) = set (sort labels)"
    using weight_map_keys(2) [of labels weights] by simp
  ultimately show ?thesis using d by (intro sorted_distinct_set_unique) simp_all
qed

section \<open>Validated inputs and results\<close>

lemma check_labels_Inr: "check_labels seen labels = Inr u \<longleftrightarrow> distinct labels \<and> seen \<inter> set labels = {}"
  by (induction labels arbitrary: seen) auto

lemma check_values_Inr: "check_values i j vs = Inr u \<longleftrightarrow> (\<forall>v \<in> set vs. isfinite v)"
  by (induction vs arbitrary: j) auto

lemma check_series_Inr:
  "check_series obs i rows = Inr u \<longleftrightarrow> (\<forall>row \<in> set rows. length row = obs \<and> (\<forall>v \<in> set row. isfinite v))"
  by (induction rows arbitrary: i) (auto simp: ebind_Inr_iff check_values_Inr)

definition good_matrix :: "matrix \<Rightarrow> string list \<Rightarrow> bool" where
  "good_matrix returns labels \<longleftrightarrow> returns \<noteq> [] \<and> length returns \<le> 100 \<and> length labels = length returns \<and>
     distinct labels \<and> 2 \<le> length (returns ! 0) \<and>
     (\<forall>row \<in> set returns. length row = length (returns ! 0) \<and> (\<forall>v \<in> set row. isfinite v))"

lemma ValidateReturnMatrix_Inr: "ValidateReturnMatrix returns labels = Inr u \<longleftrightarrow> good_matrix returns labels"
  by (simp add: ValidateReturnMatrix_def good_matrix_def Let_def ebind_Inr_iff check_labels_Inr check_series_Inr
      kMaxAssets_def not_less)

definition weight_sum :: "PortfolioResult \<Rightarrow> double" where
  "weight_sum r = foldl (+) 0 (map snd (pr_weights r))"

lemma isfinite_not: "isnan w \<or> isinf w \<longleftrightarrow> \<not> isfinite w"
  by transfer auto

lemma check_weights_Inr:
  "check_weights s ws = Inr t \<longleftrightarrow> (\<forall>(l, w) \<in> set ws. isfinite w) \<and> t = foldl (+) s (map snd ws)"
proof (induction ws arbitrary: s)
  case (Cons lw ws)
  obtain l w where "lw = (l, w)" by (cases lw)
  then show ?case using Cons by (auto simp: isfinite_not)
qed auto

text \<open>The sum of finite numbers is a number, though it may overflow.\<close>

lemma add_not_nan: "\<not> isnan x \<Longrightarrow> isfinite y \<Longrightarrow> \<not> isnan (x + y)"
  using add_finite [of x y] double_cases [of x] by (auto, transfer, auto simp: fp_add_def)

lemma sum_not_nan: "\<not> isnan s \<Longrightarrow> \<forall>w \<in> set ws. isfinite w \<Longrightarrow> \<not> isnan (foldl (+) s ws)"
  by (induction ws arbitrary: s) (auto simp: add_not_nan)

definition valid_result :: "PortfolioResult \<Rightarrow> bool" where
  "valid_result r \<longleftrightarrow> pr_weights r \<noteq> [] \<and> (\<forall>(l, w) \<in> set (pr_weights r). isfinite w) \<and>
     \<bar>weight_sum r - 1\<bar> \<le> kWeightSumTolerance \<and> isfinite (pr_expected_return r) \<and>
     isfinite (pr_volatility r) \<and> 0 \<le> pr_volatility r \<and> isfinite (pr_sharpe_ratio r)"

lemma isnan_sub_one: "isnan (x - 1) \<longleftrightarrow> isnan (x :: double)"
proof -
  have "pack False 1 = Fin 1" using pack_repr [of 1] by simp
  then show ?thesis by transfer (auto simp: fp_add_def Let_def)
qed

lemma nonneg_finite: "\<not> (isnan v \<or> isinf v \<or> v < 0) \<longleftrightarrow> isfinite v \<and> 0 \<le> v"
  using isfinite_not [of v] by (auto simp: less_key le_key)

lemma Validate_Inr: "Validate r = Inr u \<longleftrightarrow> valid_result r"
proof -
  have "\<not> kWeightSumTolerance < \<bar>weight_sum r - 1\<bar> \<longleftrightarrow> \<bar>weight_sum r - 1\<bar> \<le> kWeightSumTolerance"
    if "\<forall>(l, w) \<in> set (pr_weights r). isfinite w"
  proof -
    have "\<not> isnan (weight_sum r)" unfolding weight_sum_def using that by (intro sum_not_nan) auto
    then show ?thesis by (auto simp: less_key le_key isnan_sub_one kWeightSumTolerance_def)
  qed
  then show ?thesis
    by (auto simp: Validate_def valid_result_def ebind_Inr_iff check_weights_Inr isfinite_not nonneg_finite
        weight_sum_def simp del: de_Morgan_disj)
qed

lemma BuildResult_Inr:
  "BuildResult ws labels (e, v, s) = Inr r \<longleftrightarrow>
     r = \<lparr>pr_weights = weight_map labels ws, pr_expected_return = e, pr_volatility = v, pr_sharpe_ratio = s\<rparr> \<and>
     valid_result r"
  by (auto simp: BuildResult_def Let_def ebind_Inr_iff Validate_Inr)

section \<open>Risk parity\<close>

lemma fp_neg_special [simp]:
  "fp_neg x = PInf \<longleftrightarrow> x = NInf" "fp_neg x = NInf \<longleftrightarrow> x = PInf" "fp_neg x = NaN \<longleftrightarrow> x = NaN"
  by (cases x; simp)+

lemma inf_arith:
  "isinf x \<Longrightarrow> isfinite y \<Longrightarrow> y - x = - x" "isinf x \<Longrightarrow> isfinite y \<Longrightarrow> y + x = x" "isinf x \<Longrightarrow> isnan (x + - x)"
  by (transfer, auto simp: fp_add_def)+

lemma inf_sub: "isinf x \<Longrightarrow> isfinite y \<Longrightarrow> x - y = x"
  by transfer (auto simp: fp_add_def)

lemma inf_minus_inf: "isinf x \<Longrightarrow> isinf y \<Longrightarrow> 0 \<le> key x \<Longrightarrow> 0 \<le> key y \<Longrightarrow> isnan (y - x)"
  by transfer (auto simp: fp_add_def)

lemma half_inf: "isinf x \<Longrightarrow> lit (1/2) * x = x"
proof -
  have h: "pack False (1/2) = Fin (1/2)" using pack_repr [of "1/2"] repr_half [of 1 1] by simp
  show "isinf x \<Longrightarrow> lit (1/2) * x = x" by transfer (auto simp: h fp_mul_def fp_inf_def)
qed

lemma inf_step:
  assumes "0 \<le> key w" "0 \<le> key y" "\<not> isnan y"
  shows "isinf w \<Longrightarrow> isnan (w + lit (1/2) * (y - w))"
    and "isfinite w \<Longrightarrow> isinf y \<Longrightarrow> 0 \<le> w + lit (1/2) * (y - w)"
proof -
  assume w: "isinf w"
  show "isnan (w + lit (1/2) * (y - w))"
  proof (cases "isfinite y")
    case True
    then show ?thesis using w inf_arith half_inf [of "- w"] by (simp add: isinf_key)
  next
    case False
    then show ?thesis using w assms inf_minus_inf [of w y] double_cases [of y] by auto
  qed
next
  assume "isfinite w" "isinf y"
  then show "0 \<le> w + lit (1/2) * (y - w)" using assms by (simp add: inf_arith inf_sub half_inf le_key)
qed

lemma half_step_nn:
  assumes "nn w" "nn y"
  shows "nn (w + lit (1/2) * (y - w))"
proof (cases "isnan w \<or> isnan y")
  case True
  then show ?thesis by (auto simp: nn_def)
next
  case False
  have rh: "repr (1/2)" using repr_half [of 1 1] by simp
  then have h: "isfinite (lit (1/2))" "key (lit (1/2)) = 1/2" by (simp_all add: isfinite_lit_repr key_lit_repr)
  have pos: "0 \<le> key w" "0 \<le> key y" "\<not> isnan w" "\<not> isnan y" using assms False by (auto simp: nn_def le_key)
  consider "isfinite w" "isfinite y" | "isinf w" | "isfinite w" "isinf y" using False double_cases by blast
  then show ?thesis
  proof cases
    case 1
    have d: "key (y - w) = crnd (key y - key w)" "\<not> isnan (y - w)" using sub_finite [OF 1(2,1)] by simp_all
    have "- key w \<le> key (y - w)" "key (y - w) \<le> key y"
      using crnd_mono [of "- key w" "key y - key w"] crnd_mono [of "key y - key w" "key y"] pos d(1)
      by (simp_all add: crnd_minus)
    then have b: "- key w \<le> key (y - w)" "\<bar>key (y - w)\<bar> < big" using 1 by (auto simp: isfinite_key)
    then have fd: "isfinite (y - w)" using d(2) by (simp add: isfinite_key)
    let ?m = "lit (1/2) * (y - w)"
    have m: "key ?m = crnd (1/2 * key (y - w))" "\<not> isnan ?m" using mul_finite [OF h(1) fd] h(2) by simp_all
    have "crnd (- key w) \<le> key ?m" "key ?m \<le> crnd (key y)"
      using crnd_mono [of "- key w" "1/2 * key (y - w)"] crnd_mono [of "1/2 * key (y - w)" "key y"] b pos
        \<open>key (y - w) \<le> key y\<close> m(1) by simp_all
    then have bm: "- key w \<le> key ?m" "key ?m \<le> key y" by (simp_all add: crnd_minus)
    then have "isfinite ?m" using 1 m(2) by (auto simp: isfinite_key)
    then show ?thesis using add_finite [OF 1(1), of ?m] bm(1) by (simp add: nn_def le_key crnd_nonneg)
  next
    case 2
    then show ?thesis using pos inf_step(1) by (simp add: nn_def)
  next
    case 3
    then show ?thesis using pos inf_step(2) by (simp add: nn_def)
  qed
qed

text \<open>Every step of the iteration keeps the weights from below 0.\<close>

definition all_nn :: "double list \<Rightarrow> bool" where
  "all_nn ws \<longleftrightarrow> (\<forall>w \<in> set ws. nn w)"

lemma kDegeneracyEps_pos: "0 < kDegeneracyEps"
proof -
  have "crnd (1 / 2 ^ 40) \<le> crnd (1 / 10 ^ 12)" by (rule crnd_mono) simp
  moreover have "repr (1 / 2 ^ 40)" using repr_half [of 1 40] by simp
  ultimately have "0 < crnd (1 / 10 ^ 12)" by (simp add: crnd_repr)
  then show ?thesis by (simp add: kDegeneracyEps_def less_key key_lit)
qed

lemma nn_div_not_less: "nn x \<Longrightarrow> \<not> y < kDegeneracyEps \<Longrightarrow> nn (x / y)"
proof -
  assume x: "nn x" and y: "\<not> y < kDegeneracyEps"
  show "nn (x / y)"
  proof (cases "isnan y")
    case False
    then have "0 < y" using y kDegeneracyEps_pos by (auto simp: less_key)
    then show ?thesis by (rule nn_div [OF x])
  qed (simp add: nn_def)
qed

lemma dmax_eps: "\<not> dmax x kDegeneracyEps < kDegeneracyEps"
  by (auto simp: dmax_def less_key)

lemma parity_step_nn:
  assumes "all_nn ws" "parity_step cov ws = Some ws'"
  shows "all_nn ws' \<and> length ws' = length ws"
proof -
  let ?rc = "risk_contributions cov ws" and ?target = "pf_Sum (risk_contributions cov ws) / of_size (length ws)"
  let ?next = "damped_weights ws ?rc ?target"
  from assms(2) have t: "\<not> pf_Sum ?rc < kDegeneracyEps" and nt: "\<not> pf_Sum ?next < kDegeneracyEps"
    and ws': "ws' = map (\<lambda>w. w / pf_Sum ?next) ?next"
    by (auto simp: parity_step_def Let_def split: if_splits)
  have "nn (pf_Sum ?rc)" using t kDegeneracyEps_pos by (auto simp: nn_def less_key le_key)
  then have tn: "nn ?target" if "0 < length ws" using that by (rule nn_div_size)
  have "nn w" if "w \<in> set ?next" for w
  proof -
    from that obtain i where i: "i < length ws"
      "w = ws ! i + lit (1/2) * (ws ! i * ?target / dmax (?rc ! i) kDegeneracyEps - ws ! i)"
      by (auto simp: damped_weights_def)
    have wi: "nn (ws ! i)" using assms(1) i(1) by (simp add: all_nn_def)
    have "0 < length ws" using i(1) by linarith
    then have "nn ?target" by (rule tn)
    then have "nn (ws ! i * ?target / dmax (?rc ! i) kDegeneracyEps)"
      using nn_div_not_less [OF nn_mul [OF wi] dmax_eps] by blast
    then show ?thesis using half_step_nn wi i(2) by simp
  qed
  then show ?thesis using nt by (auto simp: ws' all_nn_def damped_weights_def intro!: nn_div_not_less)
qed

lemma parity_loop_nn: "all_nn ws \<Longrightarrow> all_nn (parity_loop n cov ws) \<and> length (parity_loop n cov ws) = length ws"
proof (induction n arbitrary: ws)
  case (Suc n)
  then show ?case using parity_step_nn [of ws cov] Suc.IH by (cases "parity_step cov ws") auto
qed simp

lemma weights_nonneg:
  assumes "distinct labels" "all_nn ws" "length ws = length labels"
    "\<forall>(l, w) \<in> set (weight_map labels ws). isfinite w"
  shows "\<forall>(l, w) \<in> set (weight_map labels ws). 0 \<le> w"
proof -
  have "snd ` set (weight_map labels ws) = set ws" using weight_map_values assms(1,3) by blast
  then show ?thesis using assms(2,4) by (force simp: all_nn_def nn_def)
qed

lemma RiskParity_Inr:
  assumes "RiskParity request = Inr r"
  shows "good_matrix (rp_returns request) (rp_labels request)" "valid_result r"
    "map fst (pr_weights r) = sort (rp_labels request)" "\<forall>(l, w) \<in> set (pr_weights r). 0 \<le> w"
proof -
  let ?n = "length (rp_returns request)"
  let ?cov = "SampleCovariance (CenterReturns (rp_returns request) (ComputeMeans (rp_returns request)))"
  let ?ws = "parity_loop 1000 ?cov (replicate ?n (1 / of_size ?n))"
  obtain e v s where m: "PortfolioMetrics ?ws (ComputeMeans (rp_returns request)) ?cov 0 = (e, v, s)"
    by (metis prod_cases3)
  have g: "good_matrix (rp_returns request) (rp_labels request)" and b: "BuildResult ?ws (rp_labels request) (e, v, s) = Inr r"
    using assms by (simp_all add: RiskParity_def Let_def ebind_Inr_iff ValidateReturnMatrix_Inr m)
  show "good_matrix (rp_returns request) (rp_labels request)" by (rule g)
  from b show v: "valid_result r" unfolding BuildResult_Inr by blast
  have w: "pr_weights r = weight_map (rp_labels request) ?ws" using b by (simp add: BuildResult_Inr)
  have d: "distinct (rp_labels request)" "length (rp_labels request) = ?n" "?n \<noteq> 0"
    using g by (auto simp: good_matrix_def)
  show "map fst (pr_weights r) = sort (rp_labels request)"
    using weight_map_sorted [OF d(1)] by (simp add: w)
  have "all_nn (replicate ?n (1 / of_size ?n))"
    using d(3) nn_div_size [of 1 ?n] by (auto simp: all_nn_def nn_def le_key)
  then have "all_nn ?ws" "length ?ws = length (rp_labels request)" using parity_loop_nn d(2) by auto
  then show "\<forall>(l, w) \<in> set (pr_weights r). 0 \<le> w"
    using weights_nonneg [OF d(1)] v by (simp add: valid_result_def w)
qed

section \<open>Mean-variance and Black-Litterman\<close>

definition good_objective :: "MeanVarianceRequest \<Rightarrow> bool" where
  "good_objective request \<longleftrightarrow>
     mv_objective request = ''max_sharpe'' \<or> mv_objective request = ''min_volatility'' \<or>
     (mv_objective request = ''target_return'' \<and> (case mv_target_return request of
        None \<Rightarrow> False | Some t \<Rightarrow> isfinite t)) \<or>
     (mv_objective request = ''target_volatility'' \<and> (case mv_target_volatility request of
        None \<Rightarrow> False | Some t \<Rightarrow> isfinite t \<and> 0 \<le> t))"

lemma BuildResult_valid:
  assumes "BuildResult ws labels metrics = Inr r" "distinct labels"
  shows "valid_result r" "map fst (pr_weights r) = sort labels"
  using assms weight_map_sorted by (cases metrics; simp add: BuildResult_Inr; blast)+


lemma not_neg_finite: "isfinite t \<Longrightarrow> t < 0 \<longleftrightarrow> \<not> 0 \<le> t"
  by (auto simp: dkey isfinite_key)

lemma check_objective_Inr: "check_objective request = Inr u \<longleftrightarrow> good_objective request"
  by (auto simp: check_objective_def good_objective_def not_neg_finite split: option.splits)

lemma MeanVariance_Inr:
  assumes "MeanVariance request = Inr r"
  shows "isfinite (mv_risk_free_rate request)" "good_matrix (mv_returns request) (mv_labels request)"
    "good_objective request" "valid_result r" "map fst (pr_weights r) = sort (mv_labels request)"
proof -
  show g: "good_matrix (mv_returns request) (mv_labels request)"
    and "isfinite (mv_risk_free_rate request)" "good_objective request"
    using assms by (auto simp: MeanVariance_def Let_def ebind_Inr_iff ValidateReturnMatrix_Inr check_objective_Inr)
  from g have d: "distinct (mv_labels request)" by (simp add: good_matrix_def)
  obtain ws metrics where "BuildResult ws (mv_labels request) metrics = Inr r"
    using assms by (simp add: MeanVariance_def Let_def ebind_Inr_iff) blast
  from BuildResult_valid [OF this d] show "valid_result r" "map fst (pr_weights r) = sort (mv_labels request)" .
qed

lemma check_caps_Inr: "check_caps i caps = Inr u \<longleftrightarrow> (\<forall>c \<in> set caps. \<not> c \<le> 0 \<and> isfinite c)"
  by (induction caps arbitrary: i) auto

lemma check_views_Inr: "check_views n i rows = Inr u \<longleftrightarrow>
    (\<forall>row \<in> set rows. length row = n \<and> (\<exists>v \<in> set row. \<not> deq v 0))"
  by (induction rows arbitrary: i) (auto simp: ebind_Inr_iff list_ex_iff)

definition good_views :: "BlackLittermanRequest \<Rightarrow> bool" where
  "good_views req \<longleftrightarrow> isfinite (bl_tau req) \<and> 0 < bl_tau req \<and> isfinite (bl_risk_aversion req) \<and> 0 < bl_risk_aversion req \<and>
     length (bl_market_caps req) = length (bl_returns req) \<and> (\<forall>c \<in> set (bl_market_caps req). isfinite c \<and> 0 < c) \<and>
     bl_p_matrix req \<noteq> [] \<and> length (bl_p_matrix req) = length (bl_q_vector req) \<and>
     (\<forall>row \<in> set (bl_p_matrix req). length row = length (bl_returns req) \<and> (\<exists>v \<in> set row. \<not> deq v 0))"

lemma pos_finite: "\<not> t \<le> 0 \<and> isfinite t \<longleftrightarrow> isfinite t \<and> 0 < t"
  by (auto simp: dkey isfinite_key)

lemma ValidateBlackLittermanRequest_Inr:
  "ValidateBlackLittermanRequest req = Inr u \<longleftrightarrow> good_matrix (bl_returns req) (bl_labels req) \<and> good_views req"
  unfolding good_views_def
  by (auto simp: ValidateBlackLittermanRequest_def Let_def ebind_Inr_iff ValidateReturnMatrix_Inr check_caps_Inr
      check_views_Inr pos_finite)

lemma BlackLitterman_Inr:
  assumes "BlackLitterman req = Inr r"
  shows "good_matrix (bl_returns req) (bl_labels req)" "good_views req" "valid_result (blr_portfolio r)"
    "map fst (pr_weights (blr_portfolio r)) = sort (bl_labels req)"
    "map fst (blr_expected_returns r) = sort (bl_labels req)"
proof -
  show g: "good_matrix (bl_returns req) (bl_labels req)" and "good_views req"
    using assms by (simp_all only: BlackLitterman_def ebind_Inr_iff ValidateBlackLittermanRequest_Inr) blast+
  from g have d: "distinct (bl_labels req)" by (simp add: good_matrix_def)
  show "valid_result (blr_portfolio r)" "map fst (pr_weights (blr_portfolio r)) = sort (bl_labels req)"
    "map fst (blr_expected_returns r) = sort (bl_labels req)"
    using assms
    by (auto simp: BlackLitterman_def Let_def ebind_Inr_iff weight_map_sorted [OF d] dest: BuildResult_valid [OF _ d])
qed


end
