(* ===== verification/Portfolio_Validity.thy ===== *)
theory Portfolio_Validity
  imports Portfolio_Facts Exact_Inverse
begin

text \<open>
  The properties of the three optimizers, with portfolios evaluated on series of powers of two, on which
  every operation is exact.
\<close>

section \<open>Exact evaluation\<close>

lemma repr_dyadics [simp]: "repr (1/2)" "repr (1/4)" "repr (1/8)" "repr (1/16)" "repr (3/16)" "repr (- (1/2))"
  using repr_half [of 1 1] repr_half [of 1 2] repr_half [of 1 3] repr_half [of 1 4] repr_half [of 3 4] by simp_all

lemma ilog2_quarter: "ilog2 (1/4) = -2"
  by (rule ilog2_unique) (simp_all add: power_int_def power_divide)

lemma dsqrt_quarter: "dsqrt (lit (1/4)) = lit (1/2)"
  using dsqrt_square [of "1/2" "2 ^ 61"] by (simp add: sqrt_scale_def ilog2_quarter)

definition even_request :: RiskParityRequest where
  "even_request = \<lparr>rp_returns = [[lit (- (1/2)), 0, lit (1/2)], [lit (- (1/2)), 0, lit (1/2)]],
     rp_labels = [''B'', ''A'']\<rparr>"

definition even_result :: PortfolioResult where
  "even_result = \<lparr>pr_weights = [(''A'', lit (1/2)), (''B'', lit (1/2))], pr_expected_return = 0,
     pr_volatility = lit (1/2), pr_sharpe_ratio = 0\<rparr>"

lemmas matrix_eval = SampleCovariance_def CenterReturns_def ComputeMeans_def pf_Mean_def MatAlloc_def cov_at_def

lemma even_cov: "SampleCovariance (CenterReturns (rp_returns even_request) (ComputeMeans (rp_returns even_request))) =
    replicate 2 (replicate 2 (lit (1/4)))"
  by (simp add: even_request_def matrix_eval Let_def deval numeral_2_eq_2 flip: lit_0 lit_1)


lemma upt_2: "[0..<Suc (Suc 0)] = [0, Suc 0]"
  by (simp add: upt_conv_Cons)

lemma even_weights: "parity_loop 1000 (replicate 2 (replicate 2 (lit (1/4)))) (replicate 2 (lit (1/2))) =
    replicate 2 (lit (1/2))"
proof -
  have "\<not> lit (1/4) < kDegeneracyEps" unfolding kDegeneracyEps_def by (rule lit_not_less) simp
  moreover have "\<not> lit (1 / 10 ^ 10) \<le> lit 0"
    using less_le_d [OF kDegeneracyEps_pos [unfolded kDegeneracyEps_def] lit_mono [of "1 / 10 ^ 12" "1 / 10 ^ 10"]]
    by (auto simp: lit_0 dkey)
  ultimately have "parity_step (replicate 2 (replicate 2 (lit (1/4)))) (replicate 2 (lit (1/2))) = None"
    by (simp add: parity_step_def risk_contributions_def pf_Sum_def Let_def deval numeral_2_eq_2 upt_2 flip: lit_0 lit_1)
  then show ?thesis by (simp add: eval_nat_numeral)
qed


lemma even_valid: "ValidateReturnMatrix (rp_returns even_request) (rp_labels even_request) = Inr ()"
  by (simp add: ValidateReturnMatrix_Inr good_matrix_def even_request_def isfinite_lit_repr)

lemma even_metrics: "PortfolioMetrics (replicate 2 (lit (1/2))) [0, 0] (replicate 2 (replicate 2 (lit (1/4)))) 0 =
    (0, lit (1/2), 0)"
  by (simp add: PortfolioMetrics_def VecDot_def QuadraticForm_def Let_def deval numeral_2_eq_2 upt_2 dmax_def
      dsqrt_quarter flip: lit_0 lit_1)

lemma tolerance_nonneg: "0 \<le> kWeightSumTolerance"
  using lit_mono [of 0 "1 / 10 ^ 6"] by (simp add: kWeightSumTolerance_def lit_0)

lemma even_result_valid: "valid_result even_result"
proof -
  have "\<bar>weight_sum even_result - 1\<bar> = 0"
    by (simp add: weight_sum_def even_result_def deval flip: lit_0 lit_1)
  then show ?thesis using tolerance_nonneg
    by (simp add: valid_result_def even_result_def isfinite_lit_repr dkey key_lit_repr)
qed

lemma even_build: "BuildResult (replicate 2 (lit (1/2))) (rp_labels even_request) (0, lit (1/2), 0) = Inr even_result"
  by (subst BuildResult_Inr)
     (simp add: even_result_valid, simp add: even_result_def even_request_def weight_map_def numeral_2_eq_2 upt_2)

lemma even_parity: "RiskParity even_request = Inr even_result"
proof -
  have m: "ComputeMeans (rp_returns even_request) = [0, 0]"
    by (simp add: even_request_def ComputeMeans_def pf_Mean_def deval flip: lit_0 lit_1)
  have v: "\<not> lit (1/2) < kDegeneracyEps" unfolding kDegeneracyEps_def by (rule lit_not_less) simp
  have n: "length (rp_returns even_request) = 2" "1 / of_size 2 = lit (1/2)"
    by (simp_all add: even_request_def deval flip: lit_1)
  have t: "foldl (\<lambda>v i. v + replicate 2 (replicate 2 (lit (1/4))) ! i ! i) 0 [0..<2] = lit (1/2)"
    by (simp add: numeral_2_eq_2 upt_2 deval flip: lit_0)
  show ?thesis
    by (simp only: RiskParity_def even_valid ebind_simps n Let_def even_cov [unfolded m] t v throw_if_simps even_weights m even_metrics even_build)
qed

section \<open>The ridge on a large variance\<close>

text \<open>A power of two absorbs what is less than half a unit in its last place.\<close>

lemma rnd_absorb:
  assumes "-1000 \<le> j" "0 \<le> d" "d < 2 powi (j - 53)"
  shows "rnd (2 powi j + d) = 2 powi j"
proof -
  have d: "d < 2 powi j" using assms(3) p2_mono [of "j - 53" j] by linarith
  have "2 powi j + d < 2 powi (j + 1)" using d p2_add [of j 1] by simp
  then have "ilog2 (2 powi j + d) = j" using assms(2) by (intro ilog2_unique) simp_all
  moreover have "0 < 2 powi j + d" using p2_pos [of j] assms(2) by linarith
  ultimately have u: "ulp_exp (2 powi j + d) = j - 52" using assms(1) by (simp add: ulp_exp_def)
  have e: "(2 powi j + d) / 2 powi (j - 52) = of_int (2 ^ 52) + d / 2 powi (j - 52)"
    using p2_add [of "j - 52" 52] by (simp add: add_divide_distrib divide_eq_eq)
  have half: "0 \<le> d / 2 powi (j - 52)" "d / 2 powi (j - 52) < 1/2"
    using assms(2,3) p2_add [of "j - 53" 1] by (simp_all add: divide_less_eq)
  then have "0 \<le> d / 2 powi (j - 52) \<and> d / 2 powi (j - 52) < 1" by linarith
  then have "\<lfloor>of_int (2 ^ 52) + d / 2 powi (j - 52)\<rfloor> = 2 ^ 52" unfolding floor_eq_iff by simp
  then have "rne (of_int (2 ^ 52) + d / 2 powi (j - 52)) = 2 ^ 52" using half(2) by (simp add: rne_def Let_def)
  then have "rnd (2 powi j + d) = 2 ^ 52 * 2 powi (j - 52)" unfolding rnd_def Let_def u e by simp
  then show ?thesis using p2_add [of "j - 52" 52] by simp
qed


lemma ridge_absorb:
  assumes "29 \<le> j" "j \<le> 50"
  shows "lit (2 ^ j) + kCovRidge = lit (2 ^ j)"
proof -
  have r: "repr (2 ^ j)" using repr_of_int [of "2 ^ j"] power_increasing [OF assms(2), of "2 :: int"] by simp
  have e: "crnd (1 / 10 ^ 8) \<le> crnd (1 / 2 ^ 26)" "0 \<le> crnd (1 / 10 ^ 8)"
    using crnd_mono [of "1 / 10 ^ 8" "1 / 2 ^ 26"] crnd_nonneg [of "1 / 10 ^ 8"] by simp_all
  have "repr (1 / 2 ^ 26)" using repr_half [of 1 26] by simp
  note t = crnd_repr [OF this]
  have "(2 :: rat) powi (- 26) = 1 / 2 ^ 26" by (simp add: power_int_def power_divide)
  then have "crnd (1 / 10 ^ 8) \<le> 2 powi (- 26)" using e(1) unfolding t by (simp only:)
  moreover have "(2 :: rat) powi (- 26) < 2 powi (int j - 53)" unfolding p2_less_iff using assms(1) by simp
  ultimately have d1: "crnd (1 / 10 ^ 8) < 2 powi (int j - 53)" by (rule le_less_trans)
  have "crnd (1 / 10 ^ 8) \<le> crnd 1" by (rule crnd_mono) simp
  moreover have "1 < big" by (simp add: big_def)
  ultimately have "\<bar>crnd (1 / 10 ^ 8)\<bar> < big" unfolding crnd_repr [OF repr_1] using e(2) by linarith
  then have d: "crnd (1 / 10 ^ 8) < 2 powi (int j - 53)" "isfinite kCovRidge"
    using d1 by (simp_all add: kCovRidge_def isfinite_key key_lit del: power_0 power_Suc)
  have "rnd (2 powi int j + crnd (1 / 10 ^ 8)) = 2 powi int j"
    using assms d(1) e(2) by (intro rnd_absorb) simp_all
  then have "crnd (2 ^ j + crnd (1 / 10 ^ 8)) = 2 ^ j" using crnd_repr [OF r] r by (simp add: p2_nat crnd_def repr_def)
  then show ?thesis using add_finite [OF isfinite_lit_repr [OF r] d(2)] r
    by (intro lit_unique) (simp_all add: kCovRidge_def key_lit crnd_repr)
qed


section \<open>A portfolio of one asset\<close>

definition single_request :: MeanVarianceRequest where
  "single_request = \<lparr>mv_returns = [[lit (- 32768), 0, lit 32768]], mv_labels = [''A''], mv_risk_free_rate = 0,
     mv_objective = ''min_volatility'', mv_target_return = None, mv_target_volatility = None\<rparr>"

definition single_result :: PortfolioResult where
  "single_result = \<lparr>pr_weights = [(''A'', 1)], pr_expected_return = 0, pr_volatility = lit 32768,
     pr_sharpe_ratio = 0\<rparr>"

lemma repr_tiny [simp]: "repr (1 / 1073741824)" "repr (1 / 536870912)"
  using repr_half [of 1 30] repr_half [of 1 29] by simp_all

lemma big_not_eps: "\<not> lit 1073741824 < kInversePivotEps" "\<not> lit 536870912 < kInversePivotEps"
    "\<not> lit (1 / 1073741824) < kInversePivotEps" "\<not> lit (1 / 536870912) < kInversePivotEps"
    "\<not> lit (1 / 1073741824) < kDegeneracyEps" "\<not> lit (1/2) < kDegeneracyEps" "\<not> lit 1073741824 < kDegeneracyEps"
  unfolding kInversePivotEps_def kDegeneracyEps_def by (rule lit_not_less, simp)+

lemma zero_less_eps: "lit 0 < kDegeneracyEps"
  using kDegeneracyEps_pos by (simp add: lit_0)

lemma MatInverse_1:
  assumes "repr q" "0 < q" "repr (1 / q)" "\<not> lit q < kInversePivotEps"
  shows "MatInverse [[lit q]] = Inr [[lit (1 / q)]]"
  using assms by (simp add: MatInverse_def invert_def augment_def eliminate_column_def find_pivot_def swap_rows_def
      normalize_row_def eliminate_row_def Let_def deval flip: lit_0 lit_1)

lemma single_cov: "add_ridge kCovRidge (SampleCovariance (CenterReturns (mv_returns single_request) [0])) =
    [[lit 1073741824]]"
proof -
  have "SampleCovariance (CenterReturns (mv_returns single_request) [0]) = [[lit 1073741824]]"
    by (simp add: single_request_def matrix_eval Let_def deval flip: lit_0 lit_1)
  then show ?thesis using ridge_absorb [of 30] by (simp add: add_ridge_def)
qed

lemma ilog2_30: "ilog2 1073741824 = 30"
  by (rule ilog2_unique) (simp_all add: power_int_def)

lemma dsqrt_30: "dsqrt (lit 1073741824) = lit 32768"
  using dsqrt_square [of 32768 "2 ^ 45"] by (simp add: sqrt_scale_def ilog2_30)

lemma single_valid: "valid_result single_result"
proof -
  have "\<bar>weight_sum single_result - 1\<bar> = 0"
    by (simp add: weight_sum_def single_result_def deval flip: lit_0 lit_1)
  then show ?thesis using tolerance_nonneg
    by (simp add: valid_result_def single_result_def isfinite_lit_repr dkey key_lit_repr)
qed

lemma single_run: "MeanVariance single_request = Inr single_result"
proof -
  have m: "ComputeMeans (mv_returns single_request) = [0]"
    by (simp add: single_request_def ComputeMeans_def pf_Mean_def deval flip: lit_0 lit_1)
  have v: "ValidateReturnMatrix (mv_returns single_request) (mv_labels single_request) = Inr ()"
    by (simp add: ValidateReturnMatrix_Inr good_matrix_def single_request_def isfinite_lit_repr)
  have o: "check_objective single_request = Inr ()" "isfinite (mv_risk_free_rate single_request)"
    by (simp_all add: check_objective_def single_request_def)
  have n: "length (mv_returns single_request) = 1" by (simp add: single_request_def)
  have i: "MatInverse [[lit 1073741824]] = Inr [[lit (1 / 1073741824)]]"
    by (rule MatInverse_1) (simp_all add: big_not_eps)
  have d: "pf_Sum (VecDotMat [[lit (1 / 1073741824)]] [1]) = lit (1 / 1073741824)"
    by (simp add: pf_Sum_def VecDotMat_def deval flip: lit_0 lit_1)
  have w: "min_variance_weights [[lit (1 / 1073741824)]] = [1]"
    by (simp add: min_variance_weights_def pf_Sum_def pf_Scale_def VecDotMat_def Let_def deval flip: lit_0 lit_1)
  have p: "PortfolioMetrics [1] [0] [[lit 1073741824]] 0 = (0, lit 32768, 0)"
    by (simp add: PortfolioMetrics_def VecDot_def QuadraticForm_def Let_def dmax_def dsqrt_30 deval flip: lit_0 lit_1)
  have b: "BuildResult [1] [''A''] (0, lit 32768, 0) = Inr single_result"
    by (subst BuildResult_Inr) (simp add: single_valid, simp add: single_result_def weight_map_def)
  have a: "\<not> \<bar>lit (1 / 1073741824)\<bar> < kDegeneracyEps" by (simp add: deval big_not_eps)
  show ?thesis
    using b by (simp add: MeanVariance_def v o n Let_def m single_cov i d w a) (simp add: objective_weights_def single_request_def p)
qed


section \<open>A posterior of one asset\<close>

definition view_request :: BlackLittermanRequest where
  "view_request = \<lparr>bl_returns = [[lit (- 16384), lit 16384]], bl_labels = [''A''], bl_market_caps = [1],
     bl_p_matrix = [[1]], bl_q_vector = [lit 536870912], bl_tau = lit 2, bl_risk_aversion = 1\<rparr>"

definition view_result :: BlackLittermanResult where
  "view_result = \<lparr>blr_portfolio = \<lparr>pr_weights = [(''A'', 1)], pr_expected_return = lit 536870912,
       pr_volatility = lit 32768, pr_sharpe_ratio = lit 16384\<rparr>,
     blr_expected_returns = [(''A'', lit 536870912)], blr_covariance = [[lit 1073741824]]\<rparr>"

lemma view_cov: "add_ridge kCovRidge (SampleCovariance (CenterReturns [[lit (- 16384), lit 16384]] [0])) = [[lit 536870912]]"
proof -
  have "SampleCovariance (CenterReturns [[lit (- 16384), lit 16384]] [0]) = [[lit 536870912]]"
    by (simp add: matrix_eval Let_def deval flip: lit_0 lit_1)
  then show ?thesis using ridge_absorb [of 29] by (simp add: add_ridge_def)
qed

lemma view_valid: "valid_result (blr_portfolio view_result)"
proof -
  have "\<bar>weight_sum (blr_portfolio view_result) - 1\<bar> = 0"
    by (simp add: weight_sum_def view_result_def deval flip: lit_0 lit_1)
  then show ?thesis using tolerance_nonneg
    by (simp add: valid_result_def view_result_def isfinite_lit_repr dkey key_lit_repr)
qed

lemma view_run: "BlackLitterman view_request = Inr view_result"
proof -
  let ?s = "lit 536870912" and ?t = "lit 1073741824"
  have v: "ValidateBlackLittermanRequest view_request = Inr ()"
    by (simp add: ValidateBlackLittermanRequest_def view_request_def ebind_Inr_iff ValidateReturnMatrix_Inr
        good_matrix_def isfinite_lit_repr Let_def dkey key_lit_repr)
  have m: "pf_Mean [lit (- 16384), lit 16384] = 0"
    by (simp add: pf_Mean_def deval flip: lit_0 lit_1)
  have e: "VecDotMat [[?s]] [1] = [?s]" "VecDotMat [[?t]] [1] = [?t]" "VecDot [1] [?t] = ?t"
    "pf_Sum [1] = (1 :: double)" "1 / 1 = (1 :: double)" "pf_Scale [?s] 1 = [?s]" "MatScale [[?s]] (lit 2) = [[?t]]"
    "MatScale [[?t]] 1 = [[?t]]" "\<bar>?t\<bar> = ?t" "1 / ?t = lit (1 / 1073741824)"
    "views_matrix (Suc 0) [[1]] [lit (1 / 1073741824)] = [[lit (1 / 1073741824)]]"
    "views_vector (Suc 0) [[1]] [lit (1 / 1073741824)] [?s] = [lit (1/2)]"
    "MatAdd [[lit (1 / 1073741824)]] [[lit (1 / 1073741824)]] = [[lit (1 / 536870912)]]"
    "VecDotMat [[lit (1 / 1073741824)]] [?s] = [lit (1/2)]" "lit (1/2) + lit (1/2) = 1"
    "MatAdd [[?s]] [[?s]] = [[?t]]"
    "pf_Sum [lit (1/2)] = lit (1/2)" "\<bar>lit (1/2)\<bar> = lit (1/2)" "pf_Scale [lit (1/2)] (1 / lit (1/2)) = [1]"
    by (simp_all add: VecDotMat_def VecDot_def pf_Sum_def pf_Scale_def MatScale_def MatAdd_def views_matrix_def
        views_vector_def deval flip: lit_0 lit_1)
  have i: "MatInverse [[?t]] = Inr [[lit (1 / 1073741824)]]"
    by (rule MatInverse_1) (simp_all add: big_not_eps)
  have j: "MatInverse [[lit (1 / 536870912)]] = Inr [[?s]]"
    using MatInverse_1 [of "1 / 536870912"] by (simp add: big_not_eps)
  have p: "PortfolioMetrics [1] [?s] [[?t]] 0 = (?s, lit 32768, lit 16384)"
    by (simp add: PortfolioMetrics_def VecDot_def QuadraticForm_def Let_def dmax_def dsqrt_30 deval flip: lit_0 lit_1)
  have b: "BuildResult [1] [''A''] (?s, lit 32768, lit 16384) = Inr (blr_portfolio view_result)"
    by (subst BuildResult_Inr) (simp add: view_valid, simp add: view_result_def weight_map_def)
  have c: "view_confidences [[?t]] 0 [[1]] = Inr [lit (1 / 1073741824)]"
    by (simp add: e big_not_eps Let_def)
  show ?thesis
    by (simp add: BlackLitterman_def v Let_def)
       (simp add: view_request_def m view_cov e c i j p b big_not_eps, simp add: view_result_def weight_map_def)
qed


section \<open>An overflowing covariance\<close>

text \<open>Returns whose squares overflow, kept behind a name so that the number is never written out.\<close>

definition huge :: rat where
  "huge = 2 ^ 600"

definition overflow_request :: RiskParityRequest where
  "overflow_request = \<lparr>rp_returns = [[lit huge, lit (- huge)], [lit (- huge), lit huge]], rp_labels = [''A'', ''B'']\<rparr>"

definition overflow_result :: PortfolioResult where
  "overflow_result = \<lparr>pr_weights = [(''A'', lit (1/2)), (''B'', lit (1/2))], pr_expected_return = 0,
     pr_volatility = 0, pr_sharpe_ratio = double_lowest\<rparr>"

lemma repr_huge [simp]: "repr huge" "0 < huge" "huge \<noteq> 0" "\<not> huge < 0"
proof -
  have "rnd huge = huge" using rnd_dyadic [of 1 600] p2_nat [of 600] by (simp add: huge_def)
  moreover have "(2 :: rat) ^ 600 < 2 ^ 1024" by (rule power_strict_increasing) simp_all
  ultimately show "repr huge" by (simp add: repr_def big_def) (simp add: huge_def)
  show "0 < huge" "huge \<noteq> 0" "\<not> huge < 0" by (simp_all add: huge_def)
qed

lemma pack_square: "pack False (huge * huge) = PInf" "pack True (- (huge * huge)) = NInf"
proof -
  have "big \<le> huge * huge"
    unfolding huge_def big_def power_add [symmetric] by (rule power_increasing) simp_all
  then have "big \<le> rnd (huge * huge)" using rnd_mono [of big "huge * huge"] by (simp add: rnd_big)
  moreover from this have "\<not> big \<le> - rnd (huge * huge)" using big_pos(1) by linarith
  ultimately show "pack False (huge * huge) = PInf" "pack True (- (huge * huge)) = NInf"
    by (simp_all add: pack_def Let_def)
qed

lemma huge_square:
  "lit huge * lit huge = infinity" "lit (- huge) * lit (- huge) = infinity"
  "lit huge * lit (- huge) = - infinity" "lit (- huge) * lit huge = - infinity"
  by (simp_all flip: Rep_double_inject add: times_double.rep_eq lit_rep fp_mul_def uminus_double.rep_eq
      infinity.rep_eq pack_square)

lemma inf_eval:
  "infinity + infinity = infinity" "- infinity + - infinity = - infinity" "infinity + - infinity = quiet_NaN"
  "- infinity + infinity = quiet_NaN"
  "0 + infinity = infinity" "0 + - infinity = - infinity" "infinity * 1 = infinity" "- infinity * 1 = - infinity"
  "infinity * lit (1/2) = infinity" "lit (1/2) * infinity = infinity"
  "- infinity * lit (1/2) = - infinity" "lit (1/2) * - infinity = - infinity"
proof -
  have "pack False (1/2) = Fin (1/2)" "pack False 1 = Fin 1" using pack_repr [of "1/2"] pack_repr [of 1] by simp_all
  then show "infinity + infinity = infinity" "- infinity + - infinity = - infinity" "infinity + - infinity = quiet_NaN"
    "- infinity + infinity = quiet_NaN"
    "0 + infinity = infinity" "0 + - infinity = - infinity" "infinity * 1 = infinity" "- infinity * 1 = - infinity"
    "infinity * lit (1/2) = infinity" "lit (1/2) * infinity = infinity"
    "- infinity * lit (1/2) = - infinity" "lit (1/2) * - infinity = - infinity"
    by (transfer, simp add: fp_add_def fp_mul_def fp_inf_def)+
qed

lemma nan_eval:
  "quiet_NaN + x = quiet_NaN" "x + quiet_NaN = quiet_NaN" "x * quiet_NaN = quiet_NaN" "quiet_NaN * x = quiet_NaN"
  "quiet_NaN / x = quiet_NaN" "x - quiet_NaN = quiet_NaN" "\<bar>quiet_NaN\<bar> = quiet_NaN"
  by (transfer, simp add: fp_add_def fp_mul_def fp_div_def)+

lemma half_repr_lit: "isfinite (lit (1/2))" "isfinite double_lowest"
proof -
  have "rnd (of_int (2 ^ 53 - 1) * 2 powi 971) = of_int (2 ^ 53 - 1) * 2 powi 971" by (rule rnd_dyadic) simp_all
  moreover have "of_int (2 ^ 53 - 1) * (2 :: rat) powi 971 = (2 ^ 53 - 1) * 2 ^ 971" using p2_nat [of 971] by simp
  ultimately have "rnd ((2 ^ 53 - 1) * 2 ^ 971) = (2 ^ 53 - 1) * 2 ^ 971" by simp
  moreover have "(2 ^ 53 - 1) * 2 ^ 971 < big" by (simp add: big_def)
  ultimately have "repr (- ((2 ^ 53 - 1) * 2 ^ 971))" unfolding repr_minus by (simp add: repr_def)
  then show "isfinite double_lowest" unfolding double_lowest_def by (rule isfinite_lit_repr)
qed (simp add: isfinite_lit_repr)

lemma overflow_cov: "SampleCovariance (CenterReturns (rp_returns overflow_request) [0, 0]) =
    [[infinity, - infinity], [- infinity, infinity]]"
  by (simp add: overflow_request_def matrix_eval Let_def deval numeral_2_eq_2 huge_square
      inf_eval [folded lit_0 lit_1] flip: lit_0 lit_1)


lemma overflow_metrics:
  "PortfolioMetrics (replicate 2 (lit (1/2))) [0, 0] [[infinity, - infinity], [- infinity, infinity]] 0 =
    (0, 0, double_lowest)"
proof -
  have "VecDot (replicate 2 (lit (1/2))) [0, 0] = 0"
    by (simp add: VecDot_def deval numeral_2_eq_2 upt_2 flip: lit_0)
  moreover have "QuadraticForm (replicate 2 (lit (1/2))) [[infinity, - infinity], [- infinity, infinity]] = quiet_NaN"
    by (simp add: QuadraticForm_def Let_def numeral_2_eq_2 upt_2 inf_eval nan_eval)
  moreover have "dsqrt 0 = 0" by transfer simp
  ultimately show ?thesis by (simp add: PortfolioMetrics_def Let_def dmax_def dkey)
qed

lemma overflow_weights:
  "parity_loop 1000 [[infinity, - infinity], [- infinity, infinity]] (replicate 2 (lit (1/2))) = replicate 2 (lit (1/2))"
proof -
  have "risk_contributions [[infinity, - infinity], [- infinity, infinity]] (replicate 2 (lit (1/2))) =
      replicate 2 quiet_NaN"
    by (simp add: risk_contributions_def numeral_2_eq_2 upt_2 inf_eval nan_eval)
  then have "parity_step [[infinity, - infinity], [- infinity, infinity]] (replicate 2 (lit (1/2))) = None"
    by (simp add: parity_step_def Let_def pf_Sum_def numeral_2_eq_2 nan_eval)
  then show ?thesis by (simp add: eval_nat_numeral)
qed

lemma overflow_build:
  "BuildResult (replicate 2 (lit (1/2))) (rp_labels overflow_request) (0, 0, double_lowest) = Inr overflow_result"
proof -
  have "\<bar>weight_sum overflow_result - 1\<bar> = 0"
    by (simp add: weight_sum_def overflow_result_def deval flip: lit_0 lit_1)
  then have "valid_result overflow_result" using tolerance_nonneg half_repr_lit
    by (simp add: valid_result_def overflow_result_def dkey)
  then show ?thesis
    by (subst BuildResult_Inr)
       (simp, simp add: overflow_result_def overflow_request_def weight_map_def numeral_2_eq_2 upt_2)
qed


lemma overflow_run: "RiskParity overflow_request = Inr overflow_result"
proof -
  have m: "ComputeMeans (rp_returns overflow_request) = [0, 0]"
    by (simp add: overflow_request_def ComputeMeans_def pf_Mean_def deval flip: lit_0 lit_1)
  have v: "ValidateReturnMatrix (rp_returns overflow_request) (rp_labels overflow_request) = Inr ()"
    by (simp add: ValidateReturnMatrix_Inr good_matrix_def overflow_request_def isfinite_lit_repr)
  have t: "\<not> foldl (\<lambda>v i. v + [[infinity, - infinity], [- infinity, infinity]] ! i ! i) 0 [0..<2] < kDegeneracyEps"
  proof -
    have "key kDegeneracyEps \<le> big" "\<not> isnan infinity \<and> key infinity = big"
      using key_bounds by simp (transfer, simp)
    then show ?thesis by (simp add: numeral_2_eq_2 upt_2 inf_eval less_key)
  qed
  have n: "length (rp_returns overflow_request) = 2" "1 / of_size 2 = lit (1/2)"
    by (simp_all add: overflow_request_def deval flip: lit_1)
  show ?thesis
    by (simp only: RiskParity_def v ebind_simps n Let_def m overflow_cov t throw_if_simps overflow_weights
        overflow_metrics overflow_build)
qed

section \<open>Properties\<close>

text \<open>C30: a risk-parity portfolio is long-only and valid: when \<open>RiskParity\<close> returns, the request was well-formed
  (1 to 100 series of equal length of at least two finite returns, distinct labels), there is one weight
  for each label in the order of the labels, no weight is negative, they sum to 1 within 1e-6 and all
  metrics are finite. The iteration of at most 1000 steps keeps the weights from below 0 although the
  products may underflow and the quotients overflow.\<close>

theorem risk_parity:
  assumes "RiskParity request = Inr r"
  shows "good_matrix (rp_returns request) (rp_labels request) \<and> valid_result r \<and>
    map fst (pr_weights r) = sort (rp_labels request) \<and> (\<forall>(l, w) \<in> set (pr_weights r). 0 \<le> w)"
  using RiskParity_Inr [OF assms] by blast

theorem risk_parity_witness: "RiskParity even_request = Inr even_result \<and> valid_result even_result"
  using even_parity risk_parity [OF even_parity] by blast

text \<open>A mean-variance portfolio is valid: when \<open>MeanVariance\<close> returns, the request was well-formed (with a
  finite risk-free rate, one of the four objectives, and a finite target where the objective needs one), there is
  one weight for each label in the order of the labels, the weights sum to 1 within 1e-6 and all metrics
  are finite, the volatility not negative.\<close>

theorem mean_variance:
  assumes "MeanVariance request = Inr r"
  shows "isfinite (mv_risk_free_rate request) \<and> good_matrix (mv_returns request) (mv_labels request) \<and>
    good_objective request \<and> valid_result r \<and> map fst (pr_weights r) = sort (mv_labels request)"
  using MeanVariance_Inr [OF assms] by blast

theorem mean_variance_witness: "MeanVariance single_request = Inr single_result \<and> valid_result single_result"
  using single_run mean_variance [OF single_run] by blast

text \<open>A Black-Litterman posterior is valid: when \<open>BlackLitterman\<close> returns, the returns, capitalisations, views,
  \<open>tau\<close> and risk aversion were well-formed, the portfolio is valid as above, and there is one weight and
  one posterior return for each label in the order of the labels.\<close>

theorem black_litterman:
  assumes "BlackLitterman req = Inr r"
  shows "good_matrix (bl_returns req) (bl_labels req) \<and> good_views req \<and> valid_result (blr_portfolio r) \<and>
    map fst (pr_weights (blr_portfolio r)) = sort (bl_labels req) \<and>
    map fst (blr_expected_returns r) = sort (bl_labels req)"
  using BlackLitterman_Inr [OF assms] by blast

theorem black_litterman_witness: "BlackLitterman view_request = Inr view_result \<and> valid_result (blr_portfolio view_result)"
  using view_run black_litterman [OF view_run] by blast

text \<open>The validation of a result misses an overflow: for two opposite series of finite returns of
  size \<open>2 ^ 600\<close> the covariance is infinite and the variance of the portfolio NaN, \<open>std::max(0.0, NaN)\<close> is 0, and
  \<open>RiskParity\<close> returns a portfolio with volatility 0.\<close>

theorem overflow_volatility:
  "RiskParity overflow_request = Inr overflow_result \<and> pr_volatility overflow_result = 0 \<and>
   isnan (QuadraticForm (replicate 2 (lit (1/2)))
     (SampleCovariance (CenterReturns (rp_returns overflow_request) (ComputeMeans (rp_returns overflow_request)))))"
proof -
  have "ComputeMeans (rp_returns overflow_request) = [0, 0]"
    by (simp add: overflow_request_def ComputeMeans_def pf_Mean_def deval flip: lit_0 lit_1)
  then show ?thesis
    by (simp add: overflow_run overflow_cov)
       (simp add: overflow_result_def QuadraticForm_def Let_def numeral_2_eq_2 upt_2 inf_eval nan_eval)
qed


end
