(* ===== verification/Analysis_Facts.thy ===== *)
theory Analysis_Facts
  imports Analysis Min_Variance Portfolio_Validity
begin

text \<open>
  Facts of the analyses: when an option price is ever returned, the range of the Hurst exponent, the
  shape of a correlation matrix, the sign convention and the order of principal components.
\<close>

section \<open>The normal distribution function\<close>

lemma NormalCdf_not_nan:
  assumes "NormalCdf exp_fn x = Some y"
  shows "\<not> isnan x"
proof -
  have "(case (exp_fn, x) of (e, x) \<Rightarrow> \<lambda>_. \<not> isnan x) y"
  proof (rule NormalCdf.raw_induct)
    show "(case (exp_fn, x) of (e, x) \<Rightarrow> NormalCdf e x) = Some y" using assms by simp
  next
    fix rec e x y
    assume a: "\<And>e b y. rec e b = Some y \<Longrightarrow> \<not> isnan b"
      and b: "(if isinf x then Some (if 0 < x then 1 else 0)
        else if 0 \<le> x then let t = 1 / (1 + lit (2316419 / 10 ^ 7) * x)
          in Some (1 - lit (3989422804014327 / 10 ^ 16) * e (- x * x / lit 2) * cdf_poly t)
        else Option.bind (rec e (- x)) (\<lambda>y. Some (1 - y))) = Some y"
    show "\<not> isnan x" using a [of e "- x"] b by (auto simp: isinf_key bind_eq_Some_conv split: if_splits)
  qed
  then show ?thesis by simp
qed

lemma NormalCdf_defined: "NormalCdf exp_fn x = None \<longleftrightarrow> isnan x"
proof (cases "isnan x")
  case True
  then show ?thesis using NormalCdf_not_nan [of exp_fn x] by (cases "NormalCdf exp_fn x") auto
next
  case False
  have pos: "\<exists>y. NormalCdf exp_fn z = Some y" if "0 \<le> z" for z
    by (subst NormalCdf.simps) (simp add: Let_def that)
  have "0 \<le> x \<or> 0 \<le> - x" using False by (auto simp: dkey)
  then obtain y where "NormalCdf exp_fn x = Some y \<or> \<not> 0 \<le> x \<and> NormalCdf exp_fn (- x) = Some y" using pos by blast
  then have "NormalCdf exp_fn x \<noteq> None" by (subst (asm) NormalCdf.simps, subst NormalCdf.simps) (auto simp: Let_def)
  then show ?thesis using False by simp
qed

lemma check_params_Inr: "check_params p = Inr u \<longleftrightarrow>
    isfinite (bs_spot p) \<and> 0 \<le> bs_spot p \<and> isfinite (bs_strike p) \<and> 0 \<le> bs_strike p \<and>
    isfinite (bs_risk_free_rate p) \<and> 0 \<le> bs_risk_free_rate p \<and> isfinite (bs_volatility p) \<and> 0 < bs_volatility p \<and>
    isfinite (bs_time_to_maturity p) \<and> 0 < bs_time_to_maturity p"
proof -
  have pos: "isfinite x \<and> 0 \<le> x \<and> \<not> deq x 0 \<longleftrightarrow> isfinite x \<and> 0 < x" for x by (auto simp: dkey)
  show ?thesis using pos [of "bs_volatility p"] pos [of "bs_time_to_maturity p"]
    by (auto simp: check_params_def ValidateFinite_def ebind_Inr_iff isfinite_not not_neg_finite)
qed

lemma Options_defined:
  assumes "rq_black_scholes request = Some p" "check_params p = Inr u"
  shows "Options log_fn exp_fn request = None \<longleftrightarrow> isnan (option_d1 log_fn p) \<or> isnan (option_d2 log_fn p)"
    and "Options log_fn exp_fn request = None \<or> (\<exists>r. Options log_fn exp_fn request = Some (Inr r))"
  using assms NormalCdf_defined [of exp_fn]
  by (auto simp: Options_def Let_def bind_eq_None_conv split: Option.bind_split)

lemma zero_div_zero: "deq x 0 \<Longrightarrow> deq y 0 \<Longrightarrow> isnan (x / y)"
proof (transfer)
  fix x y assume "x \<noteq> NaN \<and> Fin 0 \<noteq> NaN \<and> fp_key x = fp_key (Fin 0)" "y \<noteq> NaN \<and> Fin 0 \<noteq> NaN \<and> fp_key y = fp_key (Fin 0)"
  then show "fp_div x y = NaN" by (cases x; cases y) (auto simp: fp_div_def)
qed

lemma worthless_option:
  assumes "\<And>x. isnan x \<Longrightarrow> isnan (log_fn x)" "deq (bs_spot p) 0" "deq (bs_strike p) 0"
  shows "isnan (option_d1 log_fn p)"
  using assms zero_div_zero by (simp add: option_d1_def)

section \<open>The Hurst exponent\<close>

lemma clamp_exponent: "isnan (clamp_exponent e) \<or> 0 \<le> clamp_exponent e \<and> clamp_exponent e \<le> 1"
  by (auto simp: clamp_exponent_def Let_def dkey)

text \<open>The lags are at least 8, at most the bound, and there are at most 100 of them.\<close>

lemma lags_from_eq:
  assumes "0 < step"
  shows "lags_from step max_l lag = map (\<lambda>k. lag + int k * step) [0..<nat ((max_l - lag) div step + 1)]"
  using assms
proof (induction step max_l lag rule: lags_from.induct)
  case (1 step max_l lag)
  show ?case
  proof (cases "lag \<le> max_l")
    case True
    have "(max_l - lag) div step = (max_l - (lag + step)) div step + 1"
      using 1(2) div_add_self2 [of step "max_l - (lag + step)"] by simp
    moreover have "0 \<le> (max_l - lag) div step" using True 1(2) by (simp add: pos_imp_zdiv_nonneg_iff)
    ultimately have n: "nat ((max_l - lag) div step + 1) = Suc (nat ((max_l - (lag + step)) div step + 1))" by simp
    have "lags_from step max_l lag = lag # map (\<lambda>k. lag + step + int k * step) [0..<nat ((max_l - (lag + step)) div step + 1)]"
      using 1 True by (subst lags_from.simps) simp
    then show ?thesis unfolding n upt_conv_Cons [OF zero_less_Suc] map_Suc_upt [symmetric]
      by (simp add: o_def algebra_simps)
  next
    case False
    then have "(max_l - lag) div step < 0" using 1(2) by (simp add: pos_imp_zdiv_neg_iff)
    then show ?thesis using False by (subst lags_from.simps) simp
  qed
qed


lemma sdiv_nonneg: "0 \<le> (a :: int) \<Longrightarrow> a sdiv 50 = a div 50"
  by (cases "a = 0") (simp_all add: signed_divide_int_def)

lemma hurst_lags:
  assumes "8 < max_l"
  shows "length (lags_from (hurst_step max_l) max_l 8) \<le> 100"
    "list_all (\<lambda>lag. 8 \<le> lag \<and> lag \<le> max_l) (lags_from (hurst_step max_l) max_l 8)"
proof -
  let ?s = "hurst_step max_l"
  have s: "?s = (if (max_l - 8) div 50 < 1 then 1 else (max_l - 8) div 50)" "0 < ?s"
    using assms by (simp_all add: hurst_step_def sdiv_nonneg)
  have "max_l - 8 < 100 * ?s"
  proof (cases "(max_l - 8) div 50 < 1")
    case True
    then show ?thesis using s by simp
  next
    case False
    then show ?thesis using s by simp
  qed
  moreover have le: "?s * ((max_l - 8) div ?s) \<le> max_l - 8"
    using mult_div_mod_eq [of ?s "max_l - 8"] pos_mod_sign [OF s(2), of "max_l - 8"] by linarith
  moreover have "?s * 100 \<le> ?s * ((max_l - 8) div ?s)" if "100 \<le> (max_l - 8) div ?s"
    using that s(2) by (simp add: mult_left_mono)
  ultimately have "(max_l - 8) div ?s < 100" by linarith
  then show "length (lags_from ?s max_l 8) \<le> 100" by (simp add: lags_from_eq [OF s(2)])
  have "8 + int k * ?s \<le> max_l" if "k < nat ((max_l - 8) div ?s + 1)" for k
  proof -
    have "int k \<le> (max_l - 8) div ?s" using that by simp
    then have "?s * int k \<le> ?s * ((max_l - 8) div ?s)" using s(2) by (simp add: mult_left_mono)
    then have "int k * ?s \<le> max_l - 8" using le by (simp add: mult.commute)
    then show ?thesis by simp
  qed
  then show "list_all (\<lambda>lag. 8 \<le> lag \<and> lag \<le> max_l) (lags_from ?s max_l 8)"
    using s(2) by (auto simp: lags_from_eq [OF s(2)] list_all_iff)
qed

lemma ValidateFinite_Inr: "ValidateFinite vs context = Inr u \<longleftrightarrow> list_all isfinite vs"
  by (auto simp: ValidateFinite_def list_ex_iff list_all_iff isfinite_not)

lemma ValidateFinite_Inl: "ValidateFinite vs context = Inl e \<Longrightarrow> \<exists>m. e = DataQualityError m"
  by (auto simp: ValidateFinite_def split: if_splits)

lemma Hurst_Inl: "Hurst log_fn request = Inl e \<Longrightarrow> \<exists>m. e = DataQualityError m"
  by (auto simp: Hurst_def Let_def ebind_Inl_iff dest: ValidateFinite_Inl)

lemma Hurst_Inr:
  assumes "Hurst log_fn request = Inr r"
  shows "50 \<le> length (rq_prices request)" "list_all (\<lambda>p. isfinite p \<and> 0 < p) (rq_prices request)"
    "8 < hurst_max_lag (length (log_returns log_fn (rq_prices request))) (rq_max_lag request)"
    "\<exists>e. hu_exponent r = clamp_exponent e" "hu_interpretation r = InterpretHurst (hu_exponent r)"
  using assms pos_finite
  by (auto simp: Hurst_def Let_def ebind_Inr_iff ValidateFinite_Inr list_all_iff list_ex_iff not_le)

section \<open>Correlation\<close>

lemma times_commute_d: "a * b = b * (a :: double)"
proof (transfer)
  fix a b show "fp_mul a b = fp_mul b a"
    by (cases "fp_sign a = fp_sign b") (auto simp: fp_mul_def mult.commute)
qed

lemma each_Inr: "each f xs = Inr ys \<longleftrightarrow> length ys = length xs \<and> (\<forall>i < length xs. f (xs ! i) = Inr (ys ! i))"
proof (induction xs arbitrary: ys)
  case (Cons x xs)
  show ?case by (cases ys) (auto simp: ebind_Inr_iff Cons nth_Cons' less_Suc_eq_0_disj)
qed auto

lemma each_Inl: "each f xs = Inl e \<Longrightarrow> \<exists>x \<in> set xs. f x = Inl e"
  by (induction xs) (auto simp: ebind_Inl_iff)

text \<open>The smallest and the largest entry.\<close>

lemma stats_fold:
  assumes "\<not> isnan lo" "\<not> isnan hi"
    "foldl (\<lambda>(total, lo, hi, k) (i, j).
         let v = m ! i ! j
         in (total + v, if v < lo then v else lo, if hi < v then v else hi, k + 1))
       (s, lo, hi, k) ps = (s', lo', hi', k')"
  shows "\<not> isnan lo' \<and> \<not> isnan hi' \<and> lo' \<le> lo \<and> hi \<le> hi' \<and>
    list_all (\<lambda>(i, j). isnan (m ! i ! j) \<or> lo' \<le> m ! i ! j \<and> m ! i ! j \<le> hi') ps"
  using assms
proof (induction ps arbitrary: s lo hi k)
  case Nil
  then show ?case by (simp add: dkey)
next
  case (Cons p ps)
  obtain i j where p: "p = (i, j)" by (cases p)
  let ?v = "m ! i ! j" and ?lo = "if m ! i ! j < lo then m ! i ! j else lo" and ?hi = "if hi < m ! i ! j then m ! i ! j else hi"
  have n: "\<not> isnan ?lo" "\<not> isnan ?hi" using Cons.prems by (auto simp: dkey)
  have "\<not> isnan lo' \<and> \<not> isnan hi' \<and> lo' \<le> ?lo \<and> ?hi \<le> hi' \<and>
      list_all (\<lambda>(i, j). isnan (m ! i ! j) \<or> lo' \<le> m ! i ! j \<and> m ! i ! j \<le> hi') ps"
    using Cons.prems(3) by (intro Cons.IH [OF n]) (simp add: p Let_def)
  then show ?case using Cons.prems(1,2) by (auto simp: p dkey split: if_splits)
qed


lemma stats_bounds:
  assumes "correlation_stats m = (s, lo, hi, k)"
  shows "list_all (\<lambda>(i, j). isnan (m ! i ! j) \<or> lo \<le> m ! i ! j \<and> m ! i ! j \<le> hi) (upper_pairs (length m))"
proof -
  have "\<not> isnan infinity \<and> \<not> isnan (- infinity)" by simp (transfer, simp)
  then show ?thesis using stats_fold [of infinity "- infinity" m 0 0 "upper_pairs (length m)" s lo hi k] assms
    by (simp add: correlation_stats_def)
qed

lemma correlation_entry_symmetric:
  assumes "correlation_entry labels (covariance_table series means n) i j = Inr x" "i < length series" "j < length series"
    "correlation_entry labels (covariance_table series means n) j i = Inr y"
  shows "x = y"
proof -
  let ?c = "covariance_table series means n"
  have "?c ! i ! j = ?c ! j ! i" using assms(2,3) by (simp add: covariance_table_def Let_def min.commute max.commute)
  moreover have "?c ! i ! i * ?c ! j ! j = ?c ! j ! j * ?c ! i ! i" by (rule times_commute_d)
  ultimately show ?thesis using assms(1,4) by (simp add: correlation_entry_def Let_def ebind_Inr_iff)
qed

lemma Correlation_Inl: "Correlation request = Inl e \<Longrightarrow> \<exists>m. e = DataQualityError m"
proof -
  have "check_map rm n ls = Inl e \<Longrightarrow> \<exists>m. e = DataQualityError m" for rm n ls e
    by (induction ls) (auto simp: ebind_Inl_iff dest: ValidateFinite_Inl)
  then show "Correlation request = Inl e \<Longrightarrow> \<exists>m. e = DataQualityError m"
    by (auto simp: Correlation_def Let_def ebind_Inl_iff correlation_entry_def case_prod_unfold dest!: each_Inl)
qed

lemma Correlation_Inr:
  assumes "Correlation request = Inr r"
  shows "co_labels r = sort (map fst (rq_returns_map request))"
    "length (co_matrix r) = length (co_labels r)"
    "list_all (\<lambda>row. length row = length (co_labels r)) (co_matrix r)"
    "symmetric (co_matrix r)"
    "list_all (\<lambda>(i, j). isnan (co_matrix r ! i ! j) \<or> co_min r \<le> co_matrix r ! i ! j \<and> co_matrix r ! i ! j \<le> co_max r)
       (upper_pairs (length (co_matrix r)))"
proof -
  let ?m = "rq_returns_map request"
  let ?labels = "sort (map fst ?m)"
  let ?n = "length (series_of ?m (?labels ! 0))" and ?series = "map (series_of ?m) ?labels"
  let ?cov = "covariance_table ?series (map (an_Mean lit) ?series) ?n"
  have "\<exists>m. each (\<lambda>i. each (correlation_entry ?labels ?cov i) [0..<length ?labels]) [0..<length ?labels] = Inr m \<and>
      co_labels r = ?labels \<and> co_matrix r = m \<and> co_min r = fst (snd (correlation_stats m)) \<and>
      co_max r = fst (snd (snd (correlation_stats m)))"
    using assms by (simp only: Correlation_def Let_def ebind_Inr_iff case_prod_unfold) force
  then have l: "co_labels r = ?labels"
    and e: "each (\<lambda>i. each (correlation_entry ?labels ?cov i) [0..<length ?labels]) [0..<length ?labels] = Inr (co_matrix r)"
    and st: "correlation_stats (co_matrix r) = (fst (correlation_stats (co_matrix r)), co_min r, co_max r,
      snd (snd (snd (correlation_stats (co_matrix r)))))"
    by auto
  show "co_labels r = ?labels" by (rule l)
  have row: "each (correlation_entry ?labels ?cov i) [0..<length ?labels] = Inr (co_matrix r ! i)"
    and len: "length (co_matrix r) = length ?labels" if "i < length ?labels" for i
    using e that by (auto simp: each_Inr)
  have len: "length (co_matrix r) = length ?labels" using e by (simp add: each_Inr)
  then show "length (co_matrix r) = length (co_labels r)" by (simp add: l)
  show "list_all (\<lambda>row. length row = length (co_labels r)) (co_matrix r)"
    using row len by (auto simp: list_all_length each_Inr l)
  have entry: "correlation_entry ?labels ?cov i j = Inr (co_matrix r ! i ! j)" if "i < length ?labels" "j < length ?labels" for i j
    using row [OF that(1)] that(2) by (auto simp: each_Inr)
  show "symmetric (co_matrix r)"
    unfolding symmetric_def list_all_iff len
  proof (intro ballI)
    fix i j assume "i \<in> set [0..<length ?labels]" "j \<in> set [0..<length ?labels]"
    then have "i < length ?labels" "j < length ?labels" by simp_all
    then show "co_matrix r ! i ! j = co_matrix r ! j ! i"
      using correlation_entry_symmetric [OF entry _ _ entry] by simp
  qed
  show "list_all (\<lambda>(i, j). isnan (co_matrix r ! i ! j) \<or> co_min r \<le> co_matrix r ! i ! j \<and> co_matrix r ! i ! j \<le> co_max r)
       (upper_pairs (length (co_matrix r)))" by (rule stats_bounds [OF st])
qed


section \<open>Principal components\<close>


lemma div_mono_d: 
  assumes "0 \<le> x" "x \<le> y" "0 < t"
  shows "isnan (x / t) \<or> isnan (y / t) \<or> x / t \<le> (y / t :: double)"
  using assms
proof (transfer)
  fix x y t
  assume v: "valid_fp x" "valid_fp y" and "Fin 0 \<noteq> NaN \<and> x \<noteq> NaN \<and> fp_key (Fin 0) \<le> fp_key x" "x \<noteq> NaN \<and> y \<noteq> NaN \<and> fp_key x \<le> fp_key y"
    "Fin 0 \<noteq> NaN \<and> t \<noteq> NaN \<and> fp_key (Fin 0) < fp_key t"
  then have k: "0 \<le> fp_key x" "fp_key x \<le> fp_key y" "0 < fp_key t" "x \<noteq> NaN" "y \<noteq> NaN" "t \<noteq> NaN" by auto
  then have d: "crnd (fp_key x / fp_key t) \<le> crnd (fp_key y / fp_key t)" by (intro crnd_mono divide_right_mono) auto
  show "fp_div x t = NaN \<or> fp_div y t = NaN \<or> fp_div x t \<noteq> NaN \<and> fp_div y t \<noteq> NaN \<and> fp_key (fp_div x t) \<le> fp_key (fp_div y t)"
    using k d v by (cases x; cases y; cases t) (auto simp: fp_div_def fp_key_pack crnd_bounds crnd_nonneg)
qed

lemma dmax_mono: "x \<le> y \<Longrightarrow> 0 \<le> dmax 0 x \<and> dmax 0 x \<le> dmax 0 y"
  by (auto simp: dmax_def dkey)

lemma abs_uminus_d [simp]: "\<bar>- x\<bar> = \<bar>x :: double\<bar>"
proof (transfer)
  fix x show "(if fp_sign (fp_neg x) then fp_neg (fp_neg x) else fp_neg x) = (if fp_sign x then fp_neg x else x)"
    by (cases x) auto
qed

text \<open>What \<^verbatim>\<open>std::sort\<close> promises: for a strict weak order on the elements, a sorted permutation.\<close>

definition weak_order :: "(nat \<Rightarrow> nat \<Rightarrow> bool) \<Rightarrow> nat set \<Rightarrow> bool" where
  "weak_order lt A \<longleftrightarrow>
     (\<forall>a \<in> A. \<not> lt a a) \<and> (\<forall>a \<in> A. \<forall>b \<in> A. \<forall>c \<in> A. lt a b \<and> lt b c \<longrightarrow> lt a c) \<and>
     (\<forall>a \<in> A. \<forall>b \<in> A. \<forall>c \<in> A. \<not> lt a b \<and> \<not> lt b c \<longrightarrow> \<not> lt a c)"

definition sort_contract :: "((nat \<Rightarrow> nat \<Rightarrow> bool) \<Rightarrow> nat list \<Rightarrow> nat list) \<Rightarrow> bool" where
  "sort_contract sort_fn \<longleftrightarrow>
     (\<forall>lt xs. weak_order lt (set xs) \<longrightarrow>
        mset (sort_fn lt xs) = mset xs \<and> sorted_wrt (\<lambda>a b. \<not> lt b a) (sort_fn lt xs))"

lemma descending_indices:
  assumes "sort_contract sort_fn" "\<not> list_ex isnan es" "length es = n"
  defines "idx \<equiv> sort_fn (\<lambda>a b. es ! b < es ! a) [0..<n]"
  shows "length idx = n" "sorted_wrt (\<lambda>i j. es ! j \<le> es ! i) idx"
proof -
  have nn: "\<not> isnan (es ! i)" if "i < n" for i using assms(2,3) that by (simp add: list_ex_length)
  have "weak_order (\<lambda>a b. es ! b < es ! a) (set [0..<n])"
    unfolding weak_order_def using nn by (auto simp: less_key)
  then have m: "mset idx = mset [0..<n]" and s: "sorted_wrt (\<lambda>a b. \<not> es ! a < es ! b) idx"
    using assms(1) unfolding sort_contract_def idx_def by blast+
  from m show "length idx = n" by (metis length_upt minus_nat.diff_0 size_mset)
  from m have "set idx = {..<n}" by (metis atLeast0LessThan set_mset_mset set_upt)
  then show "sorted_wrt (\<lambda>i j. es ! j \<le> es ! i) idx"
    using s nn by (intro sorted_wrt_mono_rel [OF _ s]) (auto simp: dkey)
qed

text \<open>The sign convention: the component of largest magnitude is not negative.\<close>

lemma largest_fold:
  assumes "\<not> list_ex isnan l" "i < length l" "\<forall>j \<in> set js. j < length l"
  defines "p \<equiv> foldl (\<lambda>pivot i. if \<bar>l ! pivot\<bar> < \<bar>l ! i\<bar> then i else pivot) i js"
  shows "p < length l \<and> \<bar>l ! i\<bar> \<le> \<bar>l ! p\<bar> \<and> (\<forall>j \<in> set js. \<bar>l ! j\<bar> \<le> \<bar>l ! p\<bar>)"
  using assms(2,3) unfolding p_def
proof (induction js arbitrary: i)
  case Nil
  then show ?case using assms(1) by (simp add: list_ex_length le_key)
next
  case (Cons j js)
  have n: "\<not> isnan (l ! i)" "\<not> isnan (l ! j)" using assms(1) Cons.prems by (simp_all add: list_ex_length)
  let ?i = "if \<bar>l ! i\<bar> < \<bar>l ! j\<bar> then j else i"
  have "\<bar>l ! i\<bar> \<le> \<bar>l ! ?i\<bar>" "\<bar>l ! j\<bar> \<le> \<bar>l ! ?i\<bar>" using n by (auto simp: dkey)
  then show ?case using Cons.IH [of ?i] Cons.prems by (auto intro: le_trans_d)
qed

lemma largest_component:
  assumes "\<not> list_ex isnan l" "l \<noteq> []"
  shows "largest_component l < length l \<and> list_all (\<lambda>x. \<bar>x\<bar> \<le> \<bar>l ! largest_component l\<bar>) l"
proof -
  have b: "largest_component l < length l" "\<bar>l ! 0\<bar> \<le> \<bar>l ! largest_component l\<bar>"
      "\<forall>j \<in> set [1..<length l]. \<bar>l ! j\<bar> \<le> \<bar>l ! largest_component l\<bar>"
    using largest_fold [OF assms(1), of 0 "[1..<length l]"] assms(2) by (auto simp: largest_component_def)
  then have "\<bar>l ! j\<bar> \<le> \<bar>l ! largest_component l\<bar>" if "j < length l" for j using that by (cases j) auto
  then show ?thesis using b(1) by (simp add: list_all_length)
qed

lemma largest_component_uminus: "largest_component (map uminus l) = largest_component l"
proof -
  have "foldl (\<lambda>pivot i. if \<bar>map uminus l ! pivot\<bar> < \<bar>map uminus l ! i\<bar> then i else pivot) p js =
      foldl (\<lambda>pivot i. if \<bar>l ! pivot\<bar> < \<bar>l ! i\<bar> then i else pivot) p js"
    if "p < length l" "\<forall>j \<in> set js. j < length l" for p js
    using that by (induction js arbitrary: p) auto
  from this [of 0 "[1..<length l]"] show ?thesis by (cases "l = []") (simp_all add: largest_component_def)
qed


definition sign_convention :: "double list \<Rightarrow> bool" where
  "sign_convention l \<longleftrightarrow> list_ex isnan l \<or> list_all (\<lambda>x. \<bar>x\<bar> \<le> l ! largest_component l) l"

lemma pca_loading_sign:
  assumes "eigenvectors \<noteq> []"
  shows "sign_convention (pca_loading eigenvectors idx)"
proof -
  let ?l = "map (\<lambda>row. row ! idx) eigenvectors" and ?p = "largest_component (map (\<lambda>row. row ! idx) eigenvectors)"
  show ?thesis
  proof (cases "list_ex isnan ?l")
    case True
    then show ?thesis by (auto simp: sign_convention_def pca_loading_def Let_def list_ex_iff)
  next
    case False
    then have p: "?p < length ?l" and m: "list_all (\<lambda>x. \<bar>x\<bar> \<le> \<bar>?l ! ?p\<bar>) ?l"
      using largest_component [of ?l] assms by auto
    have eq: "\<bar>x\<bar> \<le> \<bar>y\<bar> \<longleftrightarrow> (if y < 0 then \<bar>x\<bar> \<le> - y else \<bar>x\<bar> \<le> y)" for x y :: double
      by (auto simp: dkey)
    show ?thesis
    proof (cases "?l ! ?p < 0")
      case True
      have "pca_loading eigenvectors idx = map uminus ?l" unfolding pca_loading_def Let_def using True by simp
      moreover have "map uminus ?l ! largest_component (map uminus ?l) = - (?l ! ?p)"
        unfolding largest_component_uminus using p by simp
      ultimately show ?thesis using m True by (simp add: sign_convention_def eq list_all_iff)
    next
      case False
      have "pca_loading eigenvectors idx = ?l" unfolding pca_loading_def Let_def using False by simp
      then show ?thesis using m False by (simp add: sign_convention_def eq list_all_iff)
    qed
  qed
qed


text \<open>Shapes.\<close>

lemma foldl_length: "(\<And>a x. length (f a x) = length a) \<Longrightarrow> length (foldl f a xs) = length a"
  by (induction xs arbitrary: a) auto

lemma length_SampleCovariance [simp]: "length (SampleCovariance centered) = length centered"
  by (simp add: SampleCovariance_def Let_def MatAlloc_def foldl_length)

lemma length_jacobi_rotate:
  "length (fst (jacobi_rotate num sqrt_fn av pq)) = length (fst av) \<and>
   length (snd (jacobi_rotate num sqrt_fn av pq)) = length (snd av)"
  by (cases av; cases pq) (simp add: jacobi_rotate_def rotate_columns_def rotate_rows_def split: prod.split)

lemma length_jacobi_fold:
  "length (fst (foldl (jacobi_rotate num sqrt_fn) av pqs)) = length (fst av) \<and>
   length (snd (foldl (jacobi_rotate num sqrt_fn) av pqs)) = length (snd av)"
  by (induction pqs arbitrary: av) (auto simp: length_jacobi_rotate)

lemma length_jacobi_sweeps:
  "length (fst (jacobi_sweeps k num sqrt_fn av)) = length (fst av) \<and>
   length (snd (jacobi_sweeps k num sqrt_fn av)) = length (snd av)"
  by (induction k arbitrary: av) (auto simp: length_jacobi_fold)

lemma length_JacobiEigen:
  "length (fst (JacobiEigen num sqrt_fn a)) = length a" "length (snd (JacobiEigen num sqrt_fn a)) = length a"
  using length_jacobi_sweeps [of 100 num sqrt_fn "(a, map (\<lambda>i. (replicate (length a) 0)[i := 1]) [0..<length a])"]
  by (simp_all add: JacobiEigen_def Let_def case_prod_unfold)

lemma ratio_nn: "nn (explained_ratio t x)"
  by (auto simp: explained_ratio_def intro!: nn_div) (auto simp: dmax_def nn_def dkey)

lemma ratio_mono: "x \<le> y \<Longrightarrow>
    isnan (explained_ratio t y) \<or> isnan (explained_ratio t x) \<or> explained_ratio t x \<le> explained_ratio t y"
  using div_mono_d [of "dmax 0 x" "dmax 0 y" t] dmax_mono [of x y] by (auto simp: explained_ratio_def dkey)

lemma Pca_Inr:
  assumes "Pca sort_fn request = Inr r" "sort_contract sort_fn"
  shows "1 \<le> rq_n_components request" "rq_n_components request \<le> int (length (rq_returns_matrix request))"
    "pc_labels r = map (\<lambda>i. ''PC'' @ decimal (i + 1)) [0..<length (rq_returns_matrix request)]"
    "length (pc_explained_variance_ratio r) = nat (rq_n_components request)"
    "length (pc_loadings r) = nat (rq_n_components request)"
    "length (pc_factor_returns r) = nat (rq_n_components request)"
    "list_all (\<lambda>l. length l = length (rq_returns_matrix request) \<and> sign_convention l) (pc_loadings r)"
    "list_all (\<lambda>f. length f = length (rq_returns_matrix request ! 0)) (pc_factor_returns r)"
    "list_all nn (pc_explained_variance_ratio r)"
    "sorted_wrt (\<lambda>x y. isnan x \<or> isnan y \<or> y \<le> x) (pc_explained_variance_ratio r)"
proof -
  let ?m = "rq_returns_matrix request" and ?k = "nat (rq_n_components request)"
  let ?centered = "CenterReturns ?m (map (an_Mean lit) ?m)"
  let ?es = "fst (JacobiEigen lit dsqrt (SampleCovariance ?centered))"
  let ?vs = "snd (JacobiEigen lit dsqrt (SampleCovariance ?centered))"
  let ?idx = "sort_fn (\<lambda>a b. ?es ! b < ?es ! a) [0..<length ?m]" and ?total = "foldl (+) 0 ?es"
  have lm: "length ?centered = length ?m" by (simp add: CenterReturns_def Let_def)
  have le: "length ?es = length ?m" "length ?vs = length ?m" by (simp_all add: length_JacobiEigen lm)
  have a: "?m \<noteq> []" "1 \<le> rq_n_components request" "rq_n_components request \<le> int (length ?m)"
    "length ?m = 1 \<or> \<not> list_ex isnan ?es"
    and r: "r = \<lparr>pc_labels = map (\<lambda>i. ''PC'' @ decimal (i + 1)) [0..<length ?m],
      pc_explained_variance_ratio = map (\<lambda>k. explained_ratio ?total (?es ! (?idx ! k))) [0..<?k],
      pc_loadings = map (\<lambda>k. pca_loading ?vs (?idx ! k)) [0..<?k],
      pc_factor_returns = map (\<lambda>loading. factor_series loading ?centered (length (?m ! 0)))
        (map (\<lambda>k. pca_loading ?vs (?idx ! k)) [0..<?k])\<rparr>"
    using assms(1) by (auto simp: Pca_def Let_def ebind_Inr_iff case_prod_unfold not_less)
  show "1 \<le> rq_n_components request" "rq_n_components request \<le> int (length ?m)" by (rule a)+
  show "pc_labels r = map (\<lambda>i. ''PC'' @ decimal (i + 1)) [0..<length ?m]"
    "length (pc_explained_variance_ratio r) = ?k" "length (pc_loadings r) = ?k" "length (pc_factor_returns r) = ?k"
    by (simp_all add: r)
  have v: "?vs \<noteq> []" using a(1) le(2) by (metis length_0_conv)
  have "length (pca_loading ?vs i) = length ?m" for i by (simp add: pca_loading_def Let_def le)
  then show "list_all (\<lambda>l. length l = length ?m \<and> sign_convention l) (pc_loadings r)"
    using pca_loading_sign [OF v] by (simp add: r list_all_iff)
  show "list_all (\<lambda>f. length f = length (?m ! 0)) (pc_factor_returns r)"
    by (simp add: r list_all_iff factor_series_def)
  show "list_all nn (pc_explained_variance_ratio r)"
    using ratio_nn by (simp add: r list_all_iff)
  show "sorted_wrt (\<lambda>x y. isnan x \<or> isnan y \<or> y \<le> x) (pc_explained_variance_ratio r)"
  proof (cases "length ?m = 1")
    case True
    then have "?k \<le> 1" using a(3) by linarith
    then show ?thesis by (simp add: r sorted_wrt_iff_nth_less)
  next
    case False
    then have d: "length ?idx = length ?m" "sorted_wrt (\<lambda>i j. ?es ! j \<le> ?es ! i) ?idx"
      using descending_indices [OF assms(2) _ le(1)] a(4) by blast+
    have "isnan (pc_explained_variance_ratio r ! i) \<or> isnan (pc_explained_variance_ratio r ! j) \<or>
        pc_explained_variance_ratio r ! j \<le> pc_explained_variance_ratio r ! i" if "i < j" "j < ?k" for i j
    proof -
      have "?es ! (?idx ! j) \<le> ?es ! (?idx ! i)"
        using d that a(3) by (simp add: sorted_wrt_iff_nth_less)
      from ratio_mono [OF this, of ?total] show ?thesis using that by (simp add: r)
    qed
    then show ?thesis by (simp add: r sorted_wrt_iff_nth_less)
  qed
qed


section \<open>Samples\<close>

text \<open>A sorting function that keeps the contract.\<close>

fun insert_by :: "(nat \<Rightarrow> nat \<Rightarrow> bool) \<Rightarrow> nat \<Rightarrow> nat list \<Rightarrow> nat list" where
  "insert_by lt x [] = [x]"
| "insert_by lt x (y # ys) = (if lt y x then y # insert_by lt x ys else x # y # ys)"

definition sort_by :: "(nat \<Rightarrow> nat \<Rightarrow> bool) \<Rightarrow> nat list \<Rightarrow> nat list" where
  "sort_by lt xs = foldr (insert_by lt) xs []"

lemma mset_insert_by [simp]: "mset (insert_by lt x ys) = add_mset x (mset ys)"
  by (induction ys) auto

lemma set_insert_by [simp]: "set (insert_by lt x ys) = insert x (set ys)"
  by (induction ys) auto

lemma sorted_insert_by:
  assumes "weak_order lt A" "x \<in> A" "set ys \<subseteq> A" "sorted_wrt (\<lambda>a b. \<not> lt b a) ys"
  shows "sorted_wrt (\<lambda>a b. \<not> lt b a) (insert_by lt x ys)"
  using assms(3,4)
proof (induction ys)
  case (Cons y ys)
  have neg: "\<not> lt a b \<Longrightarrow> \<not> lt b c \<Longrightarrow> a \<in> A \<Longrightarrow> b \<in> A \<Longrightarrow> c \<in> A \<Longrightarrow> \<not> lt a c" for a b c
    using assms(1) unfolding weak_order_def by blast
  have asym: "lt a b \<Longrightarrow> a \<in> A \<Longrightarrow> b \<in> A \<Longrightarrow> \<not> lt b a" for a b
    using assms(1) unfolding weak_order_def by blast
  show ?case using Cons assms(2) by (auto dest: asym) (meson neg subsetD)
qed simp

lemma sort_by_contract: "sort_contract sort_by"
proof -
  have "mset (foldr (insert_by lt) xs []) = mset xs \<and>
      (set xs \<subseteq> A \<longrightarrow> sorted_wrt (\<lambda>a b. \<not> lt b a) (foldr (insert_by lt) xs []))" if w: "weak_order lt A" for lt xs A
  proof (induction xs)
    case (Cons x xs)
    then have "set (foldr (insert_by lt) xs []) = set xs" by (metis mset_eq_setD)
    then show ?case using Cons sorted_insert_by [OF w, of x "foldr (insert_by lt) xs []"] by auto
  qed simp
  then show ?thesis unfolding sort_contract_def sort_by_def by blast
qed

definition empty_request :: Request where
  "empty_request = \<lparr>rq_operation = [], rq_asset_returns = [], rq_benchmark_returns = [], rq_a_closes = [],
     rq_b_closes = [], rq_prices = [], rq_max_lag = None, rq_returns_matrix = [], rq_n_components = 1,
     rq_returns_map = [], rq_black_scholes = None\<rparr>"

definition worthless :: BlackScholesParams where
  "worthless = \<lparr>bs_spot = 0, bs_strike = 0, bs_risk_free_rate = 0, bs_volatility = 1, bs_time_to_maturity = 1,
     bs_option_type = Call\<rparr>"

definition pca_request :: Request where
  "pca_request = empty_request\<lparr>rq_returns_matrix := [[lit (- (1/2)), 0, lit (1/2)]]\<rparr>"

lemma zero_less_tiny: "lit 0 < lit (1 / 10 ^ 30)"
proof -
  have "lit 0 < lit (1 / 2 ^ 100)" using repr_half [of 1 100] by (simp add: lit_less)
  moreover have "lit (1 / 2 ^ 100) \<le> lit (1 / 10 ^ 30)" by (rule lit_mono) simp
  ultimately show ?thesis by (rule less_le_d)
qed

lemma pca_run: "Pca sort_by pca_request = Inr \<lparr>pc_labels = [''PC1''], pc_explained_variance_ratio = [1],
    pc_loadings = [[1]], pc_factor_returns = [[lit (- (1/2)), 0, lit (1/2)]]\<rparr>"
proof -
  have v: "ValidateFinite_matrix 0 [[lit (- (1/2)), 0, lit (1/2)]] [T ''returns matrix''] = Inr ()"
    by (simp add: ValidateFinite_Inr ebind_Inr_iff isfinite_lit_repr)
  have m: "an_Mean lit [lit (- (1/2)), 0, lit (1/2)] = 0"
    by (simp add: an_Mean_def deval flip: lit_0)
  have c: "CenterReturns [[lit (- (1/2)), 0, lit (1/2)]] [0] = [[lit (- (1/2)), 0, lit (1/2)]]"
    by (simp add: CenterReturns_def deval flip: lit_0)
  have cov: "SampleCovariance [[lit (- (1/2)), 0, lit (1/2)]] = [[lit (1/4)]]"
    by (simp add: matrix_eval Let_def deval flip: lit_0 lit_1)
  have "off_diagonal [[lit (1/4)]] = 0" by (simp add: off_diagonal_def upper_pairs_def)
  then have "jacobi_sweeps 100 lit dsqrt ([[lit (1/4)]], [[1]]) = ([[lit (1/4)]], [[1]])"
    using zero_less_tiny by (simp add: eval_nat_numeral lit_0)
  then have e: "JacobiEigen lit dsqrt [[lit (1/4)]] = ([lit (1/4)], [[1]])" by (simp add: JacobiEigen_def)
  have s: "sort_by (\<lambda>a b. [lit (1/4)] ! b < [lit (1/4)] ! a) [0] = [0]" by (simp add: sort_by_def)
  have l: "pca_loading [[1]] 0 = [1]" by (simp add: pca_loading_def largest_component_def dkey)
  have f: "factor_series [1] [[lit (- (1/2)), 0, lit (1/2)]] (Suc (Suc (Suc 0))) = [lit (- (1/2)), 0, lit (1/2)]"
    by (simp add: factor_series_def deval flip: lit_0 lit_1)
  have r: "explained_ratio (0 + lit (1/4)) (lit (1/4)) = 1"
    by (simp add: explained_ratio_def dmax_def deval flip: lit_0 lit_1)
  have d: "decimal (Suc 0) = ''1''" by code_simp
  show ?thesis
    by (simp add: Pca_def pca_request_def empty_request_def v m c cov e s l f r d
        del: ValidateFinite_matrix.simps)
qed


section \<open>Properties\<close>

text \<open>C31: the Black-Scholes analysis returns for accepted parameters unless \<open>d1\<close> or \<open>d2\<close> is NaN; then the recursion of
  \<open>NormalCdf\<close> on \<open>- x\<close> never ends. It does so for an option with spot and strike 0, which the validation
  accepts, when the logarithm of NaN is NaN.\<close>

theorem options_termination:
  assumes "rq_black_scholes request = Some p" "check_params p = Inr ()" "\<And>x. isnan x \<Longrightarrow> isnan (log_fn x)"
  shows "(Options log_fn exp_fn request = None \<longleftrightarrow> isnan (option_d1 log_fn p) \<or> isnan (option_d2 log_fn p)) \<and>
    (Options log_fn exp_fn request = None \<or> (\<exists>r. Options log_fn exp_fn request = Some (Inr r))) \<and>
    (deq (bs_spot p) 0 \<and> deq (bs_strike p) 0 \<longrightarrow> Options log_fn exp_fn request = None)"
proof (intro conjI impI)
  show d: "Options log_fn exp_fn request = None \<longleftrightarrow> isnan (option_d1 log_fn p) \<or> isnan (option_d2 log_fn p)"
    by (rule Options_defined(1) [OF assms(1,2)])
  show "Options log_fn exp_fn request = None \<or> (\<exists>r. Options log_fn exp_fn request = Some (Inr r))"
    by (rule Options_defined(2) [OF assms(1,2)])
  assume "deq (bs_spot p) 0 \<and> deq (bs_strike p) 0"
  then have "isnan (option_d1 log_fn p)" using worthless_option [OF assms(3)] by simp
  then show "Options log_fn exp_fn request = None" using d by simp
qed

theorem options_termination_witness:
  "check_params worthless = Inr () \<and>
   Options (\<lambda>x. x) (\<lambda>x. x) (empty_request\<lparr>rq_black_scholes := Some worthless\<rparr>) = None"
proof -
  let ?request = "empty_request\<lparr>rq_black_scholes := Some worthless\<rparr>"
  have p: "rq_black_scholes ?request = Some worthless" by simp
  have c: "check_params worthless = Inr ()" unfolding check_params_Inr by (simp add: worthless_def dkey)
  have "deq (bs_spot worthless) 0 \<and> deq (bs_strike worthless) 0" by (simp add: worthless_def dkey)
  then show ?thesis using c options_termination [OF p c, of "\<lambda>x. x" "\<lambda>x. x"] by blast
qed

text \<open>The Hurst analysis gives a data quality error or, from at least 50 finite positive prices, an exponent
  between 0 and 1 (or NaN, when a logarithm overflows or is undefined: it is then called persistent).
  For every bound above 8 it tries at most 100 lags, each between 8 and the bound.\<close>

theorem hurst_range:
  "case Hurst log_fn request of
     Inl e \<Rightarrow> (\<exists>m. e = DataQualityError m)
   | Inr r \<Rightarrow>
       let max_l = hurst_max_lag (length (log_returns log_fn (rq_prices request))) (rq_max_lag request);
           lags = lags_from (hurst_step max_l) max_l 8
       in 50 \<le> length (rq_prices request) \<and> list_all (\<lambda>p. isfinite p \<and> 0 < p) (rq_prices request) \<and>
          length lags \<le> 100 \<and> list_all (\<lambda>lag. 8 \<le> lag \<and> lag \<le> max_l) lags \<and>
          (if isnan (hu_exponent r) then hu_interpretation r = ''persistent/trending''
           else 0 \<le> hu_exponent r \<and> hu_exponent r \<le> 1)"
proof (cases "Hurst log_fn request")
  case (Inl e)
  then show ?thesis using Hurst_Inl by simp
next
  case (Inr r)
  note h = Hurst_Inr [OF Inr]
  have "if isnan (hu_exponent r) then hu_interpretation r = ''persistent/trending'' else 0 \<le> hu_exponent r \<and> hu_exponent r \<le> 1"
    using h(4,5) clamp_exponent by (cases "isnan (hu_exponent r)") (simp add: InterpretHurst_def, metis)
  then show ?thesis using h(1-3) hurst_lags [OF h(3)] by (simp add: Inr Let_def)
qed

text \<open>The correlation analysis gives a data quality error or a square symmetric matrix, with one row for each label in
  order; every entry above the diagonal that is a number lies between the reported minimum and maximum.\<close>

theorem correlation_matrix:
  "case Correlation request of
     Inl e \<Rightarrow> (\<exists>m. e = DataQualityError m)
   | Inr r \<Rightarrow>
       co_labels r = sort (map fst (rq_returns_map request)) \<and> length (co_matrix r) = length (co_labels r) \<and>
       list_all (\<lambda>row. length row = length (co_labels r)) (co_matrix r) \<and> symmetric (co_matrix r) \<and>
       list_all (\<lambda>(i, j). isnan (co_matrix r ! i ! j) \<or> co_min r \<le> co_matrix r ! i ! j \<and> co_matrix r ! i ! j \<le> co_max r)
         (upper_pairs (length (co_matrix r)))"
  using Correlation_Inl Correlation_Inr by (cases "Correlation request") auto

text \<open>The principal components come in the order of their explained variance, one for each component asked
  for, with as many loadings as series and as many factor returns as observations; explained ratios are
  never negative, and in every loading vector the component of largest magnitude is positive, whatever
  sorting function keeps the contract of \<open>std::sort\<close>.\<close>

theorem pca_components:
  assumes "Pca sort_fn request = Inr r" "sort_contract sort_fn"
  shows "1 \<le> rq_n_components request \<and> rq_n_components request \<le> int (length (rq_returns_matrix request)) \<and>
    length (pc_labels r) = length (rq_returns_matrix request) \<and>
    length (pc_explained_variance_ratio r) = nat (rq_n_components request) \<and>
    length (pc_loadings r) = nat (rq_n_components request) \<and>
    length (pc_factor_returns r) = nat (rq_n_components request) \<and>
    list_all (\<lambda>l. length l = length (rq_returns_matrix request) \<and> sign_convention l) (pc_loadings r) \<and>
    list_all (\<lambda>f. length f = length (rq_returns_matrix request ! 0)) (pc_factor_returns r) \<and>
    list_all nn (pc_explained_variance_ratio r) \<and>
    sorted_wrt (\<lambda>x y. isnan x \<or> isnan y \<or> y \<le> x) (pc_explained_variance_ratio r)"
  using Pca_Inr [OF assms] by simp

theorem pca_components_witness:
  "Pca sort_by pca_request = Inr \<lparr>pc_labels = [''PC1''], pc_explained_variance_ratio = [1],
     pc_loadings = [[1]], pc_factor_returns = [[lit (- (1/2)), 0, lit (1/2)]]\<rparr> \<and> sign_convention [1]"
  using pca_run pca_components [OF pca_run sort_by_contract] by simp


end
