(* ===== verification/Threads.thy ===== *)
theory Threads
  imports Main
begin

text \<open>
  Threads that run at the same time. \<open>act i s\<close> is the next atomic action of thread \<open>i\<close> in the state \<open>s\<close>,
  or \<open>None\<close> when the thread waits or is done; in a step some thread moves, whichever the scheduler picks.
  \<open>reachable\<close> is the states that can come about, \<open>follow\<close> executes one schedule.
\<close>

inductive reachable :: "('t \<Rightarrow> 's \<Rightarrow> 's option) \<Rightarrow> 's \<Rightarrow> 's \<Rightarrow> bool" for act s where
  start: "reachable act s s"
| move: "reachable act s t \<Longrightarrow> act i t = Some u \<Longrightarrow> reachable act s u"

fun follow :: "('t \<Rightarrow> 's \<Rightarrow> 's option) \<Rightarrow> 't list \<Rightarrow> 's \<Rightarrow> 's option" where
  "follow act [] s = Some s"
| "follow act (i # sched) s = (case act i s of None \<Rightarrow> None | Some t \<Rightarrow> follow act sched t)"

definition stuck :: "('t \<Rightarrow> 's \<Rightarrow> 's option) \<Rightarrow> 's \<Rightarrow> bool" where
  "stuck act s \<longleftrightarrow> (\<forall>i. act i s = None)"

lemma follow_append:
  "follow act (is @ js) s = (case follow act is s of None \<Rightarrow> None | Some t \<Rightarrow> follow act js t)"
  by (induction "is" arbitrary: s) (auto split: option.split)

lemma reachable_follow: "reachable act s t \<longleftrightarrow> (\<exists>sched. follow act sched s = Some t)"
proof
  show "reachable act s t \<Longrightarrow> \<exists>sched. follow act sched s = Some t"
  proof (induction rule: reachable.induct)
    case start
    show ?case by (rule exI [of _ "[]"]) simp
  next
    case (move t i u)
    then obtain sched where "follow act sched s = Some t" by blast
    then have "follow act (sched @ [i]) s = Some u" using move.hyps by (simp add: follow_append)
    then show ?case ..
  qed
next
  have "follow act sched u = Some t \<Longrightarrow> reachable act s u \<Longrightarrow> reachable act s t" for sched u
    by (induction sched arbitrary: u) (auto split: option.splits intro: reachable.move)
  then show "\<exists>sched. follow act sched s = Some t \<Longrightarrow> reachable act s t" by (blast intro: reachable.start)
qed

text \<open>What every action keeps holds in every reachable state.\<close>

lemma reachable_inv:
  assumes "reachable act s t" "I s" "\<And>i u v. I u \<Longrightarrow> act i u = Some v \<Longrightarrow> I v"
  shows "I t"
  using assms(1) by (induction rule: reachable.induct) (auto intro: assms(2,3))

lemma follow_inv:
  assumes "follow act sched s = Some t" "I s" "\<And>i u v. I u \<Longrightarrow> act i u = Some v \<Longrightarrow> I v"
  shows "I t"
  using assms reachable_follow [of act s t] reachable_inv [of act s t I] by blast

text \<open>Where every action counts a measure down, a run has no more steps than the measure of its start.\<close>

lemma follow_measure:
  assumes "follow act sched s = Some t" "I s" "\<And>i u v. I u \<Longrightarrow> act i u = Some v \<Longrightarrow> I v"
    and "\<And>i u v. I u \<Longrightarrow> act i u = Some v \<Longrightarrow> m v < (m u :: nat)"
  shows "length sched + m t \<le> m s"
  using assms(1,2)
proof (induction sched arbitrary: s)
  case (Cons i sched)
  then obtain u where u: "act i s = Some u" "follow act sched u = Some t" by (auto split: option.splits)
  then show ?case using Cons.IH [OF u(2) assms(3)] Cons.prems(2) assms(4) [of s i u] by fastforce
qed simp

lemma sum_one_less:
  assumes "(i :: nat) < n" "f i < (g i :: nat)" "\<And>j. j \<noteq> i \<Longrightarrow> f j = g j"
  shows "sum f {..<n} < sum g {..<n}"
proof (rule sum_strict_mono_ex1)
  show "\<forall>j \<in> {..<n}. f j \<le> g j" using assms(2,3) by (metis less_imp_le_nat order_refl)
  show "\<exists>j \<in> {..<n}. f j < g j" using assms(1,2) by blast
qed simp

end
