(* ===== verification/Market_Data.thy ===== *)
theory Market_Data
  imports Core
begin

text \<open>
  \<^verbatim>\<open>marketdata/\<close>: the cache, the provider interface with the synthetic provider, and the service that
  resolves a provider and caches its series. \<^verbatim>\<open>FormatDate\<close> is the library \<^verbatim>\<open>date::format("%F", d)\<close>, an
  argument of the definitions that use it; what is used of it is \<open>iso_dates\<close>.
\<close>

section \<open>The cache\<close>

type_synonym InMemoryCache = "string \<rightharpoonup> OHLCV list"

definition InMemoryCache_Get :: "InMemoryCache \<Rightarrow> string \<Rightarrow> OHLCV list option" where
  "InMemoryCache_Get data k = data k"

definition InMemoryCache_Put :: "InMemoryCache \<Rightarrow> string \<Rightarrow> OHLCV list \<Rightarrow> InMemoryCache" where
  "InMemoryCache_Put data k series = data(k \<mapsto> series)"

section \<open>Providers\<close>

record FetchResult =
  fe_bars :: "OHLCV list"
  fe_error :: "msg option"

record Provider =
  pv_name :: string
  pv_fetch :: "Ticker \<Rightarrow> BarInterval \<Rightarrow> DateRange \<Rightarrow> OHLCV list result"
  pv_fetch_async :: "Ticker \<Rightarrow> BarInterval \<Rightarrow> DateRange \<Rightarrow> FetchResult result"
  pv_ticker_info :: "Ticker \<Rightarrow> TickerInfo result"
  pv_ratios :: "Ticker \<Rightarrow> FinancialRatios result"
  pv_metadata :: "DataSetMetadata result"

subsection \<open>The synthetic provider\<close>

text \<open>A \<^verbatim>\<open>system_clock::time_point\<close> counts nanoseconds in a signed 64-bit integer; overflow is undefined.\<close>

definition ns_per_day :: int where
  "ns_per_day = 86400 * 10 ^ 9"

definition AddDays :: "Date \<Rightarrow> int \<Rightarrow> Date result" where
  "AddDays d days =
     (let r = d + days * ns_per_day
      in if - (2 ^ 63) \<le> r \<and> r < 2 ^ 63 then Inr r else Inl (UndefinedBehaviour ''time_point overflow''))"

definition synthetic_bar :: "double \<Rightarrow> Date \<Rightarrow> OHLCV" where
  "synthetic_bar price d =
     (let opn = price; cls = price + 1;
          high = dmax opn cls + lit (1/2);
          low = dmin opn cls - lit (1/2)
      in \<lparr>bar_date = d, bar_open = opn, bar_high = high, bar_low = low, bar_close = cls, bar_volume = 1000000\<rparr>)"

function synthetic_loop :: "double \<Rightarrow> Date \<Rightarrow> Date \<Rightarrow> OHLCV list result" where
  "synthetic_loop price d stop =
     (if d \<le> stop then
        (case AddDays d 1 of
           Inl e \<Rightarrow> Inl e
         | Inr d' \<Rightarrow>
             let bar = synthetic_bar price d
             in ebind (synthetic_loop (bar_close bar) d' stop) (\<lambda>bars. Inr (bar # bars)))
      else Inr [])"
  by pat_completeness auto
termination
  by (relation "measure (\<lambda>(price, d, stop). nat (stop - d + 1))")
    (auto simp: AddDays_def Let_def ns_per_day_def split: if_splits)

declare synthetic_loop.simps [simp del]

definition SyntheticProvider_Fetch :: "Ticker \<Rightarrow> BarInterval \<Rightarrow> DateRange \<Rightarrow> OHLCV list result" where
  "SyntheticProvider_Fetch ticker interval rng = synthetic_loop (lit 100) (range_start rng) (range_end rng)"

text \<open>
  The value of the future, for a caller that keeps \<^verbatim>\<open>ticker\<close> and \<^verbatim>\<open>range\<close> alive until it is ready: the
  lambda holds them by reference.
\<close>

definition SyntheticProvider_FetchAsync :: "Ticker \<Rightarrow> BarInterval \<Rightarrow> DateRange \<Rightarrow> FetchResult result" where
  "SyntheticProvider_FetchAsync ticker interval rng =
     (case SyntheticProvider_Fetch ticker interval rng of
        Inr bars \<Rightarrow> Inr \<lparr>fe_bars = bars, fe_error = None\<rparr>
      | Inl (UndefinedBehaviour u) \<Rightarrow> Inl (UndefinedBehaviour u)
      | Inl e \<Rightarrow> Inr \<lparr>fe_bars = [], fe_error = Some (exn_what e)\<rparr>)"

definition SyntheticProvider_GetTickerInfo :: "Ticker \<Rightarrow> TickerInfo result" where
  "SyntheticProvider_GetTickerInfo ticker =
     Inr \<lparr>ti_symbol = tk_symbol ticker, ti_name = tk_symbol ticker @ '' Inc.'', ti_sector = ''Technology'',
       ti_industry = ''Software'', ti_employees = 1000, ti_city = ''New York'', ti_country = ''USA'',
       ti_website = ''https://example.com''\<rparr>"

definition SyntheticProvider_GetFinancialRatios :: "Ticker \<Rightarrow> FinancialRatios result" where
  "SyntheticProvider_GetFinancialRatios ticker =
     Inr \<lparr>fr_symbol = tk_symbol ticker, fr_forward_pe = [], fr_trailing_pe = [], fr_price_to_book = [],
       fr_debt_to_equity = [], fr_roe = [], fr_profit_margins = [], fr_dividend_yield = [], fr_market_cap = 0\<rparr>"

definition SyntheticProvider_GetMetadata :: "Date \<Rightarrow> DataSetMetadata result" where
  "SyntheticProvider_GetMetadata now =
     Inr \<lparr>md_provider = ''synthetic'', md_adjusted = False, md_survivorship_free = False,
       md_point_in_time = False, md_frequency = ''daily'', md_timezone = ''UTC'', md_retrieved_at = now\<rparr>"

definition SyntheticProvider :: "Date \<Rightarrow> Provider" where
  "SyntheticProvider now =
     \<lparr>pv_name = ''synthetic'', pv_fetch = SyntheticProvider_Fetch, pv_fetch_async = SyntheticProvider_FetchAsync,
      pv_ticker_info = SyntheticProvider_GetTickerInfo, pv_ratios = SyntheticProvider_GetFinancialRatios,
      pv_metadata = SyntheticProvider_GetMetadata now\<rparr>"

section \<open>The service\<close>

record 'c Service =
  sv_default_provider :: string
  sv_providers :: "string \<rightharpoonup> Provider"
  sv_cache :: 'c

definition make_Service :: "string \<Rightarrow> 'c \<Rightarrow> 'c Service" where
  "make_Service default_provider cache =
     \<lparr>sv_default_provider = default_provider, sv_providers = Map.empty, sv_cache = cache\<rparr>"

definition Register :: "Provider \<Rightarrow> 'c Service \<Rightarrow> 'c Service" where
  "Register provider svc = svc\<lparr>sv_providers := (sv_providers svc)(pv_name provider \<mapsto> provider)\<rparr>"

definition ResolveProvider :: "'c Service \<Rightarrow> string \<Rightarrow> Provider result" where
  "ResolveProvider svc name = of_option (ProviderNotAvailableError name) (sv_providers svc name)"

definition CacheKey :: "(Date \<Rightarrow> string) \<Rightarrow> string \<Rightarrow> Ticker \<Rightarrow> BarInterval \<Rightarrow> DateRange \<Rightarrow> string" where
  "CacheKey FormatDate provider ticker interval rng =
     provider @ '':'' @ tk_symbol ticker @ '':'' @ BarInterval_ToString interval @ '':'' @
     FormatDate (range_start rng) @ '':'' @ FormatDate (range_end rng)"

definition provider_or_default :: "'c Service \<Rightarrow> string \<Rightarrow> string" where
  "provider_or_default svc provider_name = (if provider_name = [] then sv_default_provider svc else provider_name)"

definition Service_Fetch ::
    "(Date \<Rightarrow> string) \<Rightarrow> ('c \<Rightarrow> string \<Rightarrow> OHLCV list option) \<Rightarrow> ('c \<Rightarrow> string \<Rightarrow> OHLCV list \<Rightarrow> 'c) \<Rightarrow>
     'c Service \<Rightarrow> Ticker \<Rightarrow> BarInterval \<Rightarrow> DateRange \<Rightarrow> string \<Rightarrow> OHLCV list result \<times> 'c Service" where
  "Service_Fetch FormatDate Get Put svc ticker interval rng provider_name =
     (let name = provider_or_default svc provider_name in
      (case ResolveProvider svc name of
         Inl e \<Rightarrow> (Inl e, svc)
       | Inr provider \<Rightarrow>
           let k = CacheKey FormatDate name ticker interval rng in
           (case Get (sv_cache svc) k of
              Some cached \<Rightarrow> (Inr cached, svc)
            | None \<Rightarrow>
                (case pv_fetch provider ticker interval rng of
                   Inl e \<Rightarrow> (Inl e, svc)
                 | Inr series \<Rightarrow> (Inr series, svc\<lparr>sv_cache := Put (sv_cache svc) k series\<rparr>)))))"

definition Service_FetchAsync ::
    "'c Service \<Rightarrow> Ticker \<Rightarrow> BarInterval \<Rightarrow> DateRange \<Rightarrow> string \<Rightarrow> FetchResult result" where
  "Service_FetchAsync svc ticker interval rng provider_name =
     (let name = provider_or_default svc provider_name
      in ebind (ResolveProvider svc name) (\<lambda>provider. pv_fetch_async provider ticker interval rng))"

definition Service_GetTickerInfo :: "'c Service \<Rightarrow> Ticker \<Rightarrow> TickerInfo result" where
  "Service_GetTickerInfo svc ticker =
     ebind (ResolveProvider svc (sv_default_provider svc)) (\<lambda>provider. pv_ticker_info provider ticker)"

definition Service_GetFinancialRatios :: "'c Service \<Rightarrow> Ticker \<Rightarrow> FinancialRatios result" where
  "Service_GetFinancialRatios svc ticker =
     ebind (ResolveProvider svc (sv_default_provider svc)) (\<lambda>provider. pv_ratios provider ticker)"

definition Service_GetMetadata :: "'c Service \<Rightarrow> DataSetMetadata result" where
  "Service_GetMetadata svc = ebind (ResolveProvider svc (sv_default_provider svc)) pv_metadata"

end
