(* ===== verification/Market_Data_Facts.thy ===== *)
theory Market_Data_Facts
  imports Market_Data
begin

text \<open>
  The cache as an interface with its law, the service over any cache that keeps it, and the series
  of the synthetic provider.
\<close>

section \<open>The service over a cache\<close>

text \<open>
  The requests the callers make: no exchange, a range of whole days. The cache is sound for a set of
  provider names when it holds, under the key of such a request, what the provider answers.
\<close>

definition day_request :: "Ticker \<Rightarrow> DateRange \<Rightarrow> bool" where
  "day_request t r \<longleftrightarrow> tk_exchange t = [] \<and> ns_per_day dvd range_start r \<and> ns_per_day dvd range_end r"

definition cache_sound :: "('c \<Rightarrow> string \<Rightarrow> OHLCV list option) \<Rightarrow> (Date \<Rightarrow> string) \<Rightarrow> 'c Service \<Rightarrow> bool" where
  "cache_sound Get fd svc \<longleftrightarrow> (\<forall>n p t i r s. sv_providers svc n = Some p \<longrightarrow> day_request t r \<longrightarrow>
     Get (sv_cache svc) (CacheKey fd n t i r) = Some s \<longrightarrow> pv_fetch p t i r = Inr s)"

locale series_cache =
  fixes Get :: "'c \<Rightarrow> string \<Rightarrow> OHLCV list option" and Put :: "'c \<Rightarrow> string \<Rightarrow> OHLCV list \<Rightarrow> 'c"
  assumes get_put: "Get (Put c k s) k' = (if k' = k then Some s else Get c k')"
begin

text \<open>A fetch that succeeded is answered from the cache, whatever the provider does later.\<close>

lemma fetch_again:
  assumes "Service_Fetch fd Get Put svc t i r n = (Inr s, svc')"
    and "sv_providers svc'' (provider_or_default svc n) \<noteq> None" "sv_cache svc'' = sv_cache svc'"
    and "sv_default_provider svc'' = sv_default_provider svc"
  shows "Service_Fetch fd Get Put svc'' t i r n = (Inr s, svc'')"
proof -
  have "Get (sv_cache svc') (CacheKey fd (provider_or_default svc n) t i r) = Some s"
    using assms(1) by (auto simp: Service_Fetch_def Let_def get_put split: sum.splits option.splits)
  moreover have "provider_or_default svc'' n = provider_or_default svc n"
    using assms(4) by (simp add: provider_or_default_def)
  ultimately show ?thesis using assms(2,3)
    by (auto simp: Service_Fetch_def Let_def ResolveProvider_def split: sum.splits option.splits)
qed

lemma fetch_frame:
  assumes "Service_Fetch fd Get Put svc t i r n = (x, svc')"
  shows "sv_providers svc' = sv_providers svc" "sv_default_provider svc' = sv_default_provider svc"
    "k \<noteq> CacheKey fd (provider_or_default svc n) t i r \<Longrightarrow> Get (sv_cache svc') k = Get (sv_cache svc) k"
  using assms by (auto simp: Service_Fetch_def Let_def get_put split: sum.splits option.splits)

end

interpretation in_memory: series_cache InMemoryCache_Get InMemoryCache_Put
  by unfold_locales (simp add: InMemoryCache_Get_def InMemoryCache_Put_def)

section \<open>The cache key\<close>

text \<open>What is used of \<^verbatim>\<open>date::format\<close>: ISO dates name the day, and have no colon.\<close>

definition iso_dates :: "(Date \<Rightarrow> string) \<Rightarrow> bool" where
  "iso_dates fd \<longleftrightarrow> (\<forall>a b. fd a = fd b \<longleftrightarrow> a div ns_per_day = b div ns_per_day) \<and> (\<forall>a. CHR '':'' \<notin> set (fd a))"

lemma split_first:
  "c \<notin> set xs \<Longrightarrow> c \<notin> set ys \<Longrightarrow> xs @ c # us = ys @ c # vs \<Longrightarrow> xs = ys \<and> us = vs"
proof (induction xs arbitrary: ys)
  case Nil
  then show ?case by (cases ys) auto
next
  case (Cons x xs)
  then show ?case by (cases ys) auto
qed

lemma split_last:
  assumes "c \<notin> set us" "c \<notin> set vs" "xs @ c # us = ys @ c # vs"
  shows "xs = ys \<and> us = vs"
proof -
  have "rev us @ c # rev xs = rev vs @ c # rev ys" using arg_cong [OF assms(3), of rev] by simp
  from split_first [OF _ _ this] assms(1,2) show ?thesis by simp
qed

lemma BarInterval_no_colon: "CHR '':'' \<notin> set (BarInterval_ToString i)"
  by (cases i) auto

lemma BarInterval_inj: "BarInterval_ToString i = BarInterval_ToString j \<Longrightarrow> i = j"
  by (cases i; cases j) auto

lemma CacheKey_inj:
  assumes "iso_dates fd" "CHR '':'' \<notin> set p" "CHR '':'' \<notin> set q"
    and "CacheKey fd p t i r = CacheKey fd q u j s"
  shows "p = q \<and> tk_symbol t = tk_symbol u \<and> i = j \<and>
    range_start r div ns_per_day = range_start s div ns_per_day \<and>
    range_end r div ns_per_day = range_end s div ns_per_day"
proof -
  let ?c = "CHR '':''"
  have d: "?c \<notin> set (fd a)" "fd a = fd b \<Longrightarrow> a div ns_per_day = b div ns_per_day" for a b
    using assms(1) by (auto simp: iso_dates_def)
  from assms(4) have "p @ ?c # (tk_symbol t @ ?c # BarInterval_ToString i @ ?c # fd (range_start r) @ ?c # fd (range_end r)) =
      q @ ?c # (tk_symbol u @ ?c # BarInterval_ToString j @ ?c # fd (range_start s) @ ?c # fd (range_end s))"
    by (simp add: CacheKey_def)
  from split_first [OF assms(2,3) this] have pq: "p = q"
    and "((tk_symbol t @ ?c # BarInterval_ToString i) @ ?c # fd (range_start r)) @ ?c # fd (range_end r) =
      ((tk_symbol u @ ?c # BarInterval_ToString j) @ ?c # fd (range_start s)) @ ?c # fd (range_end s)"
    by auto
  from split_last [OF d(1) d(1) this(2)] have e: "fd (range_end r) = fd (range_end s)"
    and "(tk_symbol t @ ?c # BarInterval_ToString i) @ ?c # fd (range_start r) =
      (tk_symbol u @ ?c # BarInterval_ToString j) @ ?c # fd (range_start s)" by auto
  from split_last [OF d(1) d(1) this(2)] have b: "fd (range_start r) = fd (range_start s)"
    and "tk_symbol t @ ?c # BarInterval_ToString i = tk_symbol u @ ?c # BarInterval_ToString j" by auto
  from split_last [OF BarInterval_no_colon BarInterval_no_colon this(2)]
  have "tk_symbol t = tk_symbol u" "i = j" using BarInterval_inj by auto
  then show ?thesis using pq d(2) [OF e] d(2) [OF b] by simp
qed

context series_cache
begin

lemma day_request_eq:
  assumes "day_request t r" "day_request u s" "tk_symbol t = tk_symbol u"
    and "range_start r div ns_per_day = range_start s div ns_per_day"
    and "range_end r div ns_per_day = range_end s div ns_per_day"
  shows "t = u \<and> r = s"
proof -
  have "range_start r = range_start s" "range_end r = range_end s"
    using assms unfolding day_request_def by (metis dvd_div_mult_self)+
  then show ?thesis using assms by (simp add: day_request_def)
qed

text \<open>A provider's answer put under its key keeps the cache sound.\<close>

lemma put_sound:
  assumes "iso_dates fd" "\<forall>n \<in> dom (sv_providers svc). CHR '':'' \<notin> set n"
    and "cache_sound Get fd svc" "day_request t r" "sv_providers svc n = Some p" "pv_fetch p t i r = Inr s"
  shows "cache_sound Get fd (svc\<lparr>sv_cache := Put (sv_cache svc) (CacheKey fd n t i r) s\<rparr>)"
proof -
  let ?k = "CacheKey fd n t i r"
  have "pv_fetch p' t' i' r' = Inr s'"
    if "sv_providers svc n' = Some p'" "day_request t' r'"
      "Get (Put (sv_cache svc) ?k s) (CacheKey fd n' t' i' r') = Some s'" for n' p' t' i' r' s'
  proof (cases "CacheKey fd n' t' i' r' = ?k")
    case True
    have "CHR '':'' \<notin> set n'" "CHR '':'' \<notin> set n" using assms(2,5) that(1) by auto
    from CacheKey_inj [OF assms(1) this True] day_request_eq [OF that(2) assms(4)]
    have "n' = n" "t' = t" "i' = i" "r' = r" by auto
    then show ?thesis using that True assms(5,6) by (simp add: get_put)
  next
    case False
    then show ?thesis using that assms(3) unfolding cache_sound_def by (simp add: get_put)
  qed
  then show ?thesis by (simp add: cache_sound_def)
qed

text \<open>Fetches keep the cache sound, and with a sound cache a fetch returns the provider's own answer.\<close>

lemma fetch_sound:
  assumes "iso_dates fd" "\<forall>n \<in> dom (sv_providers svc). CHR '':'' \<notin> set n"
    and "cache_sound Get fd svc" "day_request t r" "Service_Fetch fd Get Put svc t i r n = (x, svc')"
  shows "cache_sound Get fd svc' \<and> x = ebind (ResolveProvider svc (provider_or_default svc n)) (\<lambda>p. pv_fetch p t i r)"
proof (cases "sv_providers svc (provider_or_default svc n)")
  case None
  then have "Service_Fetch fd Get Put svc t i r n = (Inl (ProviderNotAvailableError (provider_or_default svc n)), svc)"
    by (simp add: Service_Fetch_def Let_def ResolveProvider_def)
  then have "x = Inl (ProviderNotAvailableError (provider_or_default svc n))" "svc' = svc"
    using assms(5) by (metis Pair_inject)+
  then show ?thesis using None assms(3) by (simp add: ResolveProvider_def)
next
  case (Some p)
  let ?n = "provider_or_default svc n"
  let ?k = "CacheKey fd ?n t i r"
  show ?thesis
  proof (cases "Get (sv_cache svc) ?k")
    case (Some s)
    then have "pv_fetch p t i r = Inr s" using \<open>sv_providers svc ?n = Some p\<close> assms(3,4) unfolding cache_sound_def by blast
    then show ?thesis using Some \<open>sv_providers svc ?n = Some p\<close> assms(3,5)
      by (auto simp: Service_Fetch_def Let_def ResolveProvider_def)
  next
    case None
    show ?thesis
    proof (cases "pv_fetch p t i r")
      case (Inl e)
      then show ?thesis using None Some assms(3,5) by (auto simp: Service_Fetch_def Let_def ResolveProvider_def)
    next
      case (Inr s)
      then have x: "x = Inr s" "svc' = svc\<lparr>sv_cache := Put (sv_cache svc) ?k s\<rparr>"
        using None Some assms(5) by (auto simp: Service_Fetch_def Let_def ResolveProvider_def)
      show ?thesis using put_sound [OF assms(1-4) Some Inr] x Some Inr by (simp add: ResolveProvider_def)
    qed
  qed
qed

end

section \<open>The synthetic series\<close>

definition synthetic_day :: "nat \<Rightarrow> Date \<Rightarrow> nat \<Rightarrow> OHLCV" where
  "synthetic_day n d i = \<lparr>bar_date = d + int i * ns_per_day, bar_open = lit (of_nat (n + i)),
     bar_high = lit (of_nat (n + i + 1) + 1/2), bar_low = lit (of_nat (n + i) - 1/2),
     bar_close = lit (of_nat (n + i + 1)), bar_volume = 1000000\<rparr>"

lemma repr_nat: "n \<le> 2 ^ 53 \<Longrightarrow> repr (of_nat n)"
  using repr_of_int [of "int n"] by simp

lemma repr_halves: "\<bar>m\<bar> \<le> 2 ^ 53 \<Longrightarrow> repr (of_int m / 2)"
  using repr_half [of m 1] by simp

lemma synthetic_bar_exact:
  assumes "1 \<le> n" "n < 2 ^ 51"
  shows "synthetic_bar (lit (of_nat n)) d = synthetic_day n d 0"
proof -
  have r: "repr (of_nat n)" "repr (of_nat n + 1)" "repr (1/2)"
    using repr_nat [of n] repr_nat [of "Suc n"] repr_half [of 1 1] assms by (simp_all add: add.commute)
  have c: "lit (of_nat n) + 1 = lit (of_nat n + 1)" using r by (simp add: lit_add flip: lit_1)
  have "repr (of_int (2 * int n + 3) / 2)" "repr (of_int (2 * int n - 1) / 2)"
    using assms by (intro repr_halves; simp)+
  then have r2: "repr (of_nat n + 1 + 1/2)" "repr (of_nat n - 1/2)" by (simp_all add: field_simps)
  have "lit (of_nat n) < lit (of_nat n + 1)" using r by (simp add: lit_less)
  then have m: "dmax (lit (of_nat n)) (lit (of_nat n + 1)) = lit (of_nat n + 1)"
    "dmin (lit (of_nat n)) (lit (of_nat n + 1)) = lit (of_nat n)"
    by (auto simp: dmax_def dmin_def dest: less_asym_d)
  have h: "lit (of_nat n + 1) + lit (1/2) = lit (of_nat n + 1 + 1/2)" "lit (of_nat n) - lit (1/2) = lit (of_nat n - 1/2)"
    using r by (simp_all only: lit_add lit_sub)
  show ?thesis unfolding synthetic_bar_def synthetic_day_def Let_def c m h by (simp add: add.commute)
qed

lemma synthetic_loop_days:
  assumes "- (2 ^ 63) \<le> d" "d \<le> stop + ns_per_day" "stop + ns_per_day < 2 ^ 63" "1 \<le> n"
    and "n + nat ((stop - d) div ns_per_day + 1) < 2 ^ 51"
  shows "synthetic_loop (lit (of_nat n)) d stop =
    Inr (map (synthetic_day n d) [0..<nat ((stop - d) div ns_per_day + 1)])"
  using assms
proof (induction "nat ((stop - d) div ns_per_day + 1)" arbitrary: n d)
  case 0
  have pos: "0 < ns_per_day" by (simp add: ns_per_day_def)
  have "\<not> d \<le> stop"
  proof
    assume "d \<le> stop"
    then have "0 \<le> (stop - d) div ns_per_day" using pos by (simp add: pos_imp_zdiv_nonneg_iff)
    then show False using 0 by simp
  qed
  then show ?case using 0 by (simp add: synthetic_loop.simps)
next
  case (Suc m)
  have pos: "0 < ns_per_day" by (simp add: ns_per_day_def)
  have q: "(stop - d) div ns_per_day = int m" using Suc.hyps(2) by linarith
  then have le: "d \<le> stop" using pos by (metis diff_ge_0_iff_ge of_nat_0_le_iff pos_imp_zdiv_nonneg_iff)
  let ?d = "d + ns_per_day"
  have a: "AddDays d 1 = Inr ?d" using le Suc.prems pos by (simp add: AddDays_def Let_def)
  have q': "(stop - ?d) div ns_per_day + 1 = int m"
    using div_add_self2 [of ns_per_day "stop - ?d"] pos q by (simp add: algebra_simps)
  have IH: "synthetic_loop (lit (of_nat (Suc n))) ?d stop = Inr (map (synthetic_day (Suc n) ?d) [0..<m])"
    using Suc.hyps(1) [of ?d "Suc n"] Suc.prems q q' le pos by (simp add: nat_add_distrib)
  have b: "synthetic_bar (lit (of_nat n)) d = synthetic_day n d 0" using Suc.prems by (intro synthetic_bar_exact) auto
  have s: "synthetic_day (Suc n) ?d i = synthetic_day n d (Suc i)" for i
    by (simp add: synthetic_day_def algebra_simps)
  have c: "bar_close (synthetic_day n d 0) = lit (of_nat (Suc n))" by (simp add: synthetic_day_def add.commute)
  show ?case using le Suc.hyps(2)[symmetric]
    by (simp add: synthetic_loop.simps [of _ d] a b c IH s map_upt_Suc Let_def del: upt_Suc of_nat_Suc)
qed

lemma SyntheticProvider_Fetch_days:
  assumes "- (2 ^ 63) \<le> range_start r" "range_start r \<le> range_end r" "range_end r + ns_per_day < 2 ^ 63"
  shows "SyntheticProvider_Fetch t i r = Inr (map (synthetic_day 100 (range_start r))
      [0..<nat ((range_end r - range_start r) div ns_per_day + 1)])"
proof -
  have "range_end r - range_start r < 2 ^ 64" using assms by (simp add: ns_per_day_def)
  then have "(range_end r - range_start r) div ns_per_day \<le> 2 ^ 64 div ns_per_day"
    by (intro zdiv_mono1) (simp_all add: ns_per_day_def)
  then have "100 + nat ((range_end r - range_start r) div ns_per_day + 1) < 2 ^ 51" by (simp add: ns_per_day_def)
  then have "synthetic_loop (lit (of_nat 100)) (range_start r) (range_end r) =
      Inr (map (synthetic_day 100 (range_start r)) [0..<nat ((range_end r - range_start r) div ns_per_day + 1)])"
    using assms by (intro synthetic_loop_days) (auto simp: ns_per_day_def)
  then show ?thesis by (simp add: SyntheticProvider_Fetch_def)
qed

text \<open>A bar is consistent when its low and its high enclose its open and its close.\<close>

definition consistent_bar :: "OHLCV \<Rightarrow> bool" where
  "consistent_bar b \<longleftrightarrow> bar_low b \<le> bar_open b \<and> bar_low b \<le> bar_close b \<and>
     bar_open b \<le> bar_high b \<and> bar_close b \<le> bar_high b \<and> 0 \<le> bar_volume b"

lemma synthetic_day_consistent: "consistent_bar (synthetic_day n d i)"
  by (auto simp: consistent_bar_def synthetic_day_def intro!: lit_mono)

section \<open>Properties\<close>

text \<open>The cache never answers for another request. For callers that ask for whole days without an exchange,
  with ISO date texts and provider names without a colon, a cache that holds only providers' own answers still does
  so after a fetch, and the fetch returns what the provider itself would return.\<close>

theorem service_cache_sound:
  assumes "iso_dates fd" "\<forall>n \<in> dom (sv_providers svc). CHR '':'' \<notin> set n"
    and "cache_sound InMemoryCache_Get fd svc" "day_request t r"
    and "Service_Fetch fd InMemoryCache_Get InMemoryCache_Put svc t i r n = (x, svc')"
  shows "cache_sound InMemoryCache_Get fd svc' \<and>
    x = ebind (ResolveProvider svc (provider_or_default svc n)) (\<lambda>p. pv_fetch p t i r)"
  by (rule in_memory.fetch_sound [OF assms])

definition sample_dates :: "Date \<Rightarrow> string" where
  "sample_dates d = (let n = d div ns_per_day in (if n < 0 then ''-'' else ''+'') @ replicate (nat \<bar>n\<bar>) CHR ''x'')"

lemma sample_dates_iso: "iso_dates sample_dates"
  by (auto simp: iso_dates_def sample_dates_def Let_def)

definition sample_service :: "InMemoryCache Service" where
  "sample_service = Register (SyntheticProvider 0) (make_Service ''synthetic'' Map.empty)"

lemma sample_service_facts:
  "sv_providers sample_service ''synthetic'' = Some (SyntheticProvider 0)" "dom (sv_providers sample_service) = {''synthetic''}"
  "cache_sound InMemoryCache_Get fd sample_service" "provider_or_default sample_service [] = ''synthetic''"
  by (simp_all add: sample_service_def Register_def make_Service_def SyntheticProvider_def cache_sound_def
      InMemoryCache_Get_def provider_or_default_def)

definition sample_range :: DateRange where
  "sample_range = \<lparr>range_start = 0, range_end = 2 * ns_per_day\<rparr>"

lemma sample_day_request: "day_request \<lparr>tk_symbol = ''AAPL'', tk_exchange = []\<rparr> sample_range"
  by (simp add: day_request_def sample_range_def)

theorem service_cache_sound_witness:
  "\<exists>svc'. Service_Fetch sample_dates InMemoryCache_Get InMemoryCache_Put sample_service
      \<lparr>tk_symbol = ''AAPL'', tk_exchange = []\<rparr> Daily sample_range [] =
        (SyntheticProvider_Fetch \<lparr>tk_symbol = ''AAPL'', tk_exchange = []\<rparr> Daily sample_range, svc') \<and>
     cache_sound InMemoryCache_Get sample_dates svc'"
proof -
  let ?t = "\<lparr>tk_symbol = ''AAPL'', tk_exchange = []\<rparr>"
  obtain x svc' where f: "Service_Fetch sample_dates InMemoryCache_Get InMemoryCache_Put sample_service ?t Daily
      sample_range [] = (x, svc')" by (cases "Service_Fetch sample_dates InMemoryCache_Get InMemoryCache_Put sample_service ?t
      Daily sample_range []")
  have "\<forall>n \<in> dom (sv_providers sample_service). CHR '':'' \<notin> set n" by (simp add: sample_service_facts)
  from service_cache_sound [OF sample_dates_iso this sample_service_facts(3) sample_day_request f] f
  show ?thesis by (simp add: ResolveProvider_def sample_service_facts) (simp add: SyntheticProvider_def)
qed

text \<open>Once a fetch has succeeded, the same fetch gives the same series again and changes nothing, even if the
  provider under that name has been replaced since: a registration does not touch the cache.\<close>

theorem fetch_cached:
  assumes "Service_Fetch fd InMemoryCache_Get InMemoryCache_Put svc t i r n = (Inr s, svc')"
    and "svc'' = Register provider svc'"
  shows "Service_Fetch fd InMemoryCache_Get InMemoryCache_Put svc'' t i r n = (Inr s, svc'')"
proof (rule in_memory.fetch_again [OF assms(1)])
  have "sv_providers svc (provider_or_default svc n) \<noteq> None"
    using assms(1) by (cases "sv_providers svc (provider_or_default svc n)")
      (auto simp: Service_Fetch_def Let_def ResolveProvider_def)
  then show "sv_providers svc'' (provider_or_default svc n) \<noteq> None"
    using in_memory.fetch_frame(1) [OF assms(1)] assms(2) by (simp add: Register_def)
  show "sv_cache svc'' = sv_cache svc'" "sv_default_provider svc'' = sv_default_provider svc"
    using in_memory.fetch_frame(2) [OF assms(1)] assms(2) by (simp_all add: Register_def)
qed

text \<open>The synthetic provider's series has one bar per day of the range, with opens 100, 101, ... exactly
  (no rounding), each close one above its open and the next open, and every bar is consistent.\<close>

theorem synthetic_series:
  assumes "- (2 ^ 63) \<le> range_start r" "range_start r \<le> range_end r" "range_end r + ns_per_day < 2 ^ 63"
  shows "\<exists>bars. SyntheticProvider_Fetch t i r = Inr bars \<and>
    length bars = nat ((range_end r - range_start r) div ns_per_day + 1) \<and> (\<forall>b \<in> set bars. consistent_bar b) \<and>
    (\<forall>k < length bars. bar_date (bars ! k) = range_start r + int k * ns_per_day \<and>
       bar_open (bars ! k) = lit (of_nat (100 + k)) \<and> bar_close (bars ! k) = lit (of_nat (101 + k)))"
proof (intro exI conjI ballI)
  show "SyntheticProvider_Fetch t i r = Inr (map (synthetic_day 100 (range_start r))
      [0..<nat ((range_end r - range_start r) div ns_per_day + 1)])"
    by (rule SyntheticProvider_Fetch_days [OF assms])
qed (auto simp: synthetic_day_consistent, auto simp: synthetic_day_def)

theorem synthetic_series_witness:
  "\<exists>bars. SyntheticProvider_Fetch \<lparr>tk_symbol = ''AAPL'', tk_exchange = []\<rparr> Daily sample_range = Inr bars \<and> length bars = 3"
  using synthetic_series [of sample_range "\<lparr>tk_symbol = ''AAPL'', tk_exchange = []\<rparr>" Daily]
  by (auto simp: sample_range_def ns_per_day_def)

theorem fetch_cached_witness:
  "\<exists>s svc'. Service_Fetch sample_dates InMemoryCache_Get InMemoryCache_Put sample_service
      \<lparr>tk_symbol = ''AAPL'', tk_exchange = []\<rparr> Daily sample_range [] = (Inr s, svc') \<and>
     fst (Service_Fetch sample_dates InMemoryCache_Get InMemoryCache_Put
       (Register (SyntheticProvider 9) svc') \<lparr>tk_symbol = ''AAPL'', tk_exchange = []\<rparr> Daily sample_range []) = Inr s"
proof -
  let ?t = "\<lparr>tk_symbol = ''AAPL'', tk_exchange = []\<rparr>"
  obtain bars where "SyntheticProvider_Fetch ?t Daily sample_range = Inr bars"
    using SyntheticProvider_Fetch_days [of sample_range ?t Daily] by (auto simp: sample_range_def ns_per_day_def)
  then obtain svc' where f: "Service_Fetch sample_dates InMemoryCache_Get InMemoryCache_Put sample_service ?t Daily
      sample_range [] = (Inr bars, svc')"
    by (simp add: Service_Fetch_def Let_def sample_service_facts ResolveProvider_def InMemoryCache_Get_def)
      (simp add: SyntheticProvider_def sample_service_def Register_def make_Service_def)
  show ?thesis using fetch_cached [OF f refl] f by auto
qed

end
