(* ===== verification/Concurrent_Fetch.thy ===== *)
theory Concurrent_Fetch
  imports Threads Market_Data_Facts
begin

text \<open>
  \<^verbatim>\<open>Service::Fetch\<close> under the threads of the HTTP server. The service's mutex guards the table of providers, the
  cache has its own, and nothing is held in between: a fetch is cut into the lookup of the provider, the lookup in
  the cache, the provider's answer and the entry in the cache, with the steps of other fetches anywhere between.
\<close>

section \<open>The actions of a fetch\<close>

type_synonym fetch_request = "Ticker \<times> BarInterval \<times> DateRange \<times> string"

datatype fetch_pc = Asking | Resolved string Provider | Missed string Provider | Answered string "OHLCV list"

record 'c Fetchers =
  ft_service :: "'c Service"
  ft_pc :: "nat \<Rightarrow> fetch_pc"
  ft_todo :: "nat \<Rightarrow> fetch_request list"
  ft_done :: "(nat \<times> fetch_request \<times> OHLCV list result) list"

text \<open>The thread returns from its call, with a series or an exception.\<close>

definition fetch_returns :: "nat \<Rightarrow> OHLCV list result \<Rightarrow> 'c Fetchers \<Rightarrow> 'c Fetchers" where
  "fetch_returns i res s = s\<lparr>ft_pc := (ft_pc s)(i := Asking), ft_todo := (ft_todo s)(i := tl (ft_todo s i)),
     ft_done := ft_done s @ [(i, hd (ft_todo s i), res)]\<rparr>"

definition fetch_action ::
    "(Date \<Rightarrow> string) \<Rightarrow> ('c \<Rightarrow> string \<Rightarrow> OHLCV list option) \<Rightarrow> ('c \<Rightarrow> string \<Rightarrow> OHLCV list \<Rightarrow> 'c) \<Rightarrow>
     nat \<Rightarrow> 'c Fetchers \<Rightarrow> 'c Fetchers option" where
  "fetch_action FormatDate Get Put i s =
     (case ft_todo s i of
        [] \<Rightarrow> None
      | (ticker, interval, rng, provider_name) # _ \<Rightarrow>
          (case ft_pc s i of
             Asking \<Rightarrow>
               (let name = provider_or_default (ft_service s) provider_name in
                (case ResolveProvider (ft_service s) name of
                   Inl e \<Rightarrow> Some (fetch_returns i (Inl e) s)
                 | Inr provider \<Rightarrow>
                     Some (s\<lparr>ft_pc := (ft_pc s)(i := Resolved (CacheKey FormatDate name ticker interval rng) provider)\<rparr>)))
           | Resolved k provider \<Rightarrow>
               (case Get (sv_cache (ft_service s)) k of
                  Some cached \<Rightarrow> Some (fetch_returns i (Inr cached) s)
                | None \<Rightarrow> Some (s\<lparr>ft_pc := (ft_pc s)(i := Missed k provider)\<rparr>))
           | Missed k provider \<Rightarrow>
               (case pv_fetch provider ticker interval rng of
                  Inl e \<Rightarrow> Some (fetch_returns i (Inl e) s)
                | Inr series \<Rightarrow> Some (s\<lparr>ft_pc := (ft_pc s)(i := Answered k series)\<rparr>))
           | Answered k series \<Rightarrow>
               Some (fetch_returns i (Inr series)
                 (s\<lparr>ft_service := (ft_service s)\<lparr>sv_cache := Put (sv_cache (ft_service s)) k series\<rparr>\<rparr>))))"

definition fetchers_start :: "'c Service \<Rightarrow> (nat \<Rightarrow> fetch_request list) \<Rightarrow> 'c Fetchers" where
  "fetchers_start svc requests = \<lparr>ft_service = svc, ft_pc = (\<lambda>i. Asking), ft_todo = requests, ft_done = []\<rparr>"

definition asked_by :: "nat \<Rightarrow> 'c Fetchers \<Rightarrow> fetch_request list" where
  "asked_by i s = map (\<lambda>(j, q, x). q) (filter (\<lambda>(j, q, x). j = i) (ft_done s))"

text \<open>Alone, the actions of a thread are \<open>Service_Fetch\<close>.\<close>

lemma fetch_alone:
  assumes "ft_todo s i = (t, iv, r, n) # qs" "ft_pc s i = Asking"
  shows "\<exists>k \<le> 4. follow (fetch_action fd Get Put) (replicate k i) s =
    Some (s\<lparr>ft_service := snd (Service_Fetch fd Get Put (ft_service s) t iv r n), ft_todo := (ft_todo s)(i := qs),
      ft_done := ft_done s @ [(i, (t, iv, r, n), fst (Service_Fetch fd Get Put (ft_service s) t iv r n))]\<rparr>)"
proof -
  note defs = fetch_action_def fetch_returns_def Service_Fetch_def Let_def
  have idem: "(ft_pc s)(i := Asking) = ft_pc s" using assms(2) by (simp add: fun_upd_idem)
  let ?name = "provider_or_default (ft_service s) n"
  let ?k = "CacheKey fd ?name t iv r"
  show ?thesis
  proof (cases "ResolveProvider (ft_service s) ?name")
    case (Inl e)
    then show ?thesis using assms idem by (intro exI [of _ 1]) (simp add: defs)
  next
    case p: (Inr p)
    show ?thesis
    proof (cases "Get (sv_cache (ft_service s)) ?k")
      case (Some c)
      then show ?thesis using assms idem p by (intro exI [of _ 2]) (simp add: defs numeral_2_eq_2)
    next
      case None
      show ?thesis
      proof (cases "pv_fetch p t iv r")
        case (Inl e)
        then show ?thesis using assms idem p None by (intro exI [of _ 3]) (simp add: defs numeral_3_eq_3)
      next
        case (Inr c)
        then show ?thesis using assms idem p None by (intro exI [of _ 4]) (simp add: defs eval_nat_numeral)
      qed
    qed
  qed
qed

section \<open>The invariant\<close>

definition own_answer :: "'c Service \<Rightarrow> fetch_request \<Rightarrow> OHLCV list result" where
  "own_answer svc q = (case q of (t, iv, r, n) \<Rightarrow>
     ebind (ResolveProvider svc (provider_or_default svc n)) (\<lambda>p. pv_fetch p t iv r))"

definition request_key :: "(Date \<Rightarrow> string) \<Rightarrow> 'c Service \<Rightarrow> fetch_request \<Rightarrow> string" where
  "request_key fd svc q = (case q of (t, iv, r, n) \<Rightarrow> CacheKey fd (provider_or_default svc n) t iv r)"

text \<open>
  The key leaves out the exchange and the time of day, and a name with a colon can run into the symbol: requests may
  share a key. What a key gives is an answer to one of the requests \<open>R\<close> that have it.
\<close>

definition key_answer :: "(Date \<Rightarrow> string) \<Rightarrow> 'c Service \<Rightarrow> fetch_request set \<Rightarrow> string \<Rightarrow> OHLCV list \<Rightarrow> bool" where
  "key_answer fd svc R k series \<longleftrightarrow> (\<exists>q \<in> R. request_key fd svc q = k \<and> own_answer svc q = Inr series)"

definition cache_from ::
    "(Date \<Rightarrow> string) \<Rightarrow> ('c \<Rightarrow> string \<Rightarrow> OHLCV list option) \<Rightarrow> 'c Service \<Rightarrow> fetch_request set \<Rightarrow> 'c \<Rightarrow> bool" where
  "cache_from fd Get svc R c \<longleftrightarrow> (\<forall>k series. Get c k = Some series \<longrightarrow> key_answer fd svc R k series)"

text \<open>A fetch gives the provider's own answer to the request, or a series that is its answer to one with the same key.\<close>

definition answers :: "(Date \<Rightarrow> string) \<Rightarrow> 'c Service \<Rightarrow> fetch_request set \<Rightarrow> fetch_request \<Rightarrow> OHLCV list result \<Rightarrow> bool" where
  "answers fd svc R q x \<longleftrightarrow> x = own_answer svc q \<or>
     (case q of (t, iv, r, n) \<Rightarrow> provider_or_default svc n \<in> dom (sv_providers svc)) \<and>
     (\<exists>series. x = Inr series \<and> key_answer fd svc R (request_key fd svc q) series)"

text \<open>Requests without an exchange, for ranges of whole days, of providers without a colon in their names.\<close>

definition day_requests :: "'c Service \<Rightarrow> fetch_request set \<Rightarrow> bool" where
  "day_requests svc R \<longleftrightarrow> (\<forall>n \<in> dom (sv_providers svc). CHR '':'' \<notin> set n) \<and> (\<forall>(t, iv, r, n) \<in> R. day_request t r)"

lemma day_key_answer:
  assumes "iso_dates fd" "day_requests svc R" "key_answer fd svc R (CacheKey fd m t iv r) series"
    and "day_request t r" "sv_providers svc m = Some p"
  shows "pv_fetch p t iv r = Inr series"
proof -
  obtain t' iv' r' n where q: "(t', iv', r', n) \<in> R" "own_answer svc (t', iv', r', n) = Inr series"
    and k: "CacheKey fd (provider_or_default svc n) t' iv' r' = CacheKey fd m t iv r"
    using assms(3) by (auto simp: key_answer_def request_key_def)
  then obtain p' where p: "sv_providers svc (provider_or_default svc n) = Some p'" "pv_fetch p' t' iv' r' = Inr series"
    by (auto simp: own_answer_def ResolveProvider_def ebind_Inr_iff split: option.splits)
  then have colon: "CHR '':'' \<notin> set (provider_or_default svc n)" "CHR '':'' \<notin> set m"
    using assms(2,5) by (auto simp: day_requests_def)
  from CacheKey_inj [OF assms(1) colon k] have same: "provider_or_default svc n = m" "iv' = iv" "tk_symbol t' = tk_symbol t"
    "range_start r' div ns_per_day = range_start r div ns_per_day" "range_end r' div ns_per_day = range_end r div ns_per_day"
    by auto
  have "day_request t' r'" using assms(2) q(1) by (auto simp: day_requests_def)
  from in_memory.day_request_eq [OF this assms(4) same(3-5)] show ?thesis using p same(1,2) assms(5) by simp
qed

lemma day_answers:
  assumes "iso_dates fd" "day_requests svc R" "q \<in> R" "answers fd svc R q x"
  shows "x = own_answer svc q"
proof -
  obtain t iv r n where q: "q = (t, iv, r, n)" by (cases q)
  have "day_request t r" using assms(2,3) by (auto simp: day_requests_def q)
  then show ?thesis using assms(4) day_key_answer [OF assms(1,2)]
    by (auto simp: answers_def q request_key_def own_answer_def ResolveProvider_def)
qed

lemma day_cache_from:
  assumes "iso_dates fd" "day_requests svc R" "cache_from fd Get svc R (sv_cache s)" "sv_providers s = sv_providers svc"
  shows "cache_sound Get fd s"
  unfolding cache_sound_def
proof (intro allI impI)
  fix n p t i r series
  assume a: "sv_providers s n = Some p" "day_request t r" "Get (sv_cache s) (CacheKey fd n t i r) = Some series"
  then have "key_answer fd svc R (CacheKey fd n t i r) series" using assms(3) by (simp add: cache_from_def)
  then show "pv_fetch p t i r = Inr series" using a assms(4) by (auto intro: day_key_answer [OF assms(1,2)])
qed

text \<open>What a thread in the middle of a fetch knows.\<close>

definition fetching :: "(Date \<Rightarrow> string) \<Rightarrow> 'c Service \<Rightarrow> fetch_request \<Rightarrow> fetch_pc \<Rightarrow> bool" where
  "fetching fd svc q pc = (case q of (t, iv, r, n) \<Rightarrow>
     (let name = provider_or_default svc n in
      (case pc of
         Asking \<Rightarrow> True
       | Resolved k p \<Rightarrow> k = CacheKey fd name t iv r \<and> sv_providers svc name = Some p
       | Missed k p \<Rightarrow> k = CacheKey fd name t iv r \<and> sv_providers svc name = Some p
       | Answered k series \<Rightarrow> k = CacheKey fd name t iv r \<and> own_answer svc q = Inr series)))"

definition fetchers_inv ::
    "(Date \<Rightarrow> string) \<Rightarrow> ('c \<Rightarrow> string \<Rightarrow> OHLCV list option) \<Rightarrow> 'c Service \<Rightarrow> fetch_request set \<Rightarrow>
     (nat \<Rightarrow> fetch_request list) \<Rightarrow> 'c Fetchers \<Rightarrow> bool" where
  "fetchers_inv fd Get svc R requests s \<longleftrightarrow>
     sv_providers (ft_service s) = sv_providers svc \<and> sv_default_provider (ft_service s) = sv_default_provider svc \<and>
     cache_from fd Get svc R (sv_cache (ft_service s)) \<and>
     (\<forall>i. asked_by i s @ ft_todo s i = requests i) \<and>
     (\<forall>i. ft_todo s i = [] \<longrightarrow> ft_pc s i = Asking) \<and>
     (\<forall>i. ft_todo s i \<noteq> [] \<longrightarrow> fetching fd svc (hd (ft_todo s i)) (ft_pc s i)) \<and>
     (\<forall>(i, q, x) \<in> set (ft_done s). answers fd svc R q x)"

lemma fetchers_inv_start:
  assumes "cache_from fd Get svc R (sv_cache svc)"
  shows "fetchers_inv fd Get svc R requests (fetchers_start svc requests)"
  using assms by (auto simp: fetchers_inv_def fetchers_start_def asked_by_def fetching_def Let_def)

text \<open>The steps that return, and the others.\<close>

lemma fetchers_inv_returns:
  assumes "fetchers_inv fd Get svc R requests s" "ft_todo s i \<noteq> []" "answers fd svc R (hd (ft_todo s i)) x"
  shows "fetchers_inv fd Get svc R requests (fetch_returns i x s)"
proof -
  have "asked_by j (fetch_returns i x s) @ ft_todo (fetch_returns i x s) j = asked_by j s @ ft_todo s j" for j
    using assms(2) by (cases "ft_todo s i") (simp_all add: asked_by_def fetch_returns_def)
  then show ?thesis using assms
    by (auto simp: fetchers_inv_def fetch_returns_def fetching_def Let_def split: prod.splits)
qed

lemma fetchers_inv_goes_on:
  assumes "fetchers_inv fd Get svc R requests s" "ft_todo s i \<noteq> []" "fetching fd svc (hd (ft_todo s i)) pc"
  shows "fetchers_inv fd Get svc R requests (s\<lparr>ft_pc := (ft_pc s)(i := pc)\<rparr>)"
  using assms by (auto simp: fetchers_inv_def asked_by_def)

context series_cache
begin

lemma fetchers_inv_action:
  assumes inv: "fetchers_inv fd Get svc R requests s" and act: "fetch_action fd Get Put i s = Some u"
    and R: "set (requests i) \<subseteq> R"
  shows "fetchers_inv fd Get svc R requests u"
proof -
  obtain t iv r n qs where q: "ft_todo s i = (t, iv, r, n) # qs"
    using act by (auto simp: fetch_action_def split: list.splits)
  let ?name = "provider_or_default svc n"
  have todo: "ft_todo s i \<noteq> []" "hd (ft_todo s i) = (t, iv, r, n)" using q by simp_all
  have same: "sv_providers (ft_service s) = sv_providers svc" "sv_default_provider (ft_service s) = sv_default_provider svc"
    "cache_from fd Get svc R (sv_cache (ft_service s))" "fetching fd svc (t, iv, r, n) (ft_pc s i)" "asked_by i s @ ft_todo s i = requests i"
    using inv todo by (auto simp: fetchers_inv_def)
  have name: "provider_or_default (ft_service s) m = provider_or_default svc m"
    "ResolveProvider (ft_service s) m = ResolveProvider svc m" for m
    using same by (simp_all add: provider_or_default_def ResolveProvider_def)
  have "(t, iv, r, n) \<in> set (requests i)" using same(5) q by (metis in_set_conv_decomp)
  then have mem: "(t, iv, r, n) \<in> R" using R by blast
  note returns = fetchers_inv_returns [OF inv todo(1)] and goes_on = fetchers_inv_goes_on [OF inv todo(1)]
  show ?thesis
  proof (cases "ft_pc s i")
    case Asking
    show ?thesis
    proof (cases "ResolveProvider svc ?name")
      case (Inl e)
      then have "u = fetch_returns i (Inl e) s" using act Asking by (simp add: fetch_action_def q name Let_def)
      then show ?thesis using Inl by (auto intro: returns simp: todo answers_def own_answer_def)
    next
      case (Inr p)
      then have "u = s\<lparr>ft_pc := (ft_pc s)(i := Resolved (CacheKey fd ?name t iv r) p)\<rparr>"
        using act Asking by (simp add: fetch_action_def q name Let_def)
      moreover have "sv_providers svc ?name = Some p" using Inr by (simp add: ResolveProvider_def split: option.splits)
      ultimately show ?thesis by (auto intro: goes_on simp: todo fetching_def Let_def)
    qed
  next
    case (Resolved k p)
    then have k: "k = CacheKey fd ?name t iv r" "sv_providers svc ?name = Some p"
      using same(4) by (simp_all add: fetching_def Let_def)
    show ?thesis
    proof (cases "Get (sv_cache (ft_service s)) k")
      case None
      then have "u = s\<lparr>ft_pc := (ft_pc s)(i := Missed k p)\<rparr>" using act Resolved by (simp add: fetch_action_def q)
      then show ?thesis using k by (auto intro: goes_on simp: todo fetching_def Let_def)
    next
      case (Some c)
      then have "u = fetch_returns i (Inr c) s" using act Resolved by (simp add: fetch_action_def q)
      moreover have "key_answer fd svc R k c" using same(3) Some by (simp add: cache_from_def)
      ultimately show ?thesis using k by (auto intro!: returns simp: todo answers_def request_key_def)
    qed
  next
    case (Missed k p)
    then have k: "k = CacheKey fd ?name t iv r" "sv_providers svc ?name = Some p"
      using same(4) by (simp_all add: fetching_def Let_def)
    show ?thesis
    proof (cases "pv_fetch p t iv r")
      case (Inl e)
      then have "u = fetch_returns i (Inl e) s" using act Missed by (simp add: fetch_action_def q)
      then show ?thesis using k Inl by (auto intro: returns simp: todo answers_def own_answer_def ResolveProvider_def)
    next
      case (Inr c)
      then have "u = s\<lparr>ft_pc := (ft_pc s)(i := Answered k c)\<rparr>" using act Missed by (simp add: fetch_action_def q)
      then show ?thesis using k Inr by (auto intro: goes_on simp: todo fetching_def Let_def own_answer_def ResolveProvider_def)
    qed
  next
    case (Answered k c)
    then have k: "k = CacheKey fd ?name t iv r" "own_answer svc (t, iv, r, n) = Inr c"
      using same(4) by (simp_all add: fetching_def Let_def)
    let ?svc = "(ft_service s)\<lparr>sv_cache := Put (sv_cache (ft_service s)) k c\<rparr>"
    have "key_answer fd svc R k c" unfolding key_answer_def
      using k mem by (intro bexI [of _ "(t, iv, r, n)"]) (simp_all add: request_key_def)
    then have "cache_from fd Get svc R (sv_cache ?svc)" using same(3) by (auto simp: cache_from_def get_put)
    then have "fetchers_inv fd Get svc R requests (s\<lparr>ft_service := ?svc\<rparr>)"
      using inv by (simp add: fetchers_inv_def asked_by_def)
    from fetchers_inv_returns [OF this, of i "Inr c"] have "fetchers_inv fd Get svc R requests (fetch_returns i (Inr c) (s\<lparr>ft_service := ?svc\<rparr>))"
      using todo k(2) by (simp add: answers_def)
    then show ?thesis using act Answered by (simp add: fetch_action_def q)
  qed
qed

end

section \<open>Progress\<close>

definition fetch_passed :: "fetch_pc \<Rightarrow> nat" where
  "fetch_passed pc = (case pc of Asking \<Rightarrow> 0 | Resolved k p \<Rightarrow> 1 | Missed k p \<Rightarrow> 2 | Answered k series \<Rightarrow> 3)"

definition fetches_left :: "nat \<Rightarrow> 'c Fetchers \<Rightarrow> nat" where
  "fetches_left n s = (\<Sum>i<n. 4 * length (ft_todo s i) - fetch_passed (ft_pc s i))"

lemma fetch_passed_le: "fetch_passed pc \<le> 3"
  by (simp add: fetch_passed_def split: fetch_pc.split)

lemma fetch_action_less:
  assumes "fetchers_inv fd Get svc R requests s" "fetch_action fd Get Put i s = Some u" "\<forall>i \<ge> n. requests i = []"
  shows "fetches_left n u < fetches_left n s"
proof -
  obtain q qs where q: "ft_todo s i = q # qs" using assms(2) by (auto simp: fetch_action_def split: list.splits)
  then have "requests i \<noteq> []" using assms(1) unfolding fetchers_inv_def by (metis append_is_Nil_conv list.distinct(1))
  then have "i < n" using assms(3) by (meson not_le)
  then show ?thesis unfolding fetches_left_def
  proof (rule sum_one_less)
    show "4 * length (ft_todo u i) - fetch_passed (ft_pc u i) < 4 * length (ft_todo s i) - fetch_passed (ft_pc s i)"
      using assms(2) q fetch_passed_le [of "ft_pc s i"]
      by (cases q; cases "ft_pc s i")
        (auto simp: fetch_action_def fetch_returns_def fetch_passed_def Let_def split: sum.splits option.splits)
    show "j \<noteq> i \<Longrightarrow> 4 * length (ft_todo u j) - fetch_passed (ft_pc u j) = 4 * length (ft_todo s j) - fetch_passed (ft_pc s j)" for j
      using assms(2) q by (cases q; cases "ft_pc s i")
        (auto simp: fetch_action_def fetch_returns_def Let_def split: sum.splits option.splits)
  qed
qed

lemma fetchers_stuck: "stuck (fetch_action fd Get Put) s \<Longrightarrow> ft_todo s i = []"
proof (rule ccontr)
  assume "stuck (fetch_action fd Get Put) s" "ft_todo s i \<noteq> []"
  then have "fetch_action fd Get Put i s = None" by (simp add: stuck_def)
  then show False using \<open>ft_todo s i \<noteq> []\<close>
    by (auto simp: fetch_action_def Let_def neq_Nil_conv split: fetch_pc.splits sum.splits option.splits)
qed

context series_cache
begin

lemma fetch_runs:
  assumes "cache_from fd Get svc R (sv_cache svc)" "\<And>i. set (requests i) \<subseteq> R"
    and "follow (fetch_action fd Get Put) sched (fetchers_start svc requests) = Some s" "\<forall>i \<ge> n. requests i = []"
  shows "fetchers_inv fd Get svc R requests s" "length sched \<le> 4 * (\<Sum>i<n. length (requests i))"
proof -
  note keep = fetchers_inv_action [OF _ _ assms(2)] and start = fetchers_inv_start [OF assms(1), of requests]
  show "fetchers_inv fd Get svc R requests s"
    using assms(3) start by (rule follow_inv) (rule keep)
  have "length sched + fetches_left n s \<le> fetches_left n (fetchers_start svc requests)"
    using assms(3) start by (rule follow_measure [where I = "fetchers_inv fd Get svc R requests"])
      (auto intro: keep fetch_action_less [OF _ _ assms(4)])
  then show "length sched \<le> 4 * (\<Sum>i<n. length (requests i))"
    by (simp add: fetches_left_def fetchers_start_def fetch_passed_def sum_distrib_left)
qed

end

section \<open>Properties\<close>

text \<open>C11: threads that fetch at the same time, however they are scheduled: each gets, for its requests in
  their order, the provider's own answer or, from the cache, its answer to a request with the same key; the cache
  holds only such answers; a run has at most four steps per request, and it cannot stop before every request is
  answered. The requests \<open>R\<close> are theirs and those that filled the cache before. Requests that differ in the exchange or the time of day share a key; when there are no such (no exchange,
  whole days, no colon in the names of the providers), each gets the provider's own answer.\<close>

theorem fetch_concurrent:
  assumes "\<forall>i. set (requests i) \<subseteq> R" "\<forall>i \<ge> n. requests i = []" "cache_from fd InMemoryCache_Get svc R (sv_cache svc)"
    and "follow (fetch_action fd InMemoryCache_Get InMemoryCache_Put) sched (fetchers_start svc requests) = Some s"
  shows "(\<forall>i. asked_by i s @ ft_todo s i = requests i) \<and> (\<forall>(i, q, x) \<in> set (ft_done s). answers fd svc R q x) \<and>
    cache_from fd InMemoryCache_Get svc R (sv_cache (ft_service s)) \<and>
    (iso_dates fd \<and> day_requests svc R \<longrightarrow>
       (\<forall>(i, q, x) \<in> set (ft_done s). x = own_answer svc q) \<and> cache_sound InMemoryCache_Get fd (ft_service s)) \<and>
    length sched \<le> 4 * (\<Sum>i<n. length (requests i)) \<and>
    (stuck (fetch_action fd InMemoryCache_Get InMemoryCache_Put) s \<longrightarrow> (\<forall>i. asked_by i s = requests i))"
proof -
  have sub: "set (requests i) \<subseteq> R" for i using assms(1) by simp
  note r = in_memory.fetch_runs [OF assms(3) sub assms(4,2)]
  have parts: "asked_by i s @ ft_todo s i = requests i" for i using r(1) by (simp add: fetchers_inv_def)
  then have stop: "stuck (fetch_action fd InMemoryCache_Get InMemoryCache_Put) s \<longrightarrow> asked_by i s = requests i" for i
    using fetchers_stuck [of fd _ _ s i] by (metis append_Nil2)
  have ans: "\<forall>(i, q, x) \<in> set (ft_done s). answers fd svc R q x" using r(1) by (simp add: fetchers_inv_def)
  have mem: "q \<in> R" if "(i, q, x) \<in> set (ft_done s)" for i q x
  proof -
    have "q \<in> set (asked_by i s)" using that by (force simp: asked_by_def)
    moreover have "set (asked_by i s) \<subseteq> set (requests i)" unfolding parts [of i, symmetric] by simp
    ultimately show ?thesis using sub [of i] by blast
  qed
  have "iso_dates fd \<and> day_requests svc R \<longrightarrow> (\<forall>(i, q, x) \<in> set (ft_done s). x = own_answer svc q)"
    using ans mem day_answers by fast
  moreover have "iso_dates fd \<and> day_requests svc R \<longrightarrow> cache_sound InMemoryCache_Get fd (ft_service s)"
    using r(1) day_cache_from by (fastforce simp: fetchers_inv_def)
  ultimately show ?thesis using r ans stop by (simp add: fetchers_inv_def)
qed

text \<open>Two threads that ask for the same series, and both miss.\<close>

definition sample_requests :: "nat \<Rightarrow> fetch_request list" where
  "sample_requests i = (if i < 2 then [(\<lparr>tk_symbol = ''AAPL'', tk_exchange = []\<rparr>, Daily, sample_range, [])] else [])"

lemma sample_requests_days: "day_requests sample_service (set (sample_requests 0))"
  by (simp add: day_requests_def sample_requests_def sample_day_request sample_service_facts)

theorem fetch_concurrent_witness:
  "\<exists>s. follow (fetch_action sample_dates InMemoryCache_Get InMemoryCache_Put) [0, 1, 0, 1, 0, 1, 1, 0] (fetchers_start sample_service sample_requests) = Some s \<and>
     asked_by 0 s = sample_requests 0 \<and> asked_by 1 s = sample_requests 1 \<and>
     (\<forall>(i, q, x) \<in> set (ft_done s). x = own_answer sample_service q) \<and>
     cache_sound InMemoryCache_Get sample_dates (ft_service s)"
proof -
  let ?act = "fetch_action sample_dates InMemoryCache_Get InMemoryCache_Put"
  let ?t = "\<lparr>tk_symbol = ''AAPL'', tk_exchange = []\<rparr>"
  obtain bars where "SyntheticProvider_Fetch ?t Daily sample_range = Inr bars"
    using SyntheticProvider_Fetch_days [of sample_range ?t Daily] by (auto simp: sample_range_def ns_per_day_def)
  then have b: "pv_fetch (SyntheticProvider 0) ?t Daily sample_range = Inr bars" by (simp add: SyntheticProvider_def)
  have d: "sv_default_provider sample_service = ''synthetic''" "sv_cache sample_service = Map.empty"
    by (simp_all add: sample_service_def Register_def make_Service_def)
  obtain s where f: "follow ?act [0, 1, 0, 1, 0, 1, 1, 0] (fetchers_start sample_service sample_requests) = Some s"
    and e: "\<forall>i. ft_todo s i = []"
    by (simp add: fetch_action_def fetch_returns_def fetchers_start_def sample_requests_def provider_or_default_def Let_def d
        sample_service_facts(1) ResolveProvider_def InMemoryCache_Get_def InMemoryCache_Put_def b)
  have n: "\<forall>i. set (sample_requests i) \<subseteq> set (sample_requests 0)" "\<forall>i \<ge> 2. sample_requests i = []"
    by (auto simp: sample_requests_def)
  have "cache_from sample_dates InMemoryCache_Get sample_service (set (sample_requests 0)) (sv_cache sample_service)"
    by (simp add: cache_from_def d InMemoryCache_Get_def)
  from fetch_concurrent [OF n this f] f e sample_dates_iso sample_requests_days
  show ?thesis by auto
qed

end
