(* ===== verification/Audit_Trail.thy ===== *)
theory Audit_Trail
  imports Core "HOL-Library.Word"
begin

text \<open>
  \<^verbatim>\<open>audit/\<close>: the hash-chained decision log. The JSON library, OpenSSL's SHA-256 and the date formatting
  are outside the repository: the type \<open>'j\<close> of JSON values and the fields of \<open>Lib\<close> stand for them.
  \<open>dump\<close> may throw (on strings that are not UTF-8).
\<close>

record 'j Lib =
  lib_object :: "(string \<times> 'j) list \<Rightarrow> 'j"
  lib_str :: "string \<Rightarrow> 'j"
  lib_int :: "int \<Rightarrow> 'j"
  lib_null :: 'j
  lib_dump :: "'j \<Rightarrow> string result"
  lib_sha256 :: "string \<Rightarrow> 8 word list"
  lib_format_date :: "Date \<Rightarrow> string"

record 'j DecisionRecord =
  dr_request_id :: string
  dr_recorded_at :: Date
  dr_tool_name :: string
  dr_input :: 'j
  dr_input_hash :: string
  dr_output :: 'j
  dr_output_hash :: string
  dr_status :: string
  dr_error :: string
  dr_git_commit_sha :: string
  dr_package_version :: string
  dr_random_seed :: int
  dr_prev_record_hash :: string
  dr_record_hash :: string

definition record_to_json :: "'j Lib \<Rightarrow> 'j DecisionRecord \<Rightarrow> 'j" where
  "record_to_json lib r = lib_object lib
     [(''request_id'', lib_str lib (dr_request_id r)),
      (''recorded_at'', lib_str lib (lib_format_date lib (dr_recorded_at r))),
      (''tool_name'', lib_str lib (dr_tool_name r)),
      (''input'', dr_input r),
      (''input_hash'', lib_str lib (dr_input_hash r)),
      (''output'', dr_output r),
      (''output_hash'', lib_str lib (dr_output_hash r)),
      (''status'', lib_str lib (dr_status r)),
      (''error'', lib_str lib (dr_error r)),
      (''git_commit_sha'', lib_str lib (dr_git_commit_sha r)),
      (''package_version'', lib_str lib (dr_package_version r)),
      (''random_seed'', lib_int lib (dr_random_seed r)),
      (''prev_record_hash'', lib_str lib (dr_prev_record_hash r)),
      (''record_hash'', lib_str lib (dr_record_hash r))]"

section \<open>Hashes\<close>

definition hex_digit :: "nat \<Rightarrow> char" where
  "hex_digit n = ''0123456789abcdef'' ! n"

definition ToHex :: "8 word list \<Rightarrow> string" where
  "ToHex data = concat (map (\<lambda>b. [hex_digit (unat b div 16), hex_digit (unat b mod 16)]) data)"

definition HashBytes :: "'j Lib \<Rightarrow> string \<Rightarrow> string" where
  "HashBytes lib bytes = ToHex (lib_sha256 lib bytes)"

definition HashJson :: "'j Lib \<Rightarrow> 'j \<Rightarrow> string result" where
  "HashJson lib value = ebind (lib_dump lib value) (\<lambda>s. Inr (HashBytes lib s))"

definition HashRecord :: "'j Lib \<Rightarrow> 'j DecisionRecord \<Rightarrow> string result" where
  "HashRecord lib r = HashJson lib (record_to_json lib (r\<lparr>dr_record_hash := []\<rparr>))"

section \<open>Storage in memory\<close>

type_synonym 'j MemoryStorage = "'j DecisionRecord list"

definition Memory_Append :: "'j MemoryStorage \<Rightarrow> 'j DecisionRecord \<Rightarrow> 'j MemoryStorage result" where
  "Memory_Append records r = Inr (records @ [r])"

definition Memory_Latest :: "'j MemoryStorage \<Rightarrow> 'j DecisionRecord result" where
  "Memory_Latest records = (if records = [] then Inl AuditNotFoundError else Inr (last records))"

definition Memory_GetByRequestID :: "'j MemoryStorage \<Rightarrow> string \<Rightarrow> 'j DecisionRecord result" where
  "Memory_GetByRequestID records request_id =
     of_option AuditNotFoundError (find (\<lambda>r. dr_request_id r = request_id) (rev records))"

definition Memory_All :: "'j MemoryStorage \<Rightarrow> 'j DecisionRecord list result" where
  "Memory_All records = Inr records"

section \<open>The writer\<close>

definition CanonicalizeAndHash :: "'j Lib \<Rightarrow> 'j \<Rightarrow> ('j \<times> string) result" where
  "CanonicalizeAndHash lib value =
     (let canonical = (if value = lib_null lib then lib_null lib else value)
      in ebind (HashJson lib canonical) (\<lambda>h. Inr (canonical, h)))"

definition prev_hash_of ::
    "('s \<Rightarrow> 'j DecisionRecord result) \<Rightarrow> 's \<Rightarrow> string \<Rightarrow> string result" where
  "prev_hash_of Latest st given =
     (case Latest st of
        Inr latest \<Rightarrow> Inr (if dr_record_hash latest \<noteq> [] then dr_record_hash latest else given)
      | Inl AuditNotFoundError \<Rightarrow> Inr given
      | Inl e \<Rightarrow> Inl e)"

text \<open>\<open>now\<close> is the value of the clock; a record time of the epoch stands for no time.\<close>

definition Write ::
    "'j Lib \<Rightarrow> ('s \<Rightarrow> 'j DecisionRecord result) \<Rightarrow> ('s \<Rightarrow> 'j DecisionRecord \<Rightarrow> 's result) \<Rightarrow>
     Date \<Rightarrow> 's \<Rightarrow> 'j DecisionRecord \<Rightarrow> 's result" where
  "Write lib Latest Append now st r =
     (let r = (if dr_recorded_at r = 0 then r\<lparr>dr_recorded_at := now\<rparr> else r)
      in ebind (prev_hash_of Latest st (dr_prev_record_hash r)) (\<lambda>prev.
         let r = r\<lparr>dr_prev_record_hash := prev\<rparr>
         in ebind (CanonicalizeAndHash lib (dr_input r)) (\<lambda>(input_json, input_hash).
            let r = r\<lparr>dr_input := input_json, dr_input_hash := input_hash\<rparr>
            in ebind (CanonicalizeAndHash lib (dr_output r)) (\<lambda>(output_json, output_hash).
               let r = r\<lparr>dr_output := output_json, dr_output_hash := output_hash\<rparr>
               in ebind (HashRecord lib r) (\<lambda>h. Append st (r\<lparr>dr_record_hash := h\<rparr>))))))"

section \<open>The verifier\<close>

definition check_record :: "'j Lib \<Rightarrow> 'j DecisionRecord option \<Rightarrow> 'j DecisionRecord \<Rightarrow> unit result" where
  "check_record lib previous r =
     ebind (HashJson lib (dr_input r)) (\<lambda>ih.
     ebind (throw_if (ih \<noteq> dr_input_hash r) (RuntimeError [T ''input hash mismatch at '', T (dr_request_id r)])) (\<lambda>_.
     ebind (HashJson lib (dr_output r)) (\<lambda>oh.
     ebind (throw_if (oh \<noteq> dr_output_hash r) (RuntimeError [T ''output hash mismatch at '', T (dr_request_id r)])) (\<lambda>_.
     ebind (HashRecord lib r) (\<lambda>rh.
     ebind (throw_if (rh \<noteq> dr_record_hash r) (RuntimeError [T ''record hash mismatch at '', T (dr_request_id r)])) (\<lambda>_.
       (case previous of
          None \<Rightarrow> Inr ()
        | Some p \<Rightarrow> throw_if (dr_prev_record_hash r \<noteq> dr_record_hash p)
            (RuntimeError [T ''chain mismatch at '', T (dr_request_id r)]))))))))"

fun check_chain :: "'j Lib \<Rightarrow> 'j DecisionRecord option \<Rightarrow> 'j DecisionRecord list \<Rightarrow> unit result" where
  "check_chain lib previous [] = Inr ()"
| "check_chain lib previous (r # rs) = ebind (check_record lib previous r) (\<lambda>_. check_chain lib (Some r) rs)"

definition VerifyChain :: "'j Lib \<Rightarrow> ('s \<Rightarrow> 'j DecisionRecord list result) \<Rightarrow> 's \<Rightarrow> unit result" where
  "VerifyChain lib AllRecords st = ebind (AllRecords st) (\<lambda>records. check_chain lib None records)"

section \<open>Replay\<close>

definition Replay :: "('s \<Rightarrow> string \<Rightarrow> 'j DecisionRecord result) \<Rightarrow> 's \<Rightarrow> string \<Rightarrow> 'j DecisionRecord result" where
  "Replay GetByRequestID st request_id =
     ebind (throw_if (request_id = []) (InvalidCommandError [T ''request_id is required'']))
       (\<lambda>_. GetByRequestID st request_id)"

end
