(* ===== verification/Json_Text.thy ===== *)
theory Json_Text
  imports Audit_Trail
begin

text \<open>
  The JSON texts of the library: what the proofs use of \<^verbatim>\<open>dump\<close>, as a named hypothesis, and trees with their
  texts, on which the witnesses evaluate it. Nothing is said of the values: two values may have the same text, as
  NaN and null do, and text that is not UTF-8 has none.
\<close>

section \<open>Texts\<close>

definition same_text :: "'j Lib \<Rightarrow> 'j \<Rightarrow> 'j \<Rightarrow> bool" where
  "same_text lib a b \<longleftrightarrow> (\<exists>s. lib_dump lib a = Inr s \<and> lib_dump lib b = Inr s)"

definition writable :: "'j Lib \<Rightarrow> 'j \<Rightarrow> bool" where
  "writable lib v \<longleftrightarrow> (\<exists>s. lib_dump lib v = Inr s)"

definition ascii :: "string \<Rightarrow> bool" where
  "ascii s \<longleftrightarrow> (\<forall>c \<in> set s. of_char c < (128 :: nat))"

definition int64 :: "int \<Rightarrow> bool" where
  "int64 i \<longleftrightarrow> - (2 ^ 63) \<le> i \<and> i < 2 ^ 63"

text \<open>
  Two objects with the same distinct keys have the same text exactly when their members do, in particular an object
  has a text when they all have; the text of a string or of an integer determines it; ASCII strings, integers and
  null have texts.
\<close>

definition json_texts :: "'j Lib \<Rightarrow> bool" where
  "json_texts lib \<longleftrightarrow>
     (\<forall>kvs kvs'. distinct (map fst kvs) \<and> list_all ascii (map fst kvs) \<and> map fst kvs' = map fst kvs \<longrightarrow>
        same_text lib (lib_object lib kvs) (lib_object lib kvs') = list_all2 (same_text lib) (map snd kvs) (map snd kvs')) \<and>
     (\<forall>s t. same_text lib (lib_str lib s) (lib_str lib t) \<longrightarrow> s = t) \<and>
     (\<forall>s. ascii s \<longrightarrow> writable lib (lib_str lib s)) \<and>
     (\<forall>i j. int64 i \<and> int64 j \<longrightarrow> same_text lib (lib_int lib i) (lib_int lib j) = (i = j)) \<and>
     writable lib (lib_null lib)"

lemma same_text_refl: "same_text lib v v \<longleftrightarrow> writable lib v"
  by (simp add: same_text_def writable_def)

lemma same_text_sym: "same_text lib a b \<Longrightarrow> same_text lib b a"
  by (auto simp: same_text_def)

lemma same_text_writable: "same_text lib a b \<Longrightarrow> writable lib a \<and> writable lib b"
  by (auto simp: same_text_def writable_def)

lemma same_text_dump: "same_text lib a b \<Longrightarrow> lib_dump lib a = lib_dump lib b"
  by (auto simp: same_text_def)

lemma json_textsD:
  assumes "json_texts lib"
  shows "distinct (map fst kvs) \<Longrightarrow> list_all ascii (map fst kvs) \<Longrightarrow> map fst kvs' = map fst kvs \<Longrightarrow>
      same_text lib (lib_object lib kvs) (lib_object lib kvs') = list_all2 (same_text lib) (map snd kvs) (map snd kvs')"
    "same_text lib (lib_str lib s) (lib_str lib t) \<longleftrightarrow> s = t \<and> writable lib (lib_str lib s)"
    "ascii s \<Longrightarrow> writable lib (lib_str lib s)"
    "int64 i \<Longrightarrow> int64 j \<Longrightarrow> same_text lib (lib_int lib i) (lib_int lib j) = (i = j)"
    "writable lib (lib_null lib)"
  using assms by (auto simp: json_texts_def same_text_refl dest: same_text_writable)

lemma object_writable:
  assumes "json_texts lib" "distinct (map fst kvs)" "list_all ascii (map fst kvs)"
  shows "writable lib (lib_object lib kvs) \<longleftrightarrow> list_all (writable lib) (map snd kvs)"
  using json_textsD(1) [OF assms refl] by (simp add: same_text_refl list_all2_same list_all_iff)

section \<open>Trees\<close>

datatype tree = TNull | TBool bool | TNum double | TInt int | TStr string | TArr "tree list" | TObj "(string \<times> tree) list"

text \<open>A text with its length before it, so that texts can follow each other.\<close>

definition framed :: "string \<Rightarrow> string" where
  "framed s = replicate (length s) CHR ''1'' @ CHR ''0'' # s"

fun tree_text :: "tree \<Rightarrow> string" where
  "tree_text TNull = []"
| "tree_text (TBool b) = []"
| "tree_text (TNum d) = []"
| "tree_text (TInt i) = (if i < 0 then CHR ''-'' else CHR ''+'') # replicate (nat \<bar>i\<bar>) CHR ''1''"
| "tree_text (TStr s) = s"
| "tree_text (TArr ts) = concat (map (\<lambda>t. framed (tree_text t)) ts)"
| "tree_text (TObj kvs) = concat (map (\<lambda>(k, t). framed k @ framed (tree_text t)) kvs)"

definition tree_dump :: "tree \<Rightarrow> string result" where
  "tree_dump t = Inr (tree_text t)"

lemma replicate_then: "replicate m a @ b # u = replicate n a @ b # v \<Longrightarrow> a \<noteq> b \<Longrightarrow> m = n"
proof (induction m arbitrary: n)
  case 0
  then show ?case by (cases n) auto
next
  case (Suc m)
  then show ?case by (cases n) auto
qed

lemma framed_append: "framed s @ u = framed t @ v \<longleftrightarrow> s = t \<and> u = v"
proof
  assume a: "framed s @ u = framed t @ v"
  then have "length s = length t" using replicate_then [of "length s" "CHR ''1''" "CHR ''0''" "s @ u" "length t" "t @ v"]
    by (simp add: framed_def)
  then show "s = t \<and> u = v" using a by (simp add: framed_def)
qed simp

lemma tree_texts:
  assumes "lib_object lib = TObj" "lib_str lib = TStr" "lib_int lib = TInt" "lib_null lib = TNull" "lib_dump lib = tree_dump"
  shows "json_texts lib"
proof -
  have t: "same_text lib a b \<longleftrightarrow> tree_text a = tree_text b" "writable lib a" for a b
    by (auto simp: same_text_def writable_def assms tree_dump_def)
  have "tree_text (TObj kvs) = tree_text (TObj kvs') \<longleftrightarrow> list_all2 (same_text lib) (map snd kvs) (map snd kvs')"
    if "map fst kvs' = map fst kvs" for kvs kvs'
    using that
  proof (induction kvs arbitrary: kvs')
    case (Cons kv kvs)
    then show ?case by (cases kvs') (auto simp: t framed_append split: prod.splits)
  qed simp
  moreover have "tree_text (TInt i) = tree_text (TInt j) \<longleftrightarrow> i = j" for i j
    by (auto simp: dest: arg_cong [of _ _ length])
  ultimately show ?thesis unfolding json_texts_def by (simp add: t assms)
qed

end
