(* ===== verification/Audit_Trail_Facts.thy ===== *)
theory Audit_Trail_Facts
  imports Json_Text
begin

text \<open>
  The storage as an interface with its laws, the chain the writer builds and the verifier accepts over
  any storage that keeps them, and what a verified chain protects against.
\<close>

section \<open>Hexadecimal\<close>

lemma hex_digit_inj: "a < 16 \<Longrightarrow> b < 16 \<Longrightarrow> hex_digit a = hex_digit b \<Longrightarrow> a = b"
proof -
  have "distinct ''0123456789abcdef''" "length ''0123456789abcdef'' = 16" by simp_all
  then show "a < 16 \<Longrightarrow> b < 16 \<Longrightarrow> hex_digit a = hex_digit b \<Longrightarrow> a = b"
    unfolding hex_digit_def using nth_eq_iff_index_eq by metis
qed

lemma ToHex_Cons: "ToHex (b # bs) = hex_digit (unat b div 16) # hex_digit (unat b mod 16) # ToHex bs"
  by (simp add: ToHex_def)

lemma ToHex_Nil [simp]: "ToHex [] = []"
  by (simp add: ToHex_def)

lemma length_ToHex: "length (ToHex bs) = 2 * length bs"
  by (induction bs) (simp_all add: ToHex_Cons)

lemma ToHex_inj: "ToHex xs = ToHex ys \<Longrightarrow> xs = ys"
proof (induction xs arbitrary: ys)
  case Nil
  then show ?case using length_ToHex [of ys] by auto
next
  case (Cons x xs)
  then obtain y ys' where ys: "ys = y # ys'" by (cases ys) (auto simp: ToHex_Cons)
  have l: "unat x < 256" "unat y < 256" using unsigned_less [of x] unsigned_less [of y] by simp_all
  have "hex_digit (unat x div 16) = hex_digit (unat y div 16)" "hex_digit (unat x mod 16) = hex_digit (unat y mod 16)"
    "xs = ys'" using Cons by (auto simp: ys ToHex_Cons)
  then have "unat x div 16 = unat y div 16" "unat x mod 16 = unat y mod 16"
    using l by (auto intro!: hex_digit_inj)
  then have "unat x = unat y" by (metis div_mult_mod_eq)
  then have "x = y" by (simp add: word_unat_eq_iff)
  then show ?case using \<open>xs = ys'\<close> by (simp add: ys)
qed

lemma ToHex_eq_Nil: "ToHex xs = [] \<longleftrightarrow> xs = []"
  using length_ToHex [of xs] by auto

lemma canonical: "CanonicalizeAndHash lib v = ebind (HashJson lib v) (\<lambda>h. Inr (v, h))"
  by (simp add: CanonicalizeAndHash_def)

section \<open>Verified chains\<close>

definition record_ok :: "'j Lib \<Rightarrow> 'j DecisionRecord \<Rightarrow> bool" where
  "record_ok lib r \<longleftrightarrow> HashJson lib (dr_input r) = Inr (dr_input_hash r) \<and>
     HashJson lib (dr_output r) = Inr (dr_output_hash r) \<and> HashRecord lib r = Inr (dr_record_hash r)"

definition links :: "'j DecisionRecord \<Rightarrow> 'j DecisionRecord \<Rightarrow> bool" where
  "links p r \<longleftrightarrow> dr_prev_record_hash r = dr_record_hash p"

definition chain_ok :: "'j Lib \<Rightarrow> 'j DecisionRecord list \<Rightarrow> bool" where
  "chain_ok lib rs \<longleftrightarrow> (\<forall>r \<in> set rs. record_ok lib r) \<and> successively links rs"

lemma check_record_Inr:
  "check_record lib previous r = Inr u \<longleftrightarrow> record_ok lib r \<and> (\<forall>p. previous = Some p \<longrightarrow> links p r)"
  by (auto simp: check_record_def record_ok_def links_def ebind_Inr_iff split: option.splits)

lemma check_chain_Inr:
  "check_chain lib previous rs = Inr u \<longleftrightarrow> (\<forall>r \<in> set rs. record_ok lib r) \<and>
     successively links (case previous of None \<Rightarrow> rs | Some p \<Rightarrow> p # rs)"
proof (induction rs arbitrary: previous)
  case (Cons r rs)
  then show ?case by (cases previous) (auto simp: ebind_Inr_iff check_record_Inr)
qed (auto split: option.split)

lemma VerifyChain_Inr: "VerifyChain lib AllR st = Inr u \<longleftrightarrow> (\<exists>rs. AllR st = Inr rs \<and> chain_ok lib rs)"
  by (auto simp: VerifyChain_def ebind_Inr_iff check_chain_Inr chain_ok_def)

text \<open>Any contiguous part of a verified chain verifies: neither the first link nor the length is checked.\<close>

lemma chain_ok_part: "chain_ok lib rs \<Longrightarrow> chain_ok lib (take n (drop m rs))"
proof -
  assume c: "chain_ok lib rs"
  have "successively links (take m rs @ take n (drop m rs) @ drop n (drop m rs))"
    using c unfolding chain_ok_def append_take_drop_id by blast
  then have "successively links (take n (drop m rs))" by (simp only: successively_append_iff)
  then show ?thesis using c by (auto simp: chain_ok_def dest!: in_set_takeD in_set_dropD)
qed

section \<open>The writer over a storage\<close>

text \<open>A sequence of writes; one that throws leaves the storage as it was.\<close>

fun write_all ::
    "'j Lib \<Rightarrow> ('s \<Rightarrow> 'j DecisionRecord result) \<Rightarrow> ('s \<Rightarrow> 'j DecisionRecord \<Rightarrow> 's result) \<Rightarrow> 's \<Rightarrow>
     (Date \<times> 'j DecisionRecord) list \<Rightarrow> 's" where
  "write_all lib Latest Append st [] = st"
| "write_all lib Latest Append st ((now, r) # ws) =
     (case Write lib Latest Append now st r of
        Inr st' \<Rightarrow> write_all lib Latest Append st' ws
      | Inl e \<Rightarrow> write_all lib Latest Append st ws)"

locale audit_storage =
  fixes Append :: "'s \<Rightarrow> 'j DecisionRecord \<Rightarrow> 's result"
    and Latest :: "'s \<Rightarrow> 'j DecisionRecord result"
    and GetByRequestID :: "'s \<Rightarrow> string \<Rightarrow> 'j DecisionRecord result"
    and AllR :: "'s \<Rightarrow> 'j DecisionRecord list result"
  assumes all_append: "Append st r = Inr st' \<Longrightarrow> AllR st = Inr rs \<Longrightarrow> AllR st' = Inr (rs @ [r])"
    and latest_all: "AllR st = Inr rs \<Longrightarrow> Latest st = (if rs = [] then Inl AuditNotFoundError else Inr (last rs))"
    and get_all: "AllR st = Inr rs \<Longrightarrow> GetByRequestID st i =
        of_option AuditNotFoundError (find (\<lambda>r. dr_request_id r = i) (rev rs))"
begin

text \<open>What a write appends: the record with its hashes, linked to the last one.\<close>

lemma Write_record:
  assumes "Write lib Latest Append now st r = Inr st'" "AllR st = Inr rs"
  obtains w where "AllR st' = Inr (rs @ [w])" "record_ok lib w"
    "rs \<noteq> [] \<and> dr_record_hash (last rs) \<noteq> [] \<longrightarrow> links (last rs) w"
    "dr_request_id w = dr_request_id r" "dr_tool_name w = dr_tool_name r" "dr_input w = dr_input r"
    "dr_output w = dr_output r" "dr_status w = dr_status r" "dr_error w = dr_error r"
    "dr_recorded_at w = (if dr_recorded_at r = 0 then now else dr_recorded_at r)" "dr_random_seed w = dr_random_seed r"
proof -
  define r1 where "r1 = (if dr_recorded_at r = 0 then r\<lparr>dr_recorded_at := now\<rparr> else r)"
  have f: "dr_input r1 = dr_input r" "dr_output r1 = dr_output r" "dr_request_id r1 = dr_request_id r"
    "dr_tool_name r1 = dr_tool_name r" "dr_status r1 = dr_status r" "dr_error r1 = dr_error r"
    "dr_recorded_at r1 = (if dr_recorded_at r = 0 then now else dr_recorded_at r)" "dr_random_seed r1 = dr_random_seed r"
    by (simp_all add: r1_def)
  from assms(1) obtain prev ih oh h where p: "prev_hash_of Latest st (dr_prev_record_hash r1) = Inr prev"
    and hs: "HashJson lib (dr_input r) = Inr ih" "HashJson lib (dr_output r) = Inr oh"
    and h: "HashRecord lib (r1\<lparr>dr_prev_record_hash := prev, dr_input := dr_input r, dr_input_hash := ih,
      dr_output := dr_output r, dr_output_hash := oh\<rparr>) = Inr h"
    and a: "Append st (r1\<lparr>dr_prev_record_hash := prev, dr_input := dr_input r, dr_input_hash := ih,
      dr_output := dr_output r, dr_output_hash := oh, dr_record_hash := h\<rparr>) = Inr st'"
    unfolding Write_def Let_def r1_def [symmetric] by (auto simp: ebind_Inr_iff canonical f)
  let ?w = "r1\<lparr>dr_prev_record_hash := prev, dr_input := dr_input r, dr_input_hash := ih,
      dr_output := dr_output r, dr_output_hash := oh, dr_record_hash := h\<rparr>"
  have "HashRecord lib ?w = Inr h" using h by (simp add: HashRecord_def)
  then have ok: "record_ok lib ?w" using hs f by (simp add: record_ok_def)
  have "rs \<noteq> [] \<Longrightarrow> dr_record_hash (last rs) \<noteq> [] \<Longrightarrow> prev = dr_record_hash (last rs)"
    using p latest_all [OF assms(2)] by (auto simp: prev_hash_of_def)
  then show thesis using that [of ?w] all_append [OF a assms(2)] ok f by (simp add: links_def)
qed

text \<open>Hashes have digits when the digest has bytes; then a write keeps a chain verified.\<close>

lemma Write_chain:
  assumes "Write lib Latest Append now st r = Inr st'" "AllR st = Inr rs" "chain_ok lib rs"
    and sha: "\<And>s. lib_sha256 lib s \<noteq> []"
  shows "\<exists>rs'. AllR st' = Inr rs' \<and> chain_ok lib rs' \<and> length rs' = Suc (length rs)"
proof -
  obtain w where w: "AllR st' = Inr (rs @ [w])" "record_ok lib w"
    "rs \<noteq> [] \<and> dr_record_hash (last rs) \<noteq> [] \<longrightarrow> links (last rs) w"
    using assms(1,2) by (rule Write_record) blast
  have "dr_record_hash (last rs) \<noteq> []" if "rs \<noteq> []"
  proof -
    have "record_ok lib (last rs)" using assms(3) that by (simp add: chain_ok_def)
    then show ?thesis using sha by (auto simp: record_ok_def HashRecord_def HashJson_def HashBytes_def ebind_Inr_iff ToHex_eq_Nil)
  qed
  then have "chain_ok lib (rs @ [w])" using w assms(3) by (auto simp: chain_ok_def successively_append_iff)
  then show ?thesis using w(1) by auto
qed

lemma write_all_chain:
  assumes "\<And>s. lib_sha256 lib s \<noteq> []" "AllR st = Inr rs" "chain_ok lib rs"
  shows "\<exists>rs'. AllR (write_all lib Latest Append st ws) = Inr rs' \<and> chain_ok lib rs'"
  using assms(2,3)
proof (induction ws arbitrary: st rs)
  case (Cons w ws)
  obtain now r where w: "w = (now, r)" by (cases w)
  show ?case
  proof (cases "Write lib Latest Append now st r")
    case (Inl e)
    then show ?thesis using Cons by (simp add: w)
  next
    case (Inr st')
    from Write_chain [OF Inr Cons.prems assms(1)] obtain rs' where "AllR st' = Inr rs'" "chain_ok lib rs'" by blast
    from Cons.IH [OF this] show ?thesis using Inr by (simp add: w)
  qed
qed auto

text \<open>Replay finds what was written last under a request id.\<close>

lemma Replay_written:
  assumes "Write lib Latest Append now st r = Inr st'" "AllR st = Inr rs" "dr_request_id r \<noteq> []"
  shows "\<exists>w. Replay GetByRequestID st' (dr_request_id r) = Inr w \<and> AllR st' = Inr (rs @ [w]) \<and>
    dr_request_id w = dr_request_id r \<and> dr_input w = dr_input r \<and> dr_output w = dr_output r \<and> dr_status w = dr_status r"
proof -
  obtain w where w: "AllR st' = Inr (rs @ [w])" "dr_request_id w = dr_request_id r" "dr_input w = dr_input r"
    "dr_output w = dr_output r" "dr_status w = dr_status r"
    using assms(1,2) by (rule Write_record)
  then show ?thesis using get_all [OF w(1)] assms(3) by (simp add: Replay_def)
qed

end

interpretation memory: audit_storage Memory_Append Memory_Latest Memory_GetByRequestID Memory_All
  by unfold_locales (auto simp: Memory_Append_def Memory_Latest_def Memory_GetByRequestID_def Memory_All_def)

section \<open>Tamper evidence\<close>

text \<open>SHA-256 has no collision on the texts that were hashed for the records of a set \<open>S\<close>.\<close>

definition no_collision :: "'j Lib \<Rightarrow> 'j DecisionRecord set \<Rightarrow> bool" where
  "no_collision lib S \<longleftrightarrow>
     (\<forall>r \<in> S. \<forall>q \<in> S. \<forall>s t. lib_dump lib (record_to_json lib (r\<lparr>dr_record_hash := []\<rparr>)) = Inr s \<and>
        lib_dump lib (record_to_json lib (q\<lparr>dr_record_hash := []\<rparr>)) = Inr t \<and> lib_sha256 lib s = lib_sha256 lib t \<longrightarrow> s = t)"

lemma no_collision_mono: "no_collision lib S \<Longrightarrow> T' \<subseteq> S \<Longrightarrow> no_collision lib T'"
  unfolding no_collision_def by blast

text \<open>
  Two records that agree on everything the log hashes: on every field, but of the time only on its day, and of the
  input and the output on their JSON texts.
\<close>

definition same_record :: "'j Lib \<Rightarrow> 'j DecisionRecord \<Rightarrow> 'j DecisionRecord \<Rightarrow> bool" where
  "same_record lib r q \<longleftrightarrow>
     lib_format_date lib (dr_recorded_at r) = lib_format_date lib (dr_recorded_at q) \<and>
     same_text lib (dr_input r) (dr_input q) \<and> same_text lib (dr_output r) (dr_output q) \<and>
     q\<lparr>dr_recorded_at := dr_recorded_at r, dr_input := dr_input r, dr_output := dr_output r\<rparr> = r"

lemma same_recordD:
  "same_record lib r q \<Longrightarrow> dr_prev_record_hash r = dr_prev_record_hash q \<and> dr_record_hash r = dr_record_hash q"
  by (cases r; cases q) (simp add: same_record_def)

lemma record_fields:
  "q\<lparr>dr_recorded_at := dr_recorded_at r, dr_input := dr_input r, dr_output := dr_output r\<rparr> = r \<longleftrightarrow>
     dr_request_id r = dr_request_id q \<and> dr_tool_name r = dr_tool_name q \<and> dr_input_hash r = dr_input_hash q \<and>
     dr_output_hash r = dr_output_hash q \<and> dr_status r = dr_status q \<and> dr_error r = dr_error q \<and>
     dr_git_commit_sha r = dr_git_commit_sha q \<and> dr_package_version r = dr_package_version q \<and>
     dr_random_seed r = dr_random_seed q \<and> dr_prev_record_hash r = dr_prev_record_hash q \<and>
     dr_record_hash r = dr_record_hash q" for r q :: "'j DecisionRecord"
  by (cases r; cases q) auto

text \<open>The text of a record determines what is hashed of it.\<close>

lemma record_text:
  assumes "json_texts lib"
  shows "same_text lib (record_to_json lib r) (record_to_json lib q) \<longleftrightarrow>
    list_all2 (same_text lib)
      [lib_str lib (dr_request_id r), lib_str lib (lib_format_date lib (dr_recorded_at r)), lib_str lib (dr_tool_name r),
       dr_input r, lib_str lib (dr_input_hash r), dr_output r, lib_str lib (dr_output_hash r), lib_str lib (dr_status r),
       lib_str lib (dr_error r), lib_str lib (dr_git_commit_sha r), lib_str lib (dr_package_version r),
       lib_int lib (dr_random_seed r), lib_str lib (dr_prev_record_hash r), lib_str lib (dr_record_hash r)]
      [lib_str lib (dr_request_id q), lib_str lib (lib_format_date lib (dr_recorded_at q)), lib_str lib (dr_tool_name q),
       dr_input q, lib_str lib (dr_input_hash q), dr_output q, lib_str lib (dr_output_hash q), lib_str lib (dr_status q),
       lib_str lib (dr_error q), lib_str lib (dr_git_commit_sha q), lib_str lib (dr_package_version q),
       lib_int lib (dr_random_seed q), lib_str lib (dr_prev_record_hash q), lib_str lib (dr_record_hash q)]"
  unfolding record_to_json_def by (subst json_textsD(1) [OF assms]) (simp_all add: ascii_def)

lemma equal_hash_equal_record:
  assumes "json_texts lib" "no_collision lib S" "r \<in> S" "q \<in> S" "record_ok lib r" "record_ok lib q"
    and "dr_record_hash r = dr_record_hash q" "int64 (dr_random_seed r)" "int64 (dr_random_seed q)"
  shows "same_record lib r q"
proof -
  let ?a = "r\<lparr>dr_record_hash := []\<rparr>" and ?b = "q\<lparr>dr_record_hash := []\<rparr>"
  obtain s t where s: "lib_dump lib (record_to_json lib ?a) = Inr s" "lib_dump lib (record_to_json lib ?b) = Inr t"
    "ToHex (lib_sha256 lib s) = ToHex (lib_sha256 lib t)"
    using assms(5-7) by (auto simp: record_ok_def HashRecord_def HashJson_def HashBytes_def ebind_Inr_iff)
  then have "lib_sha256 lib s = lib_sha256 lib t" using ToHex_inj by blast
  then have "s = t" using assms(2-4) s(1,2) unfolding no_collision_def by blast
  then have "same_text lib (record_to_json lib ?a) (record_to_json lib ?b)" using s(1,2) by (simp add: same_text_def)
  then show ?thesis using assms(7-9)
    by (simp add: record_text [OF assms(1)] json_textsD(2) [OF assms(1)] json_textsD(4) [OF assms(1)] same_record_def record_fields)
qed

text \<open>Records that agree on what is hashed have the same hashes.\<close>

lemma same_record_hash:
  assumes "json_texts lib" "same_record lib r q" "record_ok lib r"
  shows "record_ok lib q"
proof -
  let ?a = "r\<lparr>dr_record_hash := []\<rparr>" and ?b = "q\<lparr>dr_record_hash := []\<rparr>"
  note f = assms(2) [unfolded same_record_def record_fields]
  obtain s where s: "lib_dump lib (record_to_json lib ?a) = Inr s"
    using assms(3) by (auto simp: record_ok_def HashRecord_def HashJson_def ebind_Inr_iff)
  then have "same_text lib (record_to_json lib ?a) (record_to_json lib ?a)" by (simp add: same_text_def)
  then have "same_text lib (record_to_json lib ?a) (record_to_json lib ?b)"
    unfolding record_text [OF assms(1)] using f by simp
  then have "HashRecord lib q = HashRecord lib r" using same_text_dump by (metis HashRecord_def HashJson_def)
  moreover have "HashJson lib (dr_input q) = HashJson lib (dr_input r)" "HashJson lib (dr_output q) = HashJson lib (dr_output r)"
    using f same_text_dump [of lib "dr_input r" "dr_input q"] same_text_dump [of lib "dr_output r" "dr_output q"]
    by (simp_all add: HashJson_def)
  ultimately show ?thesis using assms(3) f by (simp add: record_ok_def)
qed

text \<open>Two verified chains that end in the same record hash agree record by record from the end.\<close>

lemma same_head_same_history:
  assumes "chain_ok lib xs" "chain_ok lib ys" "length xs = length ys"
    and "xs \<noteq> [] \<longrightarrow> dr_record_hash (last xs) = dr_record_hash (last ys)" "json_texts lib"
    and "no_collision lib (set xs \<union> set ys)" "\<forall>r \<in> set xs \<union> set ys. int64 (dr_random_seed r)"
  shows "list_all2 (same_record lib) xs ys"
  using assms
proof (induction xs arbitrary: ys rule: rev_induct)
  case (snoc a xs)
  then obtain ys' b where ys: "ys = ys' @ [b]" by (cases ys rule: rev_cases) auto
  have ok: "record_ok lib a" "record_ok lib b" "chain_ok lib xs" "chain_ok lib ys'"
    using snoc.prems(1,2) by (auto simp: ys chain_ok_def successively_append_iff)
  have "no_collision lib (set xs \<union> set ys')"
    by (rule no_collision_mono [OF snoc.prems(6)]) (auto simp: ys)
  moreover have "\<forall>r \<in> set xs \<union> set ys'. int64 (dr_random_seed r)" using snoc.prems(7) by (simp add: ys)
  moreover have ab: "same_record lib a b"
    using equal_hash_equal_record [OF snoc.prems(5,6) _ _ ok(1,2)] snoc.prems(4,7) by (simp add: ys)
  then have "dr_prev_record_hash a = dr_prev_record_hash b" using same_recordD by blast
  then have "xs \<noteq> [] \<longrightarrow> dr_record_hash (last xs) = dr_record_hash (last ys')"
    using snoc.prems(1-3) by (auto simp: ys chain_ok_def successively_append_iff links_def)
  ultimately have "list_all2 (same_record lib) xs ys'" using snoc.IH [OF ok(3,4)] snoc.prems(3,5) by (simp add: ys)
  then show ?case using ab snoc.prems(3) by (simp add: ys list_all2_appendI)
qed simp

section \<open>Properties\<close>

text \<open>A library for the witnesses: JSON values are trees, the digest of a text is its bytes after a first byte.\<close>

definition sample_lib :: "tree Lib" where
  "sample_lib = \<lparr>lib_object = TObj, lib_str = TStr, lib_int = TInt, lib_null = TNull, lib_dump = tree_dump,
     lib_sha256 = (\<lambda>s. 7 # map of_char s), lib_format_date = (\<lambda>d. if d < 0 then ''-'' else ''+'')\<rparr>"

lemma sample_lib_texts: "json_texts sample_lib"
  by (rule tree_texts) (simp_all add: sample_lib_def)

lemma sample_dump_ok: "\<exists>s. lib_dump sample_lib v = Inr s"
  by (simp add: sample_lib_def tree_dump_def)

lemma sample_hash_ok: "\<exists>s. HashJson sample_lib v = Inr s" "\<exists>s. HashRecord sample_lib r = Inr s"
proof -
  show h: "\<exists>s. HashJson sample_lib v = Inr s" for v using sample_dump_ok [of v] by (auto simp: HashJson_def)
  show "\<exists>s. HashRecord sample_lib r = Inr s" unfolding HashRecord_def by (rule h)
qed

lemma sample_digest [simp]: "lib_sha256 sample_lib s \<noteq> []"
  by (simp add: sample_lib_def)

definition sample_decision :: "string \<Rightarrow> tree DecisionRecord" where
  "sample_decision i = \<lparr>dr_request_id = i, dr_recorded_at = 0, dr_tool_name = ''run_backtest'', dr_input = TStr ''x'',
     dr_input_hash = [], dr_output = TInt 3, dr_output_hash = [], dr_status = ''ok'', dr_error = [],
     dr_git_commit_sha = [], dr_package_version = [], dr_random_seed = 0, dr_prev_record_hash = [], dr_record_hash = []\<rparr>"

lemma sample_write_ok: "\<exists>st'. Write sample_lib Memory_Latest Memory_Append now st r = Inr st'"
proof -
  have "\<exists>p. prev_hash_of Memory_Latest st g = Inr p" for g
    by (simp add: prev_hash_of_def Memory_Latest_def)
  moreover obtain i o' where "HashJson sample_lib (dr_input r) = Inr i" "HashJson sample_lib (dr_output r) = Inr o'"
    using sample_hash_ok(1) by blast
  ultimately show ?thesis using sample_hash_ok(2)
    by (auto simp: Write_def Let_def canonical ebind_def Memory_Append_def split: sum.split) (metis sum.distinct(1))+
qed

text \<open>C3: whatever is written, in any order and with writes that throw in between, the log in memory
  verifies: every record's hashes are those of its contents and every record links to the one before.\<close>

theorem audit_chain_verifies:
  assumes "\<And>s. lib_sha256 lib s \<noteq> []"
  shows "VerifyChain lib Memory_All (write_all lib Memory_Latest Memory_Append [] writes) = Inr ()"
proof -
  have "Memory_All [] = Inr ([] :: 'a DecisionRecord list)" "chain_ok lib []"
    by (simp_all add: Memory_All_def chain_ok_def)
  from memory.write_all_chain [OF assms this, of writes] show ?thesis
    by (simp add: VerifyChain_Inr)
qed

theorem audit_chain_verifies_witness:
  "VerifyChain sample_lib Memory_All
     (write_all sample_lib Memory_Latest Memory_Append [] [(5, sample_decision ''a''), (6, sample_decision ''b'')]) = Inr ()"
  by (rule audit_chain_verifies) simp

text \<open>A write appends one record, keeps the ones before, and a replay of its request id finds it, with its
  input, output and status.\<close>

theorem audit_write:
  assumes "Write lib Memory_Latest Memory_Append now st r = Inr st'" "dr_request_id r \<noteq> []"
  shows "\<exists>w. st' = st @ [w] \<and> Replay Memory_GetByRequestID st' (dr_request_id r) = Inr w \<and>
    dr_input w = dr_input r \<and> dr_output w = dr_output r \<and> dr_status w = dr_status r"
  using memory.Replay_written [OF assms(1) _ assms(2), of st] by (auto simp: Memory_All_def)

theorem audit_write_witness:
  "\<exists>st' w. Write sample_lib Memory_Latest Memory_Append 5 [] (sample_decision ''a'') = Inr st' \<and> st' = [w] \<and>
     Replay Memory_GetByRequestID st' ''a'' = Inr w \<and> dr_output w = TInt 3"
proof -
  obtain st' where w: "Write sample_lib Memory_Latest Memory_Append 5 [] (sample_decision ''a'') = Inr st'"
    using sample_write_ok by blast
  from audit_write [OF w] show ?thesis using w by (auto simp: sample_decision_def)
qed

text \<open>C4: two logs of the same length that both verify and end in the same record hash agree, record by
  record, on every field, on the JSON texts of the input and the output and on the day of the time, if SHA-256 has no
  collision on the texts of these records: a change of any of that in a past record changes the last hash. The time
  of day is not hashed and can be changed.\<close>

theorem audit_tamper_evident:
  assumes "VerifyChain lib Memory_All xs = Inr ()" "VerifyChain lib Memory_All ys = Inr ()" "length xs = length ys"
    and "xs \<noteq> [] \<longrightarrow> dr_record_hash (last xs) = dr_record_hash (last ys)" "json_texts lib"
    and "no_collision lib (set xs \<union> set ys)" "\<forall>r \<in> set xs \<union> set ys. int64 (dr_random_seed r)"
  shows "list_all2 (same_record lib) xs ys"
  using assms(1,2) same_head_same_history [OF _ _ assms(3-7)] by (simp add: VerifyChain_Inr Memory_All_def)

text \<open>The log of one record, and the same with another time on the same day.\<close>

lemma sample_logs:
  "\<exists>w. VerifyChain sample_lib Memory_All [w] = Inr () \<and> 0 \<le> dr_recorded_at w \<and> int64 (dr_random_seed w)"
proof -
  obtain st' where w: "Write sample_lib Memory_Latest Memory_Append 5 [] (sample_decision ''a'') = Inr st'"
    using sample_write_ok by blast
  obtain w where "st' = [w]" "record_ok sample_lib w" "dr_recorded_at w = 5" "dr_random_seed w = 0"
    by (rule memory.Write_record [OF w, of "[]"]) (auto simp: Memory_All_def sample_decision_def that)
  then show ?thesis by (intro exI [of _ w]) (simp add: VerifyChain_Inr Memory_All_def chain_ok_def int64_def)
qed

lemma later_same_json:
  assumes "0 \<le> dr_recorded_at w"
  shows "record_to_json sample_lib (w\<lparr>dr_recorded_at := dr_recorded_at w + 1, dr_record_hash := h\<rparr>) =
    record_to_json sample_lib (w\<lparr>dr_record_hash := h\<rparr>)"
  using assms by (simp add: record_to_json_def sample_lib_def)

lemma of_char_word: "(of_char x :: 8 word) = of_char y \<longleftrightarrow> x = y"
proof
  assume "(of_char x :: 8 word) = of_char y"
  then have "unat (of_nat (of_char x :: nat) :: 8 word) = unat (of_nat (of_char y :: nat) :: 8 word)"
    by (simp only: of_nat_of_char)
  then have "(of_char x :: nat) = of_char y"
    using nat_of_char_less_256 [of x] nat_of_char_less_256 [of y] by (simp add: unat_of_nat)
  then show "x = y" by simp
qed simp

lemma sample_no_collision: "no_collision sample_lib S"
proof -
  have "map (of_char :: char \<Rightarrow> 8 word) s = map of_char t \<Longrightarrow> s = t" for s t
    by (rule map_injective) (auto intro!: injI simp: of_char_word)
  then show ?thesis by (auto simp: no_collision_def sample_lib_def)
qed

theorem audit_tamper_evident_witness:
  "\<exists>w. VerifyChain sample_lib Memory_All [w] = Inr () \<and>
     list_all2 (same_record sample_lib) [w] [w\<lparr>dr_recorded_at := dr_recorded_at w + 1\<rparr>]"
proof -
  obtain w where w: "VerifyChain sample_lib Memory_All [w] = Inr ()" "0 \<le> dr_recorded_at w" "int64 (dr_random_seed w)"
    using sample_logs by blast
  let ?w = "w\<lparr>dr_recorded_at := dr_recorded_at w + 1\<rparr>"
  have "HashRecord sample_lib ?w = HashRecord sample_lib w"
    using later_same_json [OF w(2), of "[]"] by (simp add: HashRecord_def)
  then have v: "VerifyChain sample_lib Memory_All [?w] = Inr ()"
    using w(1) by (simp add: VerifyChain_Inr Memory_All_def chain_ok_def record_ok_def)
  have "list_all2 (same_record sample_lib) [w] [?w]"
    by (rule audit_tamper_evident [OF w(1) v]) (simp_all add: sample_lib_texts sample_no_collision w(3))
  then show ?thesis using w(1) by blast
qed

text \<open>The verifier checks neither the first link nor the number of records: any contiguous part of a
  log that verifies also verifies, so records removed at either end go unnoticed.\<close>

theorem audit_truncation:
  assumes "VerifyChain lib Memory_All records = Inr ()"
  shows "VerifyChain lib Memory_All (take n (drop m records)) = Inr ()"
  using assms chain_ok_part [of lib records n m] by (simp add: VerifyChain_Inr Memory_All_def)


theorem audit_truncation_witness:
  "VerifyChain sample_lib Memory_All (take 1 (drop 1
     (write_all sample_lib Memory_Latest Memory_Append [] [(5, sample_decision ''a''), (6, sample_decision ''b'')]))) = Inr ()"
proof -
  have "Memory_All [] = Inr ([] :: tree DecisionRecord list)" "chain_ok sample_lib []"
    by (simp_all add: Memory_All_def chain_ok_def)
  from memory.write_all_chain [OF sample_digest this, of "[(5, sample_decision ''a''), (6, sample_decision ''b'')]"]
  have "VerifyChain sample_lib Memory_All
      (write_all sample_lib Memory_Latest Memory_Append [] [(5, sample_decision ''a''), (6, sample_decision ''b'')]) = Inr ()"
    by (simp add: VerifyChain_Inr)
  then show ?thesis by (rule audit_truncation)
qed

end
