(* ===== verification/Concurrent_Writers.thy ===== *)
theory Concurrent_Writers
  imports Threads Audit_Trail_Facts
begin

text \<open>
  \<^verbatim>\<open>audit/writer.cpp\<close> under the threads of the HTTP server. A call of \<^verbatim>\<open>Writer::Write\<close> is cut into its atomic
  actions: the mutex is taken, the last record is read (one step, by the mutex of the storage), the
  sealed record is appended (one step again), the mutex is given back, however the call ends.
\<close>

section \<open>The actions of a write\<close>

definition timed :: "Date \<Rightarrow> 'j DecisionRecord \<Rightarrow> 'j DecisionRecord" where
  "timed now r = (if dr_recorded_at r = 0 then r\<lparr>dr_recorded_at := now\<rparr> else r)"

definition seal :: "'j Lib \<Rightarrow> string \<Rightarrow> 'j DecisionRecord \<Rightarrow> 'j DecisionRecord result" where
  "seal lib prev r =
     (let r = r\<lparr>dr_prev_record_hash := prev\<rparr>
      in ebind (CanonicalizeAndHash lib (dr_input r)) (\<lambda>(input_json, input_hash).
         let r = r\<lparr>dr_input := input_json, dr_input_hash := input_hash\<rparr>
         in ebind (CanonicalizeAndHash lib (dr_output r)) (\<lambda>(output_json, output_hash).
            let r = r\<lparr>dr_output := output_json, dr_output_hash := output_hash\<rparr>
            in ebind (HashRecord lib r) (\<lambda>h. Inr (r\<lparr>dr_record_hash := h\<rparr>)))))"

type_synonym 'j write_call = "Date \<times> 'j DecisionRecord"

datatype 'j writer_pc = Idle | Entered "'j DecisionRecord" | Linked string "'j DecisionRecord" | Leaving "unit result"

record ('j, 's) Writers =
  wr_storage :: 's
  wr_mutex :: "nat option"
  wr_pc :: "nat \<Rightarrow> 'j writer_pc"
  wr_todo :: "nat \<Rightarrow> 'j write_call list"
  wr_done :: "(nat \<times> 'j write_call \<times> unit result) list"

definition writer_action ::
    "'j Lib \<Rightarrow> ('s \<Rightarrow> 'j DecisionRecord result) \<Rightarrow> ('s \<Rightarrow> 'j DecisionRecord \<Rightarrow> 's result) \<Rightarrow>
     nat \<Rightarrow> ('j, 's) Writers \<Rightarrow> ('j, 's) Writers option" where
  "writer_action lib Latest Append i s =
     (case wr_pc s i of
        Idle \<Rightarrow>
          (case wr_todo s i of
             [] \<Rightarrow> None
           | (now, r) # calls \<Rightarrow>
               if wr_mutex s \<noteq> None then None
               else Some (s\<lparr>wr_mutex := Some i, wr_pc := (wr_pc s)(i := Entered (timed now r))\<rparr>))
      | Entered r \<Rightarrow>
          (case prev_hash_of Latest (wr_storage s) (dr_prev_record_hash r) of
             Inr prev \<Rightarrow> Some (s\<lparr>wr_pc := (wr_pc s)(i := Linked prev r)\<rparr>)
           | Inl e \<Rightarrow> Some (s\<lparr>wr_pc := (wr_pc s)(i := Leaving (Inl e))\<rparr>))
      | Linked prev r \<Rightarrow>
          (case ebind (seal lib prev r) (Append (wr_storage s)) of
             Inr storage \<Rightarrow> Some (s\<lparr>wr_storage := storage, wr_pc := (wr_pc s)(i := Leaving (Inr ()))\<rparr>)
           | Inl e \<Rightarrow> Some (s\<lparr>wr_pc := (wr_pc s)(i := Leaving (Inl e))\<rparr>))
      | Leaving res \<Rightarrow>
          Some (s\<lparr>wr_mutex := None, wr_pc := (wr_pc s)(i := Idle), wr_todo := (wr_todo s)(i := tl (wr_todo s i)),
            wr_done := wr_done s @ [(i, hd (wr_todo s i), res)]\<rparr>))"

definition writers_start :: "'s \<Rightarrow> (nat \<Rightarrow> 'j write_call list) \<Rightarrow> ('j, 's) Writers" where
  "writers_start st calls =
     \<lparr>wr_storage = st, wr_mutex = None, wr_pc = (\<lambda>i. Idle), wr_todo = calls, wr_done = []\<rparr>"

lemma Write_actions:
  "Write lib Latest Append now st r =
     ebind (prev_hash_of Latest st (dr_prev_record_hash (timed now r))) (\<lambda>prev.
     ebind (seal lib prev (timed now r)) (Append st))"
  by (simp add: Write_def seal_def timed_def Let_def canonical ebind_def split: sum.split)

section \<open>The specification: one call after the other\<close>

fun serial_writes ::
    "'j Lib \<Rightarrow> ('s \<Rightarrow> 'j DecisionRecord result) \<Rightarrow> ('s \<Rightarrow> 'j DecisionRecord \<Rightarrow> 's result) \<Rightarrow> 's \<Rightarrow>
     'j write_call list \<Rightarrow> unit result list \<times> 's" where
  "serial_writes lib Latest Append st [] = ([], st)"
| "serial_writes lib Latest Append st ((now, r) # calls) =
     (case Write lib Latest Append now st r of
        Inl e \<Rightarrow> (case serial_writes lib Latest Append st calls of (rs, st') \<Rightarrow> (Inl e # rs, st'))
      | Inr st1 \<Rightarrow> (case serial_writes lib Latest Append st1 calls of (rs, st') \<Rightarrow> (Inr () # rs, st')))"

lemma serial_writes_snoc:
  "serial_writes lib L A st (calls @ [(now, r)]) =
     (case serial_writes lib L A st calls of (rs, st1) \<Rightarrow>
        (case Write lib L A now st1 r of Inl e \<Rightarrow> (rs @ [Inl e], st1) | Inr st2 \<Rightarrow> (rs @ [Inr ()], st2)))"
  by (induction calls arbitrary: st) (auto split: sum.split prod.split)

lemma serial_writes_storage: "snd (serial_writes lib L A st calls) = write_all lib L A st calls"
  by (induction calls arbitrary: st) (auto simp: case_prod_unfold split: sum.split)

section \<open>The invariant\<close>

text \<open>The calls that are over, in their order, and the storage and the results they give one after the other.\<close>

definition calls_of :: "('j, 's) Writers \<Rightarrow> 'j write_call list" where
  "calls_of s = map (\<lambda>(i, call, res). call) (wr_done s)"

definition results_of :: "('j, 's) Writers \<Rightarrow> unit result list" where
  "results_of s = map (\<lambda>(i, call, res). res) (wr_done s)"

definition calls_by :: "nat \<Rightarrow> ('j, 's) Writers \<Rightarrow> 'j write_call list" where
  "calls_by i s = map (\<lambda>(i, call, res). call) (filter (\<lambda>(j, call, res). j = i) (wr_done s))"

text \<open>What the thread that holds the mutex has made of the storage \<open>base\<close> it found.\<close>

definition writing ::
    "'j Lib \<Rightarrow> ('s \<Rightarrow> 'j DecisionRecord result) \<Rightarrow> ('s \<Rightarrow> 'j DecisionRecord \<Rightarrow> 's result) \<Rightarrow> 's \<Rightarrow>
     'j write_call \<Rightarrow> 'j writer_pc \<Rightarrow> 's \<Rightarrow> bool" where
  "writing lib Latest Append base call pc st = (case call of (now, r) \<Rightarrow>
     (case pc of
        Idle \<Rightarrow> False
      | Entered q \<Rightarrow> q = timed now r \<and> st = base
      | Linked prev q \<Rightarrow> q = timed now r \<and> st = base \<and> prev_hash_of Latest base (dr_prev_record_hash q) = Inr prev
      | Leaving res \<Rightarrow> (case Write lib Latest Append now base r of
            Inr st' \<Rightarrow> st = st' \<and> res = Inr () | Inl e \<Rightarrow> st = base \<and> res = Inl e)))"

definition writers_inv ::
    "'j Lib \<Rightarrow> ('s \<Rightarrow> 'j DecisionRecord result) \<Rightarrow> ('s \<Rightarrow> 'j DecisionRecord \<Rightarrow> 's result) \<Rightarrow> 's \<Rightarrow>
     (nat \<Rightarrow> 'j write_call list) \<Rightarrow> ('j, 's) Writers \<Rightarrow> bool" where
  "writers_inv lib Latest Append st calls s \<longleftrightarrow>
     (\<forall>i. calls_by i s @ wr_todo s i = calls i) \<and>
     (\<forall>i. wr_mutex s \<noteq> Some i \<longrightarrow> wr_pc s i = Idle) \<and>
     results_of s = fst (serial_writes lib Latest Append st (calls_of s)) \<and>
     (let base = snd (serial_writes lib Latest Append st (calls_of s)) in
      (case wr_mutex s of
         None \<Rightarrow> wr_storage s = base
       | Some i \<Rightarrow> wr_todo s i \<noteq> [] \<and> writing lib Latest Append base (hd (wr_todo s i)) (wr_pc s i) (wr_storage s)))"

lemma writing_storage:
  "writing lib L A base call pc st \<Longrightarrow> st = base \<or> (\<exists>now r. Write lib L A now base r = Inr st)"
  by (cases call; cases pc) (auto simp: writing_def split: sum.splits)

lemma writers_inv_start: "writers_inv lib L A st calls (writers_start st calls)"
  by (simp add: writers_inv_def writers_start_def calls_by_def calls_of_def results_of_def Let_def)

lemma writers_inv_action:
  assumes "writers_inv lib L A st calls s" "writer_action lib L A i s = Some t"
  shows "writers_inv lib L A st calls t"
proof -
  note defs = writers_inv_def writer_action_def writing_def Let_def calls_by_def calls_of_def results_of_def
  have pc: "wr_pc s i \<noteq> Idle \<Longrightarrow> wr_mutex s = Some i" using assms(1) by (auto simp: writers_inv_def)
  show ?thesis
  proof (cases "wr_pc s i")
    case Idle
    then obtain now r where c: "wr_todo s i = (now, r) # tl (wr_todo s i)" "wr_mutex s = None"
      "t = s\<lparr>wr_mutex := Some i, wr_pc := (wr_pc s)(i := Entered (timed now r))\<rparr>"
      using assms(2) by (auto simp: writer_action_def split: list.splits if_splits)
    then have "hd (wr_todo s i) = (now, r)" by (metis list.sel(1))
    then show ?thesis using assms(1) c by (auto simp: defs)
  next
    case (Entered q)
    then show ?thesis using assms pc by (auto simp: defs Write_actions ebind_def split: sum.splits prod.splits)
  next
    case (Linked prev q)
    then show ?thesis using assms pc by (auto simp: defs Write_actions ebind_def split: sum.splits prod.splits)
  next
    case (Leaving res)
    obtain now r where c: "hd (wr_todo s i) = (now, r)" by fastforce
    then have todo: "wr_todo s i \<noteq> [] \<Longrightarrow> (now, r) # tl (wr_todo s i) = wr_todo s i" by (metis list.collapse)
    show ?thesis using assms pc Leaving
      by (auto simp: defs c todo serial_writes_snoc case_prod_unfold split: sum.splits)
  qed
qed


lemma writers_inv_follow:
  "follow (writer_action lib L A) sched (writers_start st calls) = Some s \<Longrightarrow> writers_inv lib L A st calls s"
  by (erule follow_inv) (auto intro: writers_inv_start writers_inv_action)

text \<open>Every action brings a call nearer to its end.\<close>

definition passed :: "'j writer_pc \<Rightarrow> nat" where
  "passed pc = (case pc of Idle \<Rightarrow> 0 | Entered r \<Rightarrow> 1 | Linked prev r \<Rightarrow> 2 | Leaving res \<Rightarrow> 3)"

definition left_to_do :: "nat \<Rightarrow> ('j, 's) Writers \<Rightarrow> nat" where
  "left_to_do n s = (\<Sum>i<n. 4 * length (wr_todo s i) - passed (wr_pc s i))"

lemma writer_action_less:
  assumes "writers_inv lib L A st calls s" "writer_action lib L A i s = Some t" "\<forall>i \<ge> n. calls i = []"
  shows "left_to_do n t < left_to_do n s"
proof -
  have "wr_pc s i \<noteq> Idle \<Longrightarrow> wr_mutex s = Some i" using assms(1) by (auto simp: writers_inv_def)
  then have pc: "wr_pc s i \<noteq> Idle \<Longrightarrow> wr_todo s i \<noteq> []" using assms(1) by (simp add: writers_inv_def Let_def)
  then have todo: "wr_todo s i \<noteq> []"
    using assms(2) by (cases "wr_pc s i") (auto simp: writer_action_def split: list.splits)
  then have "calls i \<noteq> []" using assms(1) unfolding writers_inv_def by (metis append_is_Nil_conv)
  then have "i < n" using assms(3) by (meson not_le)
  then show ?thesis unfolding left_to_do_def
  proof (rule sum_one_less)
    show "4 * length (wr_todo t i) - passed (wr_pc t i) < 4 * length (wr_todo s i) - passed (wr_pc s i)"
    proof (cases "wr_pc s i")
      case Idle
      then show ?thesis using assms(2) todo
        by (auto simp: writer_action_def passed_def split: list.splits if_splits)
    next
      case (Entered q)
      then show ?thesis using assms(2) todo
        by (auto simp: writer_action_def passed_def neq_Nil_conv split: sum.splits)
    next
      case (Linked prev q)
      then show ?thesis using assms(2) todo
        by (auto simp: writer_action_def passed_def neq_Nil_conv split: sum.splits)
    next
      case (Leaving res)
      then show ?thesis using assms(2) todo
        by (auto simp: writer_action_def passed_def neq_Nil_conv)
    qed
    show "j \<noteq> i \<Longrightarrow> 4 * length (wr_todo t j) - passed (wr_pc t j) = 4 * length (wr_todo s j) - passed (wr_pc s j)" for j
      using assms(2) by (cases "wr_pc s i") (auto simp: writer_action_def split: list.splits if_splits sum.splits)
  qed
qed

lemma writers_stuck:
  assumes "writers_inv lib L A st calls s" "stuck (writer_action lib L A) s"
  shows "wr_mutex s = None" "wr_todo s i = []"
proof -
  have n: "writer_action lib L A j s = None" for j using assms(2) by (simp add: stuck_def)
  have "wr_pc s j = Idle" for j
    using n [of j] by (cases "wr_pc s j") (auto simp: writer_action_def split: sum.splits)
  then show m: "wr_mutex s = None"
    using assms(1) by (auto simp: writers_inv_def writing_def Let_def split: option.splits prod.splits)
  show "wr_todo s i = []" using n [of i] m \<open>\<And>j. wr_pc s j = Idle\<close>
    by (auto simp: writer_action_def split: list.splits)
qed

section \<open>Properties\<close>

text \<open>C7: whatever threads write at the same time and however they are scheduled, the calls of each thread end
  in its order, and the storage and the results are those of some sequence of the calls one after the other; at every
  moment the log in memory verifies.\<close>

theorem writers_serializable:
  assumes "follow (writer_action lib Memory_Latest Memory_Append) sched (writers_start st calls) = Some s"
    and "VerifyChain lib Memory_All st = Inr ()" "\<And>s. lib_sha256 lib s \<noteq> []"
  shows "(\<forall>i. calls_by i s @ wr_todo s i = calls i) \<and>
    results_of s = fst (serial_writes lib Memory_Latest Memory_Append st (calls_of s)) \<and>
    (wr_mutex s = None \<longrightarrow> wr_storage s = snd (serial_writes lib Memory_Latest Memory_Append st (calls_of s))) \<and>
    VerifyChain lib Memory_All (wr_storage s) = Inr ()"
proof -
  let ?base = "snd (serial_writes lib Memory_Latest Memory_Append st (calls_of s))"
  have i: "writers_inv lib Memory_Latest Memory_Append st calls s" by (rule writers_inv_follow [OF assms(1)])
  have base: "chain_ok lib ?base"
    using memory.write_all_chain [OF assms(3), of st st "calls_of s"] assms(2)
    by (auto simp: serial_writes_storage VerifyChain_Inr Memory_All_def)
  have "chain_ok lib (wr_storage s)"
  proof (cases "wr_mutex s")
    case None
    then show ?thesis using i base by (simp add: writers_inv_def Let_def)
  next
    case (Some j)
    then have "writing lib Memory_Latest Memory_Append ?base (hd (wr_todo s j)) (wr_pc s j) (wr_storage s)"
      using i by (simp add: writers_inv_def Let_def)
    from writing_storage [OF this]
    have "wr_storage s = ?base \<or> (\<exists>now r. Write lib Memory_Latest Memory_Append now ?base r = Inr (wr_storage s))" .
    then show ?thesis using base memory.Write_chain [OF _ _ base assms(3)] by (auto simp: Memory_All_def)
  qed
  moreover have "VerifyChain lib Memory_All (wr_storage s) = Inr ()" if "chain_ok lib (wr_storage s)"
    using that by (simp add: VerifyChain_Inr Memory_All_def)
  ultimately show ?thesis using i by (auto simp: writers_inv_def Let_def)
qed

text \<open>Two calls of one thread and one of another, which comes in between.\<close>

definition sample_calls :: "nat \<Rightarrow> tree write_call list" where
  "sample_calls i =
     (if i = 0 then [(5, sample_decision ''a''), (6, sample_decision ''b'')] else if i = 1 then [(7, sample_decision ''c'')] else [])"

lemma sample_seal_ok: "\<exists>r'. seal sample_lib prev r = Inr r'"
proof -
  obtain a b where "HashJson sample_lib (dr_input r) = Inr a" "HashJson sample_lib (dr_output r) = Inr b"
    using sample_hash_ok(1) by blast
  then show ?thesis using sample_hash_ok(2) by (auto simp: seal_def Let_def canonical ebind_def split: sum.split)
      (metis sum.distinct(1))+
qed

text \<open>Four actions make a call, when no thread is in one.\<close>

lemma four_actions:
  assumes "wr_mutex s = None" "wr_pc s i = Idle" "wr_todo s i = (now, r) # calls"
    "s' = s\<lparr>wr_storage := st', wr_todo := (wr_todo s)(i := calls), wr_done := wr_done s @ [(i, (now, r), Inr ())]\<rparr>"
    and "Write lib L A now (wr_storage s) r = Inr st'"
  shows "follow (writer_action lib L A) [i, i, i, i] s = Some s'"
proof -
  obtain prev where p: "prev_hash_of L (wr_storage s) (dr_prev_record_hash (timed now r)) = Inr prev"
    "ebind (seal lib prev (timed now r)) (A (wr_storage s)) = Inr st'"
    using assms(5) unfolding Write_actions by (auto simp: ebind_Inr_iff)
  then show ?thesis using assms(1-4) by (simp add: writer_action_def fun_upd_idem)
qed

lemma sample_run:
  obtains st where "follow (writer_action sample_lib Memory_Latest Memory_Append) [0, 0, 0, 0, 1, 1, 1, 1] (writers_start [] sample_calls) =
    Some \<lparr>wr_storage = st, wr_mutex = None, wr_pc = (\<lambda>i. Idle),
      wr_todo = sample_calls(0 := [(6, sample_decision ''b'')], 1 := []),
      wr_done = [(0, (5, sample_decision ''a''), Inr ()), (1, (7, sample_decision ''c''), Inr ())]\<rparr>"
proof -
  obtain st1 where a: "Write sample_lib Memory_Latest Memory_Append 5 [] (sample_decision ''a'') = Inr st1"
    using sample_write_ok by blast
  obtain st2 where c: "Write sample_lib Memory_Latest Memory_Append 7 st1 (sample_decision ''c'') = Inr st2"
    using sample_write_ok by blast
  let ?act = "writer_action sample_lib Memory_Latest Memory_Append"
  let ?s1 = "\<lparr>wr_storage = st1, wr_mutex = None, wr_pc = (\<lambda>i. Idle),
      wr_todo = sample_calls(0 := [(6, sample_decision ''b'')]), wr_done = [(0, (5, sample_decision ''a''), Inr ())]\<rparr>"
  have "follow ?act [0, 0, 0, 0] (writers_start [] sample_calls) = Some ?s1"
    using a by (intro four_actions [where st' = st1]) (simp_all add: writers_start_def sample_calls_def)
  moreover have "follow ?act [1, 1, 1, 1] ?s1 =
    Some \<lparr>wr_storage = st2, wr_mutex = None, wr_pc = (\<lambda>i. Idle),
      wr_todo = sample_calls(0 := [(6, sample_decision ''b'')], 1 := []),
      wr_done = [(0, (5, sample_decision ''a''), Inr ()), (1, (7, sample_decision ''c''), Inr ())]\<rparr>"
    using c by (intro four_actions [where st' = st2]) (simp_all add: sample_calls_def)
  ultimately show thesis
    using that follow_append [of ?act "[0, 0, 0, 0]" "[1, 1, 1, 1]" "writers_start [] sample_calls"] by simp
qed

theorem writers_serializable_witness:
  "\<exists>s. follow (writer_action sample_lib Memory_Latest Memory_Append) [0, 0, 0, 0, 1, 1, 1, 1, 0] (writers_start [] sample_calls) = Some s \<and>
     calls_by 0 s = [(5, sample_decision ''a'')] \<and> calls_by 1 s = [(7, sample_decision ''c'')] \<and>
     VerifyChain sample_lib Memory_All (wr_storage s) = Inr ()"
proof -
  let ?act = "writer_action sample_lib Memory_Latest Memory_Append"
  obtain st where r: "follow ?act [0, 0, 0, 0, 1, 1, 1, 1] (writers_start [] sample_calls) =
    Some \<lparr>wr_storage = st, wr_mutex = None, wr_pc = (\<lambda>i. Idle),
      wr_todo = sample_calls(0 := [(6, sample_decision ''b'')], 1 := []),
      wr_done = [(0, (5, sample_decision ''a''), Inr ()), (1, (7, sample_decision ''c''), Inr ())]\<rparr>" (is "_ = Some ?s")
    by (rule sample_run)
  have m: "?act 0 ?s = Some (?s\<lparr>wr_mutex := Some 0, wr_pc := (wr_pc ?s)(0 := Entered (timed 6 (sample_decision ''b'')))\<rparr>)"
    (is "_ = Some ?t") by (simp add: writer_action_def)
  have f: "follow ?act [0, 0, 0, 0, 1, 1, 1, 1, 0] (writers_start [] sample_calls) = Some ?t"
    using r m follow_append [of ?act "[0, 0, 0, 0, 1, 1, 1, 1]" "[0]" "writers_start [] sample_calls"] by simp
  have c: "calls_by 0 ?t = [(5, sample_decision ''a'')]" "calls_by 1 ?t = [(7, sample_decision ''c'')]"
    by (simp_all add: calls_by_def)
  have "VerifyChain sample_lib Memory_All [] = Inr ()"
    by (simp add: VerifyChain_Inr Memory_All_def chain_ok_def)
  from writers_serializable [OF f this sample_digest] f c show ?thesis by blast
qed

text \<open>C24: writers never wait for each other forever: a run has at most four steps per call, and one that cannot go on
  has made every call.\<close>

theorem writers_finish:
  assumes "follow (writer_action lib Latest Append) sched (writers_start st calls) = Some s" "\<forall>i \<ge> n. calls i = []"
  shows "length sched \<le> 4 * (\<Sum>i<n. length (calls i)) \<and>
    (stuck (writer_action lib Latest Append) s \<longrightarrow> wr_mutex s = None \<and> (\<forall>i. calls_by i s = calls i))"
proof -
  have "length sched + left_to_do n s \<le> left_to_do n (writers_start st calls)"
    using assms(1) writers_inv_start [of lib Latest Append st calls]
    by (rule follow_measure [where I = "writers_inv lib Latest Append st calls"])
      (auto intro: writers_inv_action writer_action_less [OF _ _ assms(2)])
  moreover have "left_to_do n (writers_start st calls) = 4 * (\<Sum>i<n. length (calls i))"
    by (simp add: left_to_do_def writers_start_def passed_def sum_distrib_left)
  ultimately show ?thesis
    using writers_inv_follow [OF assms(1)] writers_stuck [OF writers_inv_follow [OF assms(1)]]
    by (fastforce simp: writers_inv_def)
qed

theorem writers_finish_witness:
  "\<exists>s. follow (writer_action sample_lib Memory_Latest Memory_Append) [0, 0, 0, 0, 1, 1, 1, 1, 0, 0, 0, 0] (writers_start [] sample_calls) = Some s \<and>
     calls_by 0 s = sample_calls 0 \<and> calls_by 1 s = sample_calls 1 \<and> (12 :: nat) \<le> 4 * (\<Sum>i < 2. length (sample_calls i))"
proof -
  let ?act = "writer_action sample_lib Memory_Latest Memory_Append"
  obtain st where r: "follow ?act [0, 0, 0, 0, 1, 1, 1, 1] (writers_start [] sample_calls) =
    Some \<lparr>wr_storage = st, wr_mutex = None, wr_pc = (\<lambda>i. Idle),
      wr_todo = sample_calls(0 := [(6, sample_decision ''b'')], 1 := []),
      wr_done = [(0, (5, sample_decision ''a''), Inr ()), (1, (7, sample_decision ''c''), Inr ())]\<rparr>" (is "_ = Some ?s")
    by (rule sample_run)
  obtain st' where b: "Write sample_lib Memory_Latest Memory_Append 6 st (sample_decision ''b'') = Inr st'"
    using sample_write_ok by blast
  let ?t = "?s\<lparr>wr_storage := st', wr_todo := (wr_todo ?s)(0 := []),
    wr_done := wr_done ?s @ [(0, (6, sample_decision ''b''), Inr ())]\<rparr>"
  have "follow ?act [0, 0, 0, 0] ?s = Some ?t" using b by (intro four_actions [where st' = st']) simp_all
  then have f: "follow ?act [0, 0, 0, 0, 1, 1, 1, 1, 0, 0, 0, 0] (writers_start [] sample_calls) = Some ?t"
    using r follow_append [of ?act "[0, 0, 0, 0, 1, 1, 1, 1]" "[0, 0, 0, 0]" "writers_start [] sample_calls"] by simp
  have n: "\<forall>i \<ge> 2. sample_calls i = []" by (simp add: sample_calls_def)
  have "stuck ?act ?t" by (auto simp: stuck_def writer_action_def sample_calls_def)
  then show ?thesis using writers_finish [OF f n] f by auto
qed

section \<open>Two processes\<close>

text \<open>
  The mutex is the writer's, and a server process has its own. Where two processes write to one storage, both may
  read the last record before either appends; the chain of what they append then verifies only if a record
  has the hash of the one before it.
\<close>

context audit_storage
begin

lemma two_processes_fork:
  assumes "AllR st = Inr rs" "seal lib prev a = Inr ra" "seal lib prev b = Inr rb"
    and "Append st ra = Inr st1" "Append st1 rb = Inr st2"
  shows "AllR st2 = Inr (rs @ [ra, rb])"
    "VerifyChain lib AllR st2 = Inr () \<Longrightarrow> dr_record_hash ra = prev"
proof -
  have "AllR st1 = Inr (rs @ [ra])" using all_append [OF assms(4,1)] .
  from all_append [OF assms(5) this] show a: "AllR st2 = Inr (rs @ [ra, rb])" by simp
  have "dr_prev_record_hash rb = prev" using assms(3) by (auto simp: seal_def Let_def ebind_Inr_iff)
  then show "VerifyChain lib AllR st2 = Inr () \<Longrightarrow> dr_record_hash ra = prev"
    using a by (auto simp: VerifyChain_Inr chain_ok_def successively_append_iff links_def)
qed

end

end
