(* ===== verification/Jacobi_Exact.thy ===== *)
theory Jacobi_Exact
  imports Complex_Main Analysis Min_Variance
begin

text \<open>
  The Jacobi iteration read over the real numbers: every rotation keeps the matrix of eigenvectors
  orthogonal, keeps the rotated matrix similar to the input, zeroes its entry and makes the off-diagonal
  part smaller.
\<close>

section \<open>Plane rotations\<close>

definition plane :: "real \<Rightarrow> real \<Rightarrow> nat \<Rightarrow> nat \<Rightarrow> (nat \<Rightarrow> real) \<Rightarrow> nat \<Rightarrow> real" where
  "plane c s p q x j = (if j = p then c * x p - s * x q else if j = q then s * x p + c * x q else x j)"

text \<open>Sums over the indices, with those of the plane apart.\<close>

lemma sum_split2:
  assumes "p < (n :: nat)" "q < n" "p \<noteq> q"
  shows "(\<Sum>j < n. f j) = f p + f q + (\<Sum>j \<in> {..<n} - {p, q}. f j :: real)"
proof -
  have "(\<Sum>j < n. f j) = (\<Sum>j \<in> {p, q}. f j) + (\<Sum>j \<in> {..<n} - {p, q}. f j)"
    using assms by (subst sum.subset_diff [of "{p, q}"]) (auto simp: add.commute)
  then show ?thesis using assms by simp
qed

lemma plane_inner:
  assumes "p < n" "q < n" "p \<noteq> q" "c * c + s * s = 1"
  shows "(\<Sum>j < n. plane c s p q x j * plane c s p q y j) = (\<Sum>j < n. x j * y j)"
proof -
  have "(c * x p - s * x q) * (c * y p - s * y q) + (s * x p + c * x q) * (s * y p + c * y q) =
      (c * c + s * s) * (x p * y p + x q * y q)" by algebra
  then show ?thesis using assms by (simp add: sum_split2 [OF assms(1-3)] plane_def)
qed

lemma plane_sum: "(\<Sum>k < n. plane c s p q (v k) i * x k) = plane c s p q (\<lambda>i. \<Sum>k < n. v k i * x k) i"
  by (simp add: plane_def left_diff_distrib distrib_right sum.distrib sum_subtractf sum_distrib_left mult.assoc)

lemma plane_gram:
  "(\<Sum>k < n. plane c s p q (v k) i * plane c s p q (v k) j) =
   plane c s p q (\<lambda>i. plane c s p q (\<lambda>j. \<Sum>k < n. v k i * v k j) j) i"
proof -
  have "(\<Sum>k < n. v k i * plane c s p q (v k) j) = plane c s p q (\<lambda>j. \<Sum>k < n. v k i * v k j) j" for i
    using plane_sum [where v = v and i = j and x = "\<lambda>k. v k i"] by (simp add: mult.commute)
  then show ?thesis by (simp add: plane_sum)
qed

lemma plane_delta:
  assumes "p \<noteq> q" "c * c + s * s = 1"
  shows "plane c s p q (\<lambda>i. plane c s p q (\<lambda>j. if i = j then 1 else 0) j) i = (if i = j then 1 else 0)"
  using assms by (auto simp: plane_def algebra_simps)

text \<open>A bilinear form of rotated rows is the rotated form.\<close>

lemma plane_form:
  "(\<Sum>k < n. \<Sum>l < n. plane c s p q (v k) i * m k l * plane c s p q (v l) j) =
   plane c s p q (\<lambda>i. plane c s p q (\<lambda>j. \<Sum>k < n. \<Sum>l < n. v k i * m k l * v l j) j) i"
proof -
  have "(\<Sum>k < n. \<Sum>l < n. plane c s p q (v k) i * m k l * plane c s p q (v l) j) =
      (\<Sum>k < n. plane c s p q (v k) i * (\<Sum>l < n. plane c s p q (v l) j * m k l))"
    by (simp add: sum_distrib_left ac_simps)
  also have "\<dots> = plane c s p q (\<lambda>i. \<Sum>k < n. v k i * (\<Sum>l < n. plane c s p q (v l) j * m k l)) i"
    by (rule plane_sum)
  also have "(\<lambda>i. \<Sum>k < n. v k i * (\<Sum>l < n. plane c s p q (v l) j * m k l)) =
      (\<lambda>i. plane c s p q (\<lambda>j. \<Sum>k < n. \<Sum>l < n. v k i * m k l * v l j) j)"
  proof
    fix i
    have "(\<Sum>k < n. v k i * (\<Sum>l < n. plane c s p q (v l) j * m k l)) =
        (\<Sum>l < n. plane c s p q (v l) j * (\<Sum>k < n. v k i * m k l))"
      by (simp add: sum_distrib_left ac_simps) (subst sum.swap, rule refl)
    also have "\<dots> = plane c s p q (\<lambda>j. \<Sum>l < n. v l j * (\<Sum>k < n. v k i * m k l)) j" by (rule plane_sum)
    also have "(\<lambda>j. \<Sum>l < n. v l j * (\<Sum>k < n. v k i * m k l)) = (\<lambda>j. \<Sum>k < n. \<Sum>l < n. v k i * m k l * v l j)"
      by (rule ext, subst sum.swap) (simp add: sum_distrib_left ac_simps)
    finally show "(\<Sum>k < n. v k i * (\<Sum>l < n. plane c s p q (v l) j * m k l)) =
        plane c s p q (\<lambda>j. \<Sum>k < n. \<Sum>l < n. v k i * m k l * v l j) j" .
  qed
  finally show ?thesis .
qed

section \<open>The code's rotations\<close>

lemma rotate_columns_nth:
  assumes "rows_of n n a" "p < n" "q < n" "p \<noteq> q" "i < n" "j < n"
  shows "rotate_columns c s p q a ! i ! j = plane c s p q (\<lambda>j. a ! i ! j) j"
  using assms by (auto simp: rotate_columns_def plane_def rows_of_def)

lemma rotate_rows_nth:
  assumes "rows_of n n a" "p < n" "q < n" "p \<noteq> q" "i < n" "j < n"
  shows "rotate_rows c s p q a ! i ! j = plane c s p q (\<lambda>i. a ! i ! j) i"
  using assms by (auto simp: rotate_rows_def plane_def rows_of_def)

lemma rows_of_rotate:
  assumes "rows_of n n a" "p < n" "q < n"
  shows "rows_of n n (rotate_columns c s p q a)" "rows_of n n (rotate_rows c s p q a)"
  using assms by (auto simp: rotate_columns_def rotate_rows_def rows_of_def nth_list_update)

section \<open>The angle\<close>

lemma jacobi_angle:
  fixes a :: "real list list"
  assumes "jacobi_angle of_rat sqrt a p q = (c, s)" "a ! p ! q \<noteq> 0"
  shows "c * c + s * s = 1" "c * s * (a ! p ! p - a ! q ! q) + (c * c - s * s) * a ! p ! q = 0"
proof -
  define theta where "theta = (a ! q ! q - a ! p ! p) / (2 * a ! p ! q)"
  define r where "r = sqrt (theta * theta + 1)"
  define t where "t = (if 0 \<le> theta then 1 else - 1) / (\<bar>theta\<bar> + r)"
  have c: "c = 1 / sqrt (t * t + 1)" and s: "s = t * c"
    using assms(1) by (auto simp: jacobi_angle_def Let_def theta_def r_def t_def of_rat_minus)
  have pos: "0 < t * t + 1" by (simp add: add_nonneg_pos)
  have cc: "c * c * (t * t + 1) = 1" using pos by (simp add: c)
  then show "c * c + s * s = 1" by (simp add: s algebra_simps)
  have rr: "r * r = theta * theta + 1" "0 < r" by (simp_all add: r_def add_nonneg_pos)
  then have "0 < \<bar>theta\<bar> + r" by linarith
  define e where "e = (if 0 \<le> theta then 1 else - 1 :: real)"
  have e: "e * e = 1" "e * \<bar>theta\<bar> = theta" by (auto simp: e_def)
  have "t * (\<bar>theta\<bar> + r) = e" using \<open>0 < \<bar>theta\<bar> + r\<close> by (simp add: t_def e_def)
  moreover have "e * (r - \<bar>theta\<bar>) * (\<bar>theta\<bar> + r) = e"
  proof -
    have "e * (r - \<bar>theta\<bar>) * (\<bar>theta\<bar> + r) = e * (r * r - theta * theta)" by (simp add: algebra_simps)
    then show ?thesis using rr(1) by simp
  qed
  ultimately have "t = e * (r - \<bar>theta\<bar>)" using \<open>0 < \<bar>theta\<bar> + r\<close> by (metis less_irrefl mult_right_cancel)
  then have t: "t = e * r - theta" using e(2) by (simp add: right_diff_distrib)
  have "t * t + 2 * theta * t = e * e * (r * r) - theta * theta" by (simp add: t algebra_simps)
  then have quad: "t * t + 2 * theta * t - 1 = 0" using rr(1) e(1) by simp
  have d: "a ! p ! p - a ! q ! q = - (2 * theta * a ! p ! q)" using assms(2) by (simp add: theta_def field_simps)
  have "c * s * (a ! p ! p - a ! q ! q) + (c * c - s * s) * a ! p ! q = - (c * c * a ! p ! q * (t * t + 2 * theta * t - 1))"
    unfolding d s by (simp add: algebra_simps)
  then show "c * s * (a ! p ! p - a ! q ! q) + (c * c - s * s) * a ! p ! q = 0" by (simp add: quad)
qed

section \<open>The invariant\<close>

definition form :: "nat \<Rightarrow> (nat \<Rightarrow> nat \<Rightarrow> real) \<Rightarrow> (nat \<Rightarrow> nat \<Rightarrow> real) \<Rightarrow> nat \<Rightarrow> nat \<Rightarrow> real" where
  "form n m v i j = (\<Sum>k < n. \<Sum>l < n. v k i * m k l * v l j)"

definition entry :: "real list list \<Rightarrow> nat \<Rightarrow> nat \<Rightarrow> real" where
  "entry a i j = a ! i ! j"

text \<open>The sum of the squares off the diagonal.\<close>

definition off :: "nat \<Rightarrow> (nat \<Rightarrow> nat \<Rightarrow> real) \<Rightarrow> real" where
  "off n a = (\<Sum>i < n. \<Sum>j < n. a i j * a i j) - (\<Sum>i < n. a i i * a i i)"

definition jacobi_inv :: "real list list \<Rightarrow> real list list \<times> real list list \<Rightarrow> bool" where
  "jacobi_inv m av \<longleftrightarrow>
     (let n = length m; a = entry (fst av); v = entry (snd av) in
      rows_of n n (fst av) \<and> rows_of n n (snd av) \<and>
      (\<forall>i < n. \<forall>j < n. (\<Sum>k < n. v k i * v k j) = (if i = j then 1 else 0)) \<and>
      (\<forall>i < n. \<forall>j < n. a i j = form n (entry m) v i j) \<and>
      (\<Sum>i < n. a i i) = (\<Sum>i < n. entry m i i) \<and> off n a \<le> off n (entry m))"

lemma form_symmetric:
  assumes "\<And>i j. i < n \<Longrightarrow> j < n \<Longrightarrow> m i j = m j i"
  shows "form n m v i j = form n m v j i"
proof -
  have "form n m v i j = (\<Sum>l < n. \<Sum>k < n. v k i * m k l * v l j)" unfolding form_def by (rule sum.swap)
  also have "\<dots> = form n m v j i" unfolding form_def using assms by (intro sum.cong) (auto simp: ac_simps)
  finally show ?thesis .
qed

text \<open>A rotation of a symmetric matrix: the trace stays, and the off-diagonal part loses the entry it zeroes.\<close>

lemma rotated_matrix:
  assumes pq: "p < n" "q < n" "p \<noteq> q" and cs: "c * c + s * s = 1"
    and sym: "a p q = a q p" and zero: "c * s * (a p p - a q q) + (c * c - s * s) * a p q = 0"
  defines "b \<equiv> \<lambda>i j. plane c s p q (\<lambda>i. plane c s p q (a i) j) i"
  shows "(\<Sum>i < n. b i i) = (\<Sum>i < n. a i i)" "off n b = off n a - 2 * a p q * a p q"
proof -
  have pp: "b p p = c * (c * a p p - s * a p q) - s * (c * a q p - s * a q q)"
    and qq: "b q q = s * (s * a p p + c * a p q) + c * (s * a q p + c * a q q)"
    and qp: "b p q = c * (s * a p p + c * a p q) - s * (s * a q p + c * a q q)"
    using pq(3) by (simp_all add: b_def plane_def)
  have z: "b p q = 0" unfolding qp using zero sym by (simp add: algebra_simps)
  have rest: "(\<Sum>j \<in> {..<n} - {p, q}. f (b j j)) = (\<Sum>j \<in> {..<n} - {p, q}. f (a j j))" for f :: "real \<Rightarrow> real"
    by (intro sum.cong) (auto simp: b_def plane_def)
  have "b p p + b q q = (c * c + s * s) * (a p p + a q q)"
    by (simp add: pp qq sym [symmetric] algebra_simps)
  then show "(\<Sum>i < n. b i i) = (\<Sum>i < n. a i i)" using rest [of id] cs by (simp add: sum_split2 [OF pq])
  have "b p p * b p p + b q q * b q q + 2 * b p q * b p q =
      (c * c + s * s) * (c * c + s * s) * (a p p * a p p + a q q * a q q + 2 * a p q * a p q)"
    by (simp add: pp qq qp sym [symmetric] algebra_simps)
  then have d: "(\<Sum>i < n. b i i * b i i) = (\<Sum>i < n. a i i * a i i) + 2 * a p q * a p q"
    using rest [of "\<lambda>x. x * x"] cs z by (simp add: sum_split2 [OF pq])
  have "(\<Sum>i < n. \<Sum>j < n. b i j * b i j) = (\<Sum>j < n. \<Sum>i < n. b i j * b i j)" by (rule sum.swap)
  also have "\<dots> = (\<Sum>j < n. \<Sum>i < n. plane c s p q (a i) j * plane c s p q (a i) j)"
    unfolding b_def by (intro sum.cong refl plane_inner [OF pq cs])
  also have "\<dots> = (\<Sum>i < n. \<Sum>j < n. plane c s p q (a i) j * plane c s p q (a i) j)" by (rule sum.swap)
  also have "\<dots> = (\<Sum>i < n. \<Sum>j < n. a i j * a i j)" by (intro sum.cong refl plane_inner [OF pq cs])
  finally show "off n b = off n a - 2 * a p q * a p q" by (simp add: off_def d)
qed


lemma jacobi_rotate_inv:
  assumes inv: "jacobi_inv m (a, v)" and sym: "symmetric m" and pq: "p < length m" "q < length m" "p \<noteq> q"
  shows "jacobi_inv m (jacobi_rotate of_rat sqrt (a, v) (p, q))"
proof (cases "\<bar>a ! p ! q\<bar> < of_rat (1 / 10 ^ 300)")
  case True
  then show ?thesis using inv by (simp add: jacobi_rotate_def)
next
  case False
  let ?n = "length m"
  obtain c s where ang: "jacobi_angle of_rat sqrt a p q = (c, s)" by (cases "jacobi_angle of_rat sqrt a p q")
  let ?b = "rotate_rows c s p q (rotate_columns c s p q a)" and ?w = "rotate_columns c s p q v"
  have step: "jacobi_rotate of_rat sqrt (a, v) (p, q) = (?b, ?w)" using False ang by (simp add: jacobi_rotate_def)
  have "(0 :: real) < of_rat (1 / 10 ^ 300)" by (simp only: zero_less_of_rat_iff) simp
  then have nz: "a ! p ! q \<noteq> 0" using False by auto
  have sq: "rows_of ?n ?n a" "rows_of ?n ?n v"
    and orth: "\<And>i j. i < ?n \<Longrightarrow> j < ?n \<Longrightarrow> (\<Sum>k < ?n. entry v k i * entry v k j) = (if i = j then 1 else 0)"
    and sim: "\<And>i j. i < ?n \<Longrightarrow> j < ?n \<Longrightarrow> entry a i j = form ?n (entry m) (entry v) i j"
    and tr: "(\<Sum>i < ?n. entry a i i) = (\<Sum>i < ?n. entry m i i)" and of: "off ?n (entry a) \<le> off ?n (entry m)"
    using inv unfolding jacobi_inv_def Let_def fst_conv snd_conv by blast+
  have msym: "entry m i j = entry m j i" if "i < ?n" "j < ?n" for i j
    using sym that by (simp add: symmetric_def list_all_iff entry_def)
  have asym: "entry a p q = entry a q p" using sim pq form_symmetric [OF msym] by simp
  note cs = jacobi_angle [OF ang nz]
  have b: "entry ?b i j = plane c s p q (\<lambda>i. plane c s p q (entry a i) j) i" if "i < ?n" "j < ?n" for i j
    using rotate_rows_nth [OF rows_of_rotate(1) [OF sq(1) pq(1,2)] pq that]
      rotate_columns_nth [OF sq(1) pq] that pq by (simp add: entry_def [abs_def] plane_def)
  have w: "entry ?w k i = plane c s p q (entry v k) i" if "k < ?n" "i < ?n" for k i
    using rotate_columns_nth [OF sq(2) pq that] by (simp add: entry_def [abs_def])
  have "(\<Sum>k < ?n. entry ?w k i * entry ?w k j) = (if i = j then 1 else 0)" if ij: "i < ?n" "j < ?n" for i j
  proof -
    have "(\<Sum>k < ?n. entry ?w k i * entry ?w k j) =
        (\<Sum>k < ?n. plane c s p q (entry v k) i * plane c s p q (entry v k) j)" using w ij by simp
    also have "\<dots> = plane c s p q (\<lambda>i. plane c s p q (\<lambda>j. \<Sum>k < ?n. entry v k i * entry v k j) j) i"
      by (rule plane_gram)
    also have "\<dots> = plane c s p q (\<lambda>i. plane c s p q (\<lambda>j. if i = j then 1 else 0) j) i"
      using orth ij pq by (simp add: plane_def)
    also have "\<dots> = (if i = j then 1 else 0)" by (rule plane_delta [OF pq(3) cs(1)])
    finally show ?thesis .
  qed
  moreover have "entry ?b i j = form ?n (entry m) (entry ?w) i j" if ij: "i < ?n" "j < ?n" for i j
  proof -
    have "form ?n (entry m) (entry ?w) i j =
        (\<Sum>k < ?n. \<Sum>l < ?n. plane c s p q (entry v k) i * entry m k l * plane c s p q (entry v l) j)"
      using w ij by (simp add: form_def)
    also have "\<dots> = plane c s p q (\<lambda>i. plane c s p q (form ?n (entry m) (entry v) i) j) i"
      unfolding plane_form form_def [abs_def] by simp
    also have "\<dots> = plane c s p q (\<lambda>i. plane c s p q (entry a i) j) i"
      using sim ij pq by (simp add: plane_def)
    finally show ?thesis using b ij by simp
  qed
  moreover have "rows_of ?n ?n ?b" "rows_of ?n ?n ?w"
    using rows_of_rotate pq sq by blast+
  moreover have "(\<Sum>i < ?n. entry ?b i i) = (\<Sum>i < ?n. entry m i i)"
    and "off ?n (entry ?b) = off ?n (entry a) - 2 * entry a p q * entry a p q"
    using rotated_matrix [OF pq cs(1) asym] cs(2) b tr by (simp_all add: off_def entry_def [symmetric])
  moreover from this(2) have "off ?n (entry ?b) \<le> off ?n (entry m)"
    using of zero_le_square [of "entry a p q"] by linarith
  ultimately show ?thesis unfolding step jacobi_inv_def Let_def fst_conv snd_conv by blast
qed


lemma upper_pairs_mem: "(p, q) \<in> set (upper_pairs n) \<longleftrightarrow> p < q \<and> q < n"
  by (force simp: upper_pairs_def)

lemma jacobi_fold_inv:
  assumes "symmetric m" "jacobi_inv m av" "set pqs \<subseteq> set (upper_pairs (length m))"
  shows "jacobi_inv m (foldl (jacobi_rotate of_rat sqrt) av pqs)"
  using assms(2,3)
proof (induction pqs arbitrary: av)
  case (Cons pq pqs)
  obtain a v p q where av: "av = (a, v)" "pq = (p, q)" by (cases av; cases pq)
  then have "p < length m" "q < length m" "p \<noteq> q" using Cons.prems(2) by (auto simp: upper_pairs_mem)
  then have "jacobi_inv m (jacobi_rotate of_rat sqrt av pq)" using jacobi_rotate_inv assms(1) Cons.prems(1) av by blast
  then show ?case using Cons.IH Cons.prems(2) by simp
qed simp

lemma jacobi_sweeps_inv:
  assumes "symmetric m" "jacobi_inv m av"
  shows "jacobi_inv m (jacobi_sweeps k of_rat sqrt av)"
  using assms(2)
proof (induction k arbitrary: av)
  case (Suc k)
  have "length (fst av) = length m" using Suc.prems by (simp add: jacobi_inv_def Let_def rows_of_def)
  then have "jacobi_inv m (foldl (jacobi_rotate of_rat sqrt) av (upper_pairs (length (fst av))))"
    using jacobi_fold_inv [OF assms(1) Suc.prems] by simp
  then show ?case using Suc by simp
qed simp

lemma jacobi_start:
  assumes "rows_of n n m" "n = length m"
  shows "jacobi_inv m (m, map (\<lambda>i. (replicate n 0)[i := 1]) [0..<n])"
proof -
  let ?v = "map (\<lambda>i. (replicate n (0 :: real))[i := 1]) [0..<n]"
  have v: "entry ?v k i = (if k = i then 1 else 0)" if "k < n" "i < n" for k i
    using that by (auto simp: entry_def nth_list_update)
  have "form n (entry m) (entry ?v) i j = entry m i j" if ij: "i < n" "j < n" for i j
  proof -
    have "form n (entry m) (entry ?v) i j = (\<Sum>k < n. if k = i then entry m k j else 0)"
      unfolding form_def
    proof (rule sum.cong [OF refl])
      fix k assume k: "k \<in> {..<n}"
      have "(\<Sum>l < n. entry ?v k i * entry m k l * entry ?v l j) = (\<Sum>l < n. if l = j then entry ?v k i * entry m k l else 0)"
        using v ij by (intro sum.cong) auto
      then show "(\<Sum>l < n. entry ?v k i * entry m k l * entry ?v l j) = (if k = i then entry m k j else 0)"
        using v k ij by simp
    qed
    then show ?thesis using ij by simp
  qed
  moreover have "(\<Sum>k < n. entry ?v k i * entry ?v k j) = (if i = j then 1 else 0)" if ij: "i < n" "j < n" for i j
  proof -
    have "(\<Sum>k < n. entry ?v k i * entry ?v k j) = (\<Sum>k < n. if k = i then (if i = j then 1 else 0) else 0)"
      using v ij by (intro sum.cong) auto
    then show ?thesis using ij by simp
  qed
  moreover have "rows_of n n ?v" by (simp add: rows_of_def)
  ultimately show ?thesis using assms by (simp add: jacobi_inv_def Let_def)
qed

section \<open>Properties\<close>

text \<open>C32: the Jacobi eigendecomposition, read over the real numbers, is right up to what it leaves off the
  diagonal: for a symmetric matrix \<open>m\<close> the matrix of eigenvectors \<open>v\<close> is orthogonal, the eigenvalues are
  the diagonal of \<open>v\<^sup>T m v\<close>, they sum to the trace of \<open>m\<close>, and the squares off the diagonal of
  \<open>v\<^sup>T m v\<close> sum to no more than those of \<open>m\<close>.\<close>

theorem jacobi_eigen:
  assumes "rows_of n n m" "n = length m" "symmetric m" "JacobiEigen of_rat sqrt m = (eigenvalues, v)"
  shows "length eigenvalues = n \<and>
    (\<forall>i < n. \<forall>j < n. (\<Sum>k < n. v ! k ! i * v ! k ! j) = (if i = j then 1 else 0)) \<and>
    (\<forall>i < n. eigenvalues ! i = form n (entry m) (entry v) i i) \<and>
    (\<Sum>i < n. eigenvalues ! i) = (\<Sum>i < n. m ! i ! i) \<and>
    off n (form n (entry m) (entry v)) \<le> off n (entry m)"
proof -
  let ?start = "(m, map (\<lambda>i. (replicate n 0)[i := 1]) [0..<n])"
  obtain a w where aw: "jacobi_sweeps 100 of_rat sqrt ?start = (a, w)" by (cases "jacobi_sweeps 100 of_rat sqrt ?start")
  have ev: "eigenvalues = map (\<lambda>i. a ! i ! i) [0..<n]" "v = w"
    using assms(4) aw by (simp_all add: JacobiEigen_def Let_def assms(2))
  have "jacobi_inv m (a, w)" using jacobi_sweeps_inv [OF assms(3) jacobi_start [OF assms(1,2)], of 100] aw by simp
  then have inv: "\<And>i j. i < n \<Longrightarrow> j < n \<Longrightarrow> (\<Sum>k < n. entry w k i * entry w k j) = (if i = j then 1 else 0)"
    "\<And>i j. i < n \<Longrightarrow> j < n \<Longrightarrow> entry a i j = form n (entry m) (entry w) i j"
    "(\<Sum>i < n. entry a i i) = (\<Sum>i < n. entry m i i)" "off n (entry a) \<le> off n (entry m)"
    unfolding jacobi_inv_def Let_def fst_conv snd_conv assms(2) by blast+
  have "off n (form n (entry m) (entry w)) = off n (entry a)" using inv(2) by (simp add: off_def)
  then show ?thesis using inv by (simp add: ev entry_def)
qed

theorem jacobi_eigen_witness:
  "rows_of 2 2 [[0, 1], [1, 0 :: real]] \<and>
   JacobiEigen of_rat sqrt [[0, 1], [1, 0]] = ([- 1, 1], [[1 / sqrt 2, 1 / sqrt 2], [- (1 / sqrt 2), 1 / sqrt 2]]) \<and>
   (\<Sum>i < 2. [- 1, 1 :: real] ! i) = (\<Sum>i < 2. [[0, 1], [1, 0 :: real]] ! i ! i)"
proof -
  let ?m = "[[0, 1], [1, 0 :: real]]" and ?d = "[[- 1, 0], [0, 1 :: real]]"
  let ?v = "[[1 / sqrt 2, 1 / sqrt 2], [- (1 / sqrt 2), 1 / sqrt 2]]"
  have one: "[0..<Suc (Suc 0)] = [0, Suc 0]" "[Suc 0..<Suc (Suc 0)] = [Suc 0]" by (simp_all add: upt_rec)
  have h: "1 / sqrt 2 * (1 / sqrt 2) = (1 / 2 :: real)" by simp
  have small: "\<not> 1 < (of_rat (1 / 10 ^ 30) :: real)" "\<not> 1 < (of_rat (1 / 10 ^ 300) :: real)"
    "(0 :: real) < of_rat (1 / 10 ^ 30)"
    by (simp_all only: one_less_of_rat_iff zero_less_of_rat_iff) simp_all
  have pairs: "upper_pairs 2 = [(0, 1)]" by (simp add: upper_pairs_def numeral_2_eq_2 one)
  have off: "off_diagonal ?m = 1" "off_diagonal ?d = 0" using pairs by (simp_all add: off_diagonal_def numeral_2_eq_2)
  have "jacobi_angle of_rat sqrt ?m 0 1 = (1 / sqrt 2, 1 / sqrt 2)" by (simp add: jacobi_angle_def)
  then have "jacobi_rotate of_rat sqrt (?m, [[1, 0], [0, 1]]) (0, 1) = (?d, ?v)"
    using h small by (simp add: jacobi_rotate_def rotate_rows_def rotate_columns_def one)
  then have "jacobi_sweeps 100 of_rat sqrt (?m, [[1, 0], [0, 1]]) = (?d, ?v)"
    using off small pairs by (simp add: eval_nat_numeral)
  then have r: "JacobiEigen of_rat sqrt ?m = ([- 1, 1], ?v)" by (simp add: JacobiEigen_def one)
  have s: "rows_of 2 2 ?m" "symmetric ?m" by (auto simp: rows_of_def less_2_cases_iff symmetric_def one)
  have l: "2 = length ?m" by simp
  show ?thesis using jacobi_eigen [OF s(1) l s(2) r] r s(1) by blast
qed

end
