(* ===== verification/Api_Core.thy ===== *)
theory Api_Core
  imports Audit_Trail_Facts
begin

text \<open>
  \<^verbatim>\<open>core/uuid.hpp\<close>, \<^verbatim>\<open>api/auth.hpp\<close> and the parts of \<^verbatim>\<open>api/helpers.hpp\<close> that do not depend on the HTTP
  library: identifiers, API-key authorization, the payload limit, the status of an error, the choice
  of the tool, and the audit record of a request.
\<close>

unbundle bit_operations_syntax

section \<open>Identifiers\<close>

text \<open>The version and variant bits set in the sixteen random bytes, then the text with its dashes.\<close>

definition stamp_uuid :: "8 word list \<Rightarrow> 8 word list" where
  "stamp_uuid bytes =
     (let bytes = bytes[6 := (bytes ! 6 AND 0x0f) OR 0x40]
      in bytes[8 := (bytes ! 8 AND 0x3f) OR 0x80])"

definition hex2 :: "8 word \<Rightarrow> string" where
  "hex2 b = [hex_digit (unat b div 16), hex_digit (unat b mod 16)]"

definition uuid_text :: "8 word list \<Rightarrow> string" where
  "uuid_text bytes =
     concat (map (\<lambda>i. (if i = 4 \<or> i = 6 \<or> i = 8 \<or> i = 10 then ''-'' else []) @ hex2 (bytes ! i)) [0..<length bytes])"

definition GenerateUuid :: "8 word list \<Rightarrow> string" where
  "GenerateUuid random_bytes = uuid_text (stamp_uuid random_bytes)"

section \<open>Authorization\<close>

record AuthConfig =
  au_enabled :: bool
  au_api_key :: string

definition kMaxBodySize :: nat where
  "kMaxBodySize = 16 * 1024 * 1024"

definition ConstantTimeEqual :: "string \<Rightarrow> string \<Rightarrow> bool" where
  "ConstantTimeEqual a b =
     (if length a \<noteq> length b then False
      else foldl (\<lambda>diff i. diff OR ((of_char (a ! i) :: 8 word) XOR of_char (b ! i))) 0 [0..<length a] = 0)"

definition IsAuthorized :: "AuthConfig \<Rightarrow> string \<Rightarrow> string \<Rightarrow> bool" where
  "IsAuthorized cfg url presented_key =
     (if \<not> au_enabled cfg then True
      else if url = ''/health'' then True
      else if au_api_key cfg = [] then False
      else ConstantTimeEqual presented_key (au_api_key cfg))"

text \<open>The middleware in their order: the status with which a request is refused before its handler runs.\<close>

definition ApiKeyAuth_before :: "AuthConfig \<Rightarrow> string \<Rightarrow> string \<Rightarrow> nat option" where
  "ApiKeyAuth_before cfg url presented_key = (if \<not> IsAuthorized cfg url presented_key then Some 401 else None)"

definition PayloadLimit_before :: "string \<Rightarrow> nat option" where
  "PayloadLimit_before body = (if kMaxBodySize < length body then Some 413 else None)"

definition middleware :: "AuthConfig \<Rightarrow> string \<Rightarrow> string \<Rightarrow> string \<Rightarrow> nat option" where
  "middleware cfg url presented_key body =
     (case ApiKeyAuth_before cfg url presented_key of
        Some code \<Rightarrow> Some code
      | None \<Rightarrow> PayloadLimit_before body)"

section \<open>Errors, tool calls, audit records\<close>

definition DomainErrorStatus :: "exn \<Rightarrow> nat" where
  "DomainErrorStatus e =
     (case e of
        InvalidCommandError _ \<Rightarrow> 400
      | InvalidTickerError \<Rightarrow> 400
      | InvalidDateRangeError \<Rightarrow> 400
      | NotFoundError \<Rightarrow> 404
      | ProviderNotAvailableError _ \<Rightarrow> 503
      | DataQualityError _ \<Rightarrow> 502
      | InternalError _ \<Rightarrow> 500
      | _ \<Rightarrow> 500)"

record 'j ToolCallRequest =
  tcr_tool :: string
  tcr_name :: string
  tcr_arguments :: 'j

record 'j ToolCall =
  tc_name :: string
  tc_arguments :: 'j

definition ToolCallFromRequest :: "'j ToolCallRequest \<Rightarrow> 'j ToolCall" where
  "ToolCallFromRequest req =
     \<lparr>tc_name = (if tcr_tool req = [] then tcr_name req else tcr_tool req), tc_arguments = tcr_arguments req\<rparr>"

text \<open>\<open>uuid\<close> is the identifier generated when the request has none; \<open>seed\<close> the process-wide seed.\<close>

definition audit_record ::
    "string \<Rightarrow> string \<Rightarrow> string \<Rightarrow> int \<Rightarrow> string \<Rightarrow> string \<Rightarrow> 'j \<Rightarrow> 'j \<Rightarrow> string option \<Rightarrow> 'j DecisionRecord" where
  "audit_record commit version uuid seed request_id tool_name input output error =
     \<lparr>dr_request_id = (if request_id = [] then uuid else request_id), dr_recorded_at = 0,
      dr_tool_name = tool_name, dr_input = input, dr_input_hash = [], dr_output = output, dr_output_hash = [],
      dr_status = (case error of Some _ \<Rightarrow> ''error'' | None \<Rightarrow> ''ok''),
      dr_error = (case error of Some e \<Rightarrow> e | None \<Rightarrow> []),
      dr_git_commit_sha = commit, dr_package_version = version, dr_random_seed = seed,
      dr_prev_record_hash = [], dr_record_hash = []\<rparr>"

definition RecordAudit ::
    "'j Lib \<Rightarrow> ('s \<Rightarrow> 'j DecisionRecord result) \<Rightarrow> ('s \<Rightarrow> 'j DecisionRecord \<Rightarrow> 's result) \<Rightarrow> Date \<Rightarrow>
     's option \<Rightarrow> 'j DecisionRecord \<Rightarrow> 's option result" where
  "RecordAudit lib Latest Append now writer rec =
     (case writer of None \<Rightarrow> Inr None | Some st \<Rightarrow> ebind (Write lib Latest Append now st rec) (\<lambda>st'. Inr (Some st')))"

section \<open>Facts\<close>

lemma word_xor_0: "(a :: 8 word) XOR b = 0 \<longleftrightarrow> a = b"
  by (auto simp: bit_eq_iff bit_simps)

lemma foldl_or_0: "foldl (\<lambda>diff i. diff OR f i) (a :: 8 word) is = 0 \<longleftrightarrow> a = 0 \<and> (\<forall>i \<in> set is. f i = 0)"
  by (induction "is" arbitrary: a) (auto simp: or_eq_0_iff)

lemma ConstantTimeEqual_eq: "ConstantTimeEqual a b \<longleftrightarrow> a = b"
  by (auto simp: ConstantTimeEqual_def foldl_or_0 word_xor_0 of_char_word intro: nth_equalityI)

subsection \<open>Shape of an identifier\<close>

lemma length_hex2 [simp]: "length (hex2 b) = 2"
  by (simp add: hex2_def)

lemma stamp_length [simp]: "length (stamp_uuid bs) = length bs"
  by (simp add: stamp_uuid_def Let_def)

lemma uuid_text_16:
  assumes "length bs = 16"
  shows "uuid_text bs = hex2 (bs ! 0) @ hex2 (bs ! 1) @ hex2 (bs ! 2) @ hex2 (bs ! 3) @ ''-'' @
    hex2 (bs ! 4) @ hex2 (bs ! 5) @ ''-'' @ hex2 (bs ! 6) @ hex2 (bs ! 7) @ ''-'' @
    hex2 (bs ! 8) @ hex2 (bs ! 9) @ ''-'' @ hex2 (bs ! 10) @ hex2 (bs ! 11) @ hex2 (bs ! 12) @
    hex2 (bs ! 13) @ hex2 (bs ! 14) @ hex2 (bs ! 15)"
proof -
  have "[0..<16] = [0, 1, 2, 3, 4, 5, 6, 7, 8, 9, 10, 11, 12, 13, 14, 15 :: nat]" by (simp add: upt_rec)
  then show ?thesis by (simp add: uuid_text_def assms)
qed

lemma shift_bits:
  "unat ((b AND 0x0f) OR (0x40 :: 8 word)) div 16 = 4"
  "unat ((b AND 0x3f) OR (0x80 :: 8 word)) div 64 = 2"
proof -
  have d: "unat w div 2 ^ n = unat (drop_bit n w)" for w :: "8 word" and n
    by (metis unat_drop_bit_eq drop_bit_eq_div)
  have "drop_bit 4 ((b AND 0x0f) OR (0x40 :: 8 word)) = 4"
    "drop_bit 6 ((b AND 0x3f) OR (0x80 :: 8 word)) = 2"
    by (simp_all add: drop_bit_and drop_bit_or)
  then show "unat ((b AND 0x0f) OR (0x40 :: 8 word)) div 16 = 4" "unat ((b AND 0x3f) OR (0x80 :: 8 word)) div 64 = 2"
    using d [of _ 4] d [of _ 6] by simp_all
qed

text \<open>A version 4 identifier of the RFC: five groups of hexadecimal digits, with version and variant.\<close>

definition rfc4122_v4 :: "string \<Rightarrow> bool" where
  "rfc4122_v4 u \<longleftrightarrow> (\<exists>a b c d e. u = a @ ''-'' @ b @ ''-'' @ c @ ''-'' @ d @ ''-'' @ e \<and>
     map length [a, b, c, d, e] = [8, 4, 4, 4, 12] \<and> set (a @ b @ c @ d @ e) \<subseteq> set ''0123456789abcdef'' \<and>
     hd c = CHR ''4'' \<and> hd d \<in> set ''89ab'')"

lemma hex_digit_set: "n < 16 \<Longrightarrow> hex_digit n \<in> set ''0123456789abcdef''"
  unfolding hex_digit_def by (rule nth_mem) simp

lemma hex2_set: "set (hex2 b) \<subseteq> set ''0123456789abcdef''"
proof -
  have "unat b < 256" using unsigned_less [of b] by simp
  then show ?thesis using hex_digit_set [of "unat b div 16"] hex_digit_set [of "unat b mod 16"] by (simp add: hex2_def)
qed

lemma stamp_bits:
  assumes "length bs = 16"
  shows "hd (hex2 (stamp_uuid bs ! 6)) = CHR ''4''" "hd (hex2 (stamp_uuid bs ! 8)) \<in> set ''89ab''"
proof -
  have "stamp_uuid bs ! 6 = (bs ! 6 AND 0x0f) OR 0x40" "stamp_uuid bs ! 8 = (bs ! 8 AND 0x3f) OR 0x80"
    using assms by (simp_all add: stamp_uuid_def Let_def)
  then have s: "unat (stamp_uuid bs ! 6) div 16 = 4" "unat (stamp_uuid bs ! 8) div 64 = 2" using shift_bits by metis+
  show "hd (hex2 (stamp_uuid bs ! 6)) = CHR ''4''" by (simp add: hex2_def s hex_digit_def)
  have "unat (stamp_uuid bs ! 8) div 16 \<in> {8, 9, 10, 11}" using s(2) by auto
  then show "hd (hex2 (stamp_uuid bs ! 8)) \<in> set ''89ab''" by (auto simp: hex2_def hex_digit_def)
qed

lemma GenerateUuid_shape:
  assumes "length bs = 16"
  shows "rfc4122_v4 (GenerateUuid bs)"
proof -
  define h where "h i = hex2 (stamp_uuid bs ! i)" for i
  have l: "length (h i) = 2" for i by (simp add: h_def)
  have st: "set (h i) \<subseteq> set ''0123456789abcdef''" for i unfolding h_def by (rule hex2_set)
  have v: "hd (h 6) = CHR ''4''" "hd (h 8) \<in> set ''89ab''"
    unfolding h_def by (rule stamp_bits [OF assms])+
  have n: "h i \<noteq> []" for i using l [of i] by auto
  have "GenerateUuid bs = (h 0 @ h 1 @ h 2 @ h 3) @ ''-'' @ (h 4 @ h 5) @ ''-'' @ (h 6 @ h 7) @ ''-'' @ (h 8 @ h 9) @ ''-'' @
      (h 10 @ h 11 @ h 12 @ h 13 @ h 14 @ h 15)"
    using uuid_text_16 [of "stamp_uuid bs"] assms by (simp add: GenerateUuid_def flip: h_def)
  moreover have "map length [h 0 @ h 1 @ h 2 @ h 3, h 4 @ h 5, h 6 @ h 7, h 8 @ h 9,
      h 10 @ h 11 @ h 12 @ h 13 @ h 14 @ h 15] = [8, 4, 4, 4, 12]" by (simp add: l)
  moreover have "set ((h 0 @ h 1 @ h 2 @ h 3) @ (h 4 @ h 5) @ (h 6 @ h 7) @ (h 8 @ h 9) @
      (h 10 @ h 11 @ h 12 @ h 13 @ h 14 @ h 15)) \<subseteq> set ''0123456789abcdef''"
    using st by (simp only: set_append Un_subset_iff simp_thms)
  moreover have "hd (h 6 @ h 7) = CHR ''4''" "hd (h 8 @ h 9) \<in> set ''89ab''" using v n by simp_all
  ultimately show ?thesis unfolding rfc4122_v4_def
    by (intro exI [of _ "h 0 @ h 1 @ h 2 @ h 3"] exI [of _ "h 4 @ h 5"] exI [of _ "h 6 @ h 7"] exI [of _ "h 8 @ h 9"]
        exI [of _ "h 10 @ h 11 @ h 12 @ h 13 @ h 14 @ h 15"] conjI) assumption+
qed

subsection \<open>Requests refused\<close>

lemma IsAuthorized_iff:
  "IsAuthorized cfg url k \<longleftrightarrow> \<not> au_enabled cfg \<or> url = ''/health'' \<or> au_api_key cfg \<noteq> [] \<and> k = au_api_key cfg"
  by (simp add: IsAuthorized_def ConstantTimeEqual_eq)

section \<open>Properties\<close>

text \<open>With authorization enabled a request passes only for the health check or with exactly the
  configured key, which must not be empty; a request that passes is refused with 413 when its body is over 16 MiB.
  The constant-time comparison decides equality.\<close>

theorem api_authorization:
  "middleware cfg url presented_key body =
     (if au_enabled cfg \<and> url \<noteq> ''/health'' \<and> \<not> (au_api_key cfg \<noteq> [] \<and> presented_key = au_api_key cfg)
      then Some 401
      else if 16777216 < length body then Some 413 else None)"
  by (auto simp: middleware_def ApiKeyAuth_before_def PayloadLimit_before_def IsAuthorized_iff kMaxBodySize_def)

text \<open>From sixteen random bytes a request identifier of the RFC 4122 version 4 form is made: five groups of
  lower-case hexadecimal digits with the version and variant digits in place.\<close>

theorem uuid_v4:
  assumes "length random_bytes = 16"
  shows "rfc4122_v4 (GenerateUuid random_bytes)"
  by (rule GenerateUuid_shape [OF assms])

theorem uuid_v4_witness: "rfc4122_v4 (GenerateUuid (replicate 16 255))"
  by (rule uuid_v4) simp

end
