(* ===== verification/Indicators.thy ===== *)
theory Indicators
  imports Core
begin

text \<open>
  \<^verbatim>\<open>indicators/\<close>: the eight indicators of \<^verbatim>\<open>calculator.cpp\<close>. A vector is a list, an
  \<^verbatim>\<open>unordered_map\<close> with string keys a map. A loop that pushes one value per bar is \<open>for_push\<close>, with
  the variables it carries (the running average, the cumulative volume) as its state.
\<close>

record IndicatorValue =
  iv_date :: Date
  iv_value :: "double option"

type_synonym params = "string \<rightharpoonup> double"

record IndicatorResult =
  ir_name :: string
  ir_params :: params
  ir_values :: "IndicatorValue list"
  ir_extra_series :: "string \<rightharpoonup> IndicatorValue list"

abbreviation none_at :: "Date \<Rightarrow> IndicatorValue" where
  "none_at d \<equiv> \<lparr>iv_date = d, iv_value = None\<rparr>"

abbreviation some_at :: "Date \<Rightarrow> double \<Rightarrow> IndicatorValue" where
  "some_at d v \<equiv> \<lparr>iv_date = d, iv_value = Some v\<rparr>"

section \<open>Helpers\<close>

definition ParamAsSize :: "params \<Rightarrow> string \<Rightarrow> nat \<Rightarrow> nat result" where
  "ParamAsSize params k default_value =
     (case params k of
        None \<Rightarrow> Inr default_value
      | Some value \<Rightarrow>
          ebind (throw_if (value \<le> 0 \<or> \<not> deq (dfloor value) value)
              (InvalidCommandError [T ''invalid value for '', T k, T '': '', D value]))
            (\<lambda>_. of_option (UndefinedBehaviour ''static_cast<std::size_t>'') (to_size value)))"

definition ind_Mean :: "double list \<Rightarrow> double" where
  "ind_Mean values = foldl (+) 0 values / of_size (length values)"

definition SampleStdDev :: "double list \<Rightarrow> double" where
  "SampleStdDev values =
     (if length values < 2 then 0
      else let mean = ind_Mean values;
               variance = foldl (\<lambda>acc v. let diff = v - mean in acc + diff * diff) 0 values
           in dsqrt (variance / of_size (length values - 1)))"

definition TrueRange :: "OHLCV \<Rightarrow> OHLCV \<Rightarrow> double" where
  "TrueRange bar prev =
     (let high_low = bar_high bar - bar_low bar;
          high_close = \<bar>bar_high bar - bar_close prev\<bar>;
          low_close = \<bar>bar_low bar - bar_close prev\<bar>
      in dmax high_low (dmax high_close low_close))"

definition DatesFromSeries :: "OHLCV list \<Rightarrow> Date list" where
  "DatesFromSeries series = map bar_date series"

definition NoneValues :: "Date list \<Rightarrow> IndicatorValue list" where
  "NoneValues dates = map none_at dates"

definition EmaValues :: "double list \<Rightarrow> Date list \<Rightarrow> nat \<Rightarrow> IndicatorValue list" where
  "EmaValues closes dates period =
     (if period = 0 \<or> length closes < period then NoneValues dates
      else let multiplier = lit 2 / of_size (period + 1)
           in for_push (\<lambda>ema i.
                if i + 1 < period then (ema, none_at (dates ! i))
                else if i + 1 = period then
                  let ema' = ind_Mean (take (i + 1) closes) in (ema', some_at (dates ! i) ema')
                else
                  let ema' = (closes ! i - ema) * multiplier + ema in (ema', some_at (dates ! i) ema'))
              0 [0..<length closes])"

text \<open>
  The state of the loop of \<^verbatim>\<open>EmaOfOptions\<close> is \<open>(ema, seed_values)\<close>; the counter \<^verbatim>\<open>seen\<close> is the length
  of \<open>seed_values\<close>, with which it is incremented. \<^verbatim>\<open>seed_values.reserve(period)\<close> throws when
  \<open>period\<close> exceeds \<^verbatim>\<open>max_size()\<close>.
\<close>

definition vector_double_max_size :: nat where
  "vector_double_max_size = 2 ^ 60 - 1"

definition ema_of_options_step ::
    "nat \<Rightarrow> double \<Rightarrow> double option \<times> double list \<Rightarrow> IndicatorValue \<Rightarrow>
     (double option \<times> double list) \<times> IndicatorValue" where
  "ema_of_options_step period multiplier st iv =
     (case st of (ema, seed_values) \<Rightarrow>
       (case (iv_value iv, ema) of
          (Some v, None) \<Rightarrow>
            let seed_values' = seed_values @ [v] in
            if length seed_values' = period then
              let seed = ind_Mean seed_values' in ((Some seed, seed_values'), some_at (iv_date iv) seed)
            else ((None, seed_values'), none_at (iv_date iv))
        | (Some v, Some e) \<Rightarrow>
            let next_ema = (v - e) * multiplier + e
            in ((Some next_ema, seed_values), some_at (iv_date iv) next_ema)
        | (None, _) \<Rightarrow> ((ema, seed_values), none_at (iv_date iv))))"

definition EmaOfOptions :: "IndicatorValue list \<Rightarrow> nat \<Rightarrow> IndicatorValue list result" where
  "EmaOfOptions series period =
     (if period = 0 then Inr (map (\<lambda>iv. none_at (iv_date iv)) series)
      else ebind (throw_if (vector_double_max_size < period) (LengthError ''vector::reserve''))
        (\<lambda>_. let multiplier = lit 2 / of_size (period + 1)
             in Inr (for_push (ema_of_options_step period multiplier) (None, []) series)))"

definition RsiValue :: "double \<Rightarrow> double \<Rightarrow> double" where
  "RsiValue avg_gain avg_loss =
     (if deq avg_loss 0 then lit 100
      else let rs = avg_gain / avg_loss in lit 100 - lit 100 / (1 + rs))"

section \<open>Indicators\<close>

text \<open>The closes of the \<open>period\<close> bars that end at bar \<open>i\<close>.\<close>

definition close_window :: "OHLCV list \<Rightarrow> nat \<Rightarrow> nat \<Rightarrow> double list" where
  "close_window series period i = map (\<lambda>j. bar_close (series ! j)) [i + 1 - period..<i + 1]"

definition CalculateSMA :: "OHLCV list \<Rightarrow> params \<Rightarrow> IndicatorResult result" where
  "CalculateSMA series params =
     ebind (ParamAsSize params ''period'' 20) (\<lambda>period.
       Inr \<lparr>ir_name = ''sma'', ir_params = [''period'' \<mapsto> of_size period],
         ir_values =
           (if period = 0 \<or> length series < period then map (\<lambda>bar. none_at (bar_date bar)) series
            else map (\<lambda>i. if i + 1 < period then none_at (bar_date (series ! i))
                     else some_at (bar_date (series ! i)) (ind_Mean (close_window series period i)))
                   [0..<length series]),
         ir_extra_series = Map.empty\<rparr>)"

definition CalculateEMA :: "OHLCV list \<Rightarrow> params \<Rightarrow> IndicatorResult result" where
  "CalculateEMA series params =
     ebind (ParamAsSize params ''period'' 20) (\<lambda>period.
       Inr \<lparr>ir_name = ''ema'', ir_params = [''period'' \<mapsto> of_size period],
         ir_values =
           (if period = 0 \<or> length series < period then map (\<lambda>bar. none_at (bar_date bar)) series
            else let multiplier = lit 2 / of_size (period + 1)
              in for_push (\<lambda>ema i.
                   if i + 1 < period then (ema, none_at (bar_date (series ! i)))
                   else if i + 1 = period then
                     let ema' = ind_Mean (map (\<lambda>j. bar_close (series ! j)) [0..<i + 1])
                     in (ema', some_at (bar_date (series ! i)) ema')
                   else
                     let ema' = (bar_close (series ! i) - ema) * multiplier + ema
                     in (ema', some_at (bar_date (series ! i)) ema'))
                 0 [0..<length series]),
         ir_extra_series = Map.empty\<rparr>)"

text \<open>The gain and the loss of the step from bar \<open>i\<close> to bar \<open>i + 1\<close>.\<close>

definition gain_at :: "OHLCV list \<Rightarrow> nat \<Rightarrow> double" where
  "gain_at series i =
     (let diff = bar_close (series ! (i + 1)) - bar_close (series ! i) in if 0 \<le> diff then diff else 0)"

definition loss_at :: "OHLCV list \<Rightarrow> nat \<Rightarrow> double" where
  "loss_at series i =
     (let diff = bar_close (series ! (i + 1)) - bar_close (series ! i) in if 0 \<le> diff then 0 else - diff)"

definition CalculateRSI :: "OHLCV list \<Rightarrow> params \<Rightarrow> IndicatorResult result" where
  "CalculateRSI series params =
     ebind (ParamAsSize params ''period'' 14) (\<lambda>period.
       Inr \<lparr>ir_name = ''rsi'', ir_params = [''period'' \<mapsto> of_size period],
         ir_values =
           (if period = 0 \<or> length series < period + 1 then map (\<lambda>bar. none_at (bar_date bar)) series
            else let gains = map (gain_at series) [0..<period];
                     losses = map (loss_at series) [0..<period];
                     avg_gain = ind_Mean gains;
                     avg_loss = ind_Mean losses;
                     smoothing = of_size period;
                     smoothing_minus_one = of_size (period - 1)
              in map (\<lambda>i. none_at (bar_date (series ! i))) [0..<period]
                 @ [some_at (bar_date (series ! period)) (RsiValue avg_gain avg_loss)]
                 @ for_push (\<lambda>(g, l) i.
                     let g' = (g * smoothing_minus_one + gain_at series i) / smoothing;
                         l' = (l * smoothing_minus_one + loss_at series i) / smoothing
                     in ((g', l'), some_at (bar_date (series ! (i + 1))) (RsiValue g' l')))
                   (avg_gain, avg_loss) [period..<length series - 1]),
         ir_extra_series = Map.empty\<rparr>)"

definition macd_params :: "nat \<Rightarrow> nat \<Rightarrow> nat \<Rightarrow> params" where
  "macd_params fast slow signal =
     [''fast'' \<mapsto> of_size fast, ''slow'' \<mapsto> of_size slow, ''signal'' \<mapsto> of_size signal]"

definition opt_sub :: "double option \<Rightarrow> double option \<Rightarrow> double option" where
  "opt_sub a b = (case (a, b) of (Some x, Some y) \<Rightarrow> Some (x - y) | _ \<Rightarrow> None)"

definition CalculateMACD :: "OHLCV list \<Rightarrow> params \<Rightarrow> IndicatorResult result" where
  "CalculateMACD series params =
     ebind (ParamAsSize params ''fast'' 12) (\<lambda>fast.
     ebind (ParamAsSize params ''slow'' 26) (\<lambda>slow.
     ebind (ParamAsSize params ''signal'' 9) (\<lambda>signal.
       let dates = DatesFromSeries series; closes = map bar_close series in
       if fast = 0 \<or> slow = 0 \<or> signal = 0 \<or> length series < slow then
         Inr \<lparr>ir_name = ''macd'', ir_params = macd_params fast slow signal,
           ir_values = NoneValues dates,
           ir_extra_series = [''signal'' \<mapsto> NoneValues dates, ''histogram'' \<mapsto> NoneValues dates]\<rparr>
       else
         let fast_ema = EmaValues closes dates fast;
             slow_ema = EmaValues closes dates slow;
             macd_line = map (\<lambda>i. \<lparr>iv_date = dates ! i,
                 iv_value = opt_sub (iv_value (fast_ema ! i)) (iv_value (slow_ema ! i))\<rparr>)
               [0..<length series]
         in ebind (EmaOfOptions macd_line signal) (\<lambda>signal_ema.
           Inr \<lparr>ir_name = ''macd'', ir_params = macd_params fast slow signal,
             ir_values = map (\<lambda>i. \<lparr>iv_date = dates ! i, iv_value = iv_value (macd_line ! i)\<rparr>)
               [0..<length series],
             ir_extra_series =
               [''signal'' \<mapsto> map (\<lambda>i. \<lparr>iv_date = dates ! i, iv_value = iv_value (signal_ema ! i)\<rparr>)
                  [0..<length series],
                ''histogram'' \<mapsto> map (\<lambda>i. \<lparr>iv_date = dates ! i,
                    iv_value = opt_sub (iv_value (macd_line ! i)) (iv_value (signal_ema ! i))\<rparr>)
                  [0..<length series]]\<rparr>))))"

definition CalculateBollinger :: "OHLCV list \<Rightarrow> params \<Rightarrow> IndicatorResult result" where
  "CalculateBollinger series params =
     ebind (ParamAsSize params ''period'' 20) (\<lambda>period.
     ebind (ParamAsSize params ''std_dev'' 2) (\<lambda>std_dev_count.
       let band = (\<lambda>f. if period = 0 \<or> length series < period
             then map (\<lambda>bar. none_at (bar_date bar)) series
             else map (\<lambda>i. if i + 1 < period then none_at (bar_date (series ! i))
                    else let window = close_window series period i;
                             middle = ind_Mean window;
                             band_width = of_size std_dev_count * SampleStdDev window
                         in some_at (bar_date (series ! i)) (f middle band_width))
                  [0..<length series])
       in Inr \<lparr>ir_name = ''bollinger_bands'',
            ir_params = [''period'' \<mapsto> of_size period, ''std_dev'' \<mapsto> of_size std_dev_count],
            ir_values = band (\<lambda>middle band_width. middle),
            ir_extra_series = [''upper'' \<mapsto> band (\<lambda>middle band_width. middle + band_width),
              ''lower'' \<mapsto> band (\<lambda>middle band_width. middle - band_width)]\<rparr>))"

definition CalculateATR :: "OHLCV list \<Rightarrow> params \<Rightarrow> IndicatorResult result" where
  "CalculateATR series params =
     ebind (ParamAsSize params ''period'' 14) (\<lambda>period.
       Inr \<lparr>ir_name = ''atr'', ir_params = [''period'' \<mapsto> of_size period],
         ir_values =
           (if period = 0 \<or> length series < period + 1 then map (\<lambda>bar. none_at (bar_date bar)) series
            else let initial_trs = map (\<lambda>i. TrueRange (series ! (i + 1)) (series ! i)) [0..<period];
                     atr = ind_Mean initial_trs;
                     smoothing = of_size period;
                     smoothing_minus_one = of_size (period - 1)
              in map (\<lambda>i. none_at (bar_date (series ! i))) [0..<period]
                 @ [some_at (bar_date (series ! period)) atr]
                 @ for_push (\<lambda>a i.
                     let tr = TrueRange (series ! (i + 1)) (series ! i);
                         a' = (a * smoothing_minus_one + tr) / smoothing
                     in (a', some_at (bar_date (series ! (i + 1))) a'))
                   atr [period..<length series - 1]),
         ir_extra_series = Map.empty\<rparr>)"

definition volume_of :: "OHLCV \<Rightarrow> double" where
  "volume_of bar = lit (of_int (bar_volume bar))"

definition CalculateOBV :: "OHLCV list \<Rightarrow> params \<Rightarrow> IndicatorResult result" where
  "CalculateOBV series params =
     Inr \<lparr>ir_name = ''obv'', ir_params = params,
       ir_values =
         (if series = [] then []
          else let obv = volume_of (series ! 0)
            in some_at (bar_date (series ! 0)) obv
               # for_push (\<lambda>obv i.
                   let current_close = bar_close (series ! (i + 1));
                       previous_close = bar_close (series ! i);
                       volume = volume_of (series ! (i + 1));
                       obv' = (if previous_close < current_close then obv + volume
                               else if current_close < previous_close then obv - volume
                               else obv)
                   in (obv', some_at (bar_date (series ! (i + 1))) obv'))
                 obv [0..<length series - 1]),
       ir_extra_series = Map.empty\<rparr>"

definition CalculateVWAP :: "OHLCV list \<Rightarrow> params \<Rightarrow> IndicatorResult result" where
  "CalculateVWAP series params =
     Inr \<lparr>ir_name = ''vwap'', ir_params = params,
       ir_values =
         for_push (\<lambda>(cumulative_tp_volume, cumulative_volume) bar.
             let typical_price = (bar_high bar + bar_low bar + bar_close bar) / lit 3;
                 volume = volume_of bar;
                 ctv = cumulative_tp_volume + typical_price * volume;
                 cv = cumulative_volume + volume
             in ((ctv, cv), \<lparr>iv_date = bar_date bar, iv_value = (if \<not> deq cv 0 then Some (ctv / cv) else None)\<rparr>))
           (0, 0) series,
       ir_extra_series = Map.empty\<rparr>"

definition Calculate :: "string \<Rightarrow> OHLCV list \<Rightarrow> params \<Rightarrow> IndicatorResult result" where
  "Calculate name series params =
     (if name = ''sma'' then CalculateSMA series params
      else if name = ''ema'' then CalculateEMA series params
      else if name = ''rsi'' then CalculateRSI series params
      else if name = ''macd'' then CalculateMACD series params
      else if name = ''bollinger_bands'' then CalculateBollinger series params
      else if name = ''atr'' then CalculateATR series params
      else if name = ''obv'' then CalculateOBV series params
      else if name = ''vwap'' then CalculateVWAP series params
      else Inl (InvalidCommandError [T ''unknown indicator: '', T name]))"

end
