(* ===== verification/Json.thy ===== *)
theory Json
  imports Api_Core Indicators Market_Data_Facts Json_Text
begin

text \<open>
  What the program uses of the JSON library. The type \<open>'j\<close> of JSON values and the fields of \<open>Json\<close>
  stand for \<^verbatim>\<open>nlohmann::json\<close>: construction, lookup, tests of the kind, conversions (which throw on a
  value of another kind) and parsing. A conversion to a map gives its entries in the order of the
  keys. \<open>js_find\<close> is the lookup of \<^verbatim>\<open>value(key, default)\<close>, which throws on a value that is no object.
\<close>

record 'j Json =
  js_lib :: "'j Lib"
  js_bool :: "bool \<Rightarrow> 'j"
  js_number :: "double \<Rightarrow> 'j"
  js_array :: "'j list \<Rightarrow> 'j"
  js_map :: "(string \<rightharpoonup> 'j) \<Rightarrow> 'j"
  js_contains :: "'j \<Rightarrow> string \<Rightarrow> bool"
  js_field :: "'j \<Rightarrow> string \<Rightarrow> 'j"
  js_find :: "'j \<Rightarrow> string \<Rightarrow> 'j option result"
  js_at :: "'j \<Rightarrow> string \<Rightarrow> 'j result"
  js_items :: "'j \<Rightarrow> (string \<times> 'j) list"
  js_is_null :: "'j \<Rightarrow> bool"
  js_is_string :: "'j \<Rightarrow> bool"
  js_is_number :: "'j \<Rightarrow> bool"
  js_is_object :: "'j \<Rightarrow> bool"
  js_is_array :: "'j \<Rightarrow> bool"
  js_get_bool :: "'j \<Rightarrow> bool result"
  js_get_string :: "'j \<Rightarrow> string result"
  js_get_double :: "'j \<Rightarrow> double result"
  js_get_int :: "'j \<Rightarrow> int result"
  js_get_int64 :: "'j \<Rightarrow> int result"
  js_get_size :: "'j \<Rightarrow> nat result"
  js_get_seed :: "'j \<Rightarrow> 64 word result"
  js_get_doubles :: "'j \<Rightarrow> double list result"
  js_get_matrix :: "'j \<Rightarrow> double list list result"
  js_get_strings :: "'j \<Rightarrow> string list result"
  js_get_double_map :: "'j \<Rightarrow> (string \<times> double) list result"
  js_get_doubles_map :: "'j \<Rightarrow> (string \<times> double list) list result"
  js_parse :: "string \<Rightarrow> 'j option"

abbreviation js_object :: "'j Json \<Rightarrow> (string \<times> 'j) list \<Rightarrow> 'j" where
  "js_object J \<equiv> lib_object (js_lib J)"

abbreviation js_str :: "'j Json \<Rightarrow> string \<Rightarrow> 'j" where
  "js_str J \<equiv> lib_str (js_lib J)"

abbreviation js_int :: "'j Json \<Rightarrow> int \<Rightarrow> 'j" where
  "js_int J \<equiv> lib_int (js_lib J)"

abbreviation js_null :: "'j Json \<Rightarrow> 'j" where
  "js_null J \<equiv> lib_null (js_lib J)"

abbreviation js_dump :: "'j Json \<Rightarrow> 'j \<Rightarrow> string result" where
  "js_dump J \<equiv> lib_dump (js_lib J)"

text \<open>\<^verbatim>\<open>j.value(key, default)\<close> with its conversion, \<^verbatim>\<open>j.at(key).get_to(x)\<close>, and \<^verbatim>\<open>if (j.contains(key)) x = j[key]\<close>.\<close>

definition json_value :: "'j Json \<Rightarrow> ('j \<Rightarrow> 'a result) \<Rightarrow> 'j \<Rightarrow> string \<Rightarrow> 'a \<Rightarrow> 'a result" where
  "json_value J conv j k default_value =
     ebind (js_find J j k) (\<lambda>found. case found of None \<Rightarrow> Inr default_value | Some v \<Rightarrow> conv v)"

definition json_at :: "'j Json \<Rightarrow> ('j \<Rightarrow> 'a result) \<Rightarrow> 'j \<Rightarrow> string \<Rightarrow> 'a result" where
  "json_at J conv j k = ebind (js_at J j k) conv"

definition json_if_present :: "'j Json \<Rightarrow> ('j \<Rightarrow> 'a result) \<Rightarrow> 'j \<Rightarrow> string \<Rightarrow> 'a \<Rightarrow> 'a result" where
  "json_if_present J conv j k default_value =
     (if js_contains J j k then conv (js_field J j k) else Inr default_value)"

text \<open>Conversions of optional numbers, lists of numbers, tables and maps of numbers.\<close>

definition json_optional :: "'j Json \<Rightarrow> double option \<Rightarrow> 'j" where
  "json_optional J v = (case v of Some x \<Rightarrow> js_number J x | None \<Rightarrow> js_null J)"

definition json_doubles :: "'j Json \<Rightarrow> double list \<Rightarrow> 'j" where
  "json_doubles J xs = js_array J (map (js_number J) xs)"

definition json_matrix :: "'j Json \<Rightarrow> double list list \<Rightarrow> 'j" where
  "json_matrix J m = js_array J (map (json_doubles J) m)"

definition json_strings :: "'j Json \<Rightarrow> string list \<Rightarrow> 'j" where
  "json_strings J xs = js_array J (map (js_str J) xs)"

definition json_params :: "'j Json \<Rightarrow> params \<Rightarrow> 'j" where
  "json_params J p = js_map J (map_option (js_number J) \<circ> p)"

definition json_weights :: "'j Json \<Rightarrow> (string \<times> double) list \<Rightarrow> 'j" where
  "json_weights J ws = js_object J (map (\<lambda>(k, v). (k, js_number J v)) ws)"

section \<open>What is used of the library\<close>

text \<open>
  The documented behaviour of objects and scalars: a member of an object built from entries with
  distinct keys is found, a key that is not an entry is not, and a scalar is read back.
\<close>

definition json_objects :: "'j Json \<Rightarrow> bool" where
  "json_objects J \<longleftrightarrow> (\<forall>kvs k. distinct (map fst kvs) \<longrightarrow>
     js_find J (js_object J kvs) k = Inr (map_of kvs k) \<and>
     js_contains J (js_object J kvs) k = (map_of kvs k \<noteq> None) \<and>
     (\<forall>v. map_of kvs k = Some v \<longrightarrow> js_at J (js_object J kvs) k = Inr v \<and> js_field J (js_object J kvs) k = v))"

definition json_scalars :: "'j Json \<Rightarrow> bool" where
  "json_scalars J \<longleftrightarrow> (\<forall>b. js_get_bool J (js_bool J b) = Inr b) \<and> (\<forall>s. js_get_string J (js_str J s) = Inr s) \<and>
     (\<forall>d. js_get_double J (js_number J d) = Inr d) \<and>
     (\<forall>i. - (2 ^ 63) \<le> i \<and> i < 2 ^ 63 \<longrightarrow> js_get_int64 J (js_int J i) = Inr i)"

lemma json_find: "json_objects J \<Longrightarrow> distinct (map fst kvs) \<Longrightarrow> js_find J (js_object J kvs) k = Inr (map_of kvs k)"
  by (simp add: json_objects_def)

lemma json_at_object:
  "json_objects J \<Longrightarrow> distinct (map fst kvs) \<Longrightarrow> map_of kvs k = Some v \<Longrightarrow> js_at J (js_object J kvs) k = Inr v"
  by (simp add: json_objects_def)

lemma json_scalar_simps:
  assumes "json_scalars J"
  shows "js_get_bool J (js_bool J b) = Inr b" "js_get_string J (js_str J s) = Inr s"
    "js_get_double J (js_number J d) = Inr d"
    "- (2 ^ 63) \<le> i \<Longrightarrow> i < 2 ^ 63 \<Longrightarrow> js_get_int64 J (js_int J i) = Inr i"
  using assms by (simp_all add: json_scalars_def)

section \<open>A library for the witnesses\<close>

text \<open>The trees of \<open>Json_Text\<close>, with the conversions written out.\<close>

definition type_error :: "'a result" where
  "type_error = Inl (RuntimeError [T ''type_error''])"

fun tree_find :: "tree \<Rightarrow> string \<Rightarrow> tree option result" where
  "tree_find (TObj kvs) k = Inr (map_of kvs k)"
| "tree_find t k = type_error"

fun tree_lookup :: "tree \<Rightarrow> string \<Rightarrow> tree option" where
  "tree_lookup (TObj kvs) k = map_of kvs k"
| "tree_lookup t k = None"

fun tree_string :: "tree \<Rightarrow> string result" where
  "tree_string (TStr s) = Inr s"
| "tree_string t = type_error"

fun tree_double :: "tree \<Rightarrow> double result" where
  "tree_double (TNum d) = Inr d"
| "tree_double (TInt i) = Inr (lit (of_int i))"
| "tree_double t = type_error"

fun tree_int :: "tree \<Rightarrow> int result" where
  "tree_int (TInt i) = Inr i"
| "tree_int t = type_error"

fun tree_bool :: "tree \<Rightarrow> bool result" where
  "tree_bool (TBool b) = Inr b"
| "tree_bool t = type_error"

fun each :: "('a \<Rightarrow> 'b result) \<Rightarrow> 'a list \<Rightarrow> 'b list result" where
  "each f [] = Inr []"
| "each f (x # xs) = ebind (f x) (\<lambda>y. ebind (each f xs) (\<lambda>ys. Inr (y # ys)))"

definition tree_list :: "(tree \<Rightarrow> 'b result) \<Rightarrow> tree \<Rightarrow> 'b list result" where
  "tree_list f t = (case t of TArr ts \<Rightarrow> each f ts | _ \<Rightarrow> type_error)"

definition tree_entries :: "(tree \<Rightarrow> 'b result) \<Rightarrow> tree \<Rightarrow> (string \<times> 'b) list result" where
  "tree_entries f t =
     (case t of TObj kvs \<Rightarrow> each (\<lambda>(k, v). ebind (f v) (\<lambda>y. Inr (k, y))) kvs | _ \<Rightarrow> type_error)"

definition tree_json :: "(string \<Rightarrow> tree option) \<Rightarrow> tree Json" where
  "tree_json parse =
     \<lparr>js_lib = \<lparr>lib_object = TObj, lib_str = TStr, lib_int = TInt, lib_null = TNull, lib_dump = tree_dump,
        lib_sha256 = (\<lambda>s. 7 # map of_char s), lib_format_date = sample_dates\<rparr>,
      js_bool = TBool, js_number = TNum, js_array = TArr, js_map = (\<lambda>m. TObj []),
      js_contains = (\<lambda>t k. tree_lookup t k \<noteq> None), js_field = (\<lambda>t k. case tree_lookup t k of Some v \<Rightarrow> v | None \<Rightarrow> TNull),
      js_find = tree_find, js_at = (\<lambda>t k. of_option (RuntimeError [T ''out_of_range'']) (tree_lookup t k)),
      js_items = (\<lambda>t. case t of TObj kvs \<Rightarrow> kvs | _ \<Rightarrow> []), js_is_null = (\<lambda>t. t = TNull),
      js_is_string = (\<lambda>t. case t of TStr s \<Rightarrow> True | _ \<Rightarrow> False),
      js_is_number = (\<lambda>t. case t of TNum d \<Rightarrow> True | TInt i \<Rightarrow> True | _ \<Rightarrow> False),
      js_is_object = (\<lambda>t. case t of TObj kvs \<Rightarrow> True | _ \<Rightarrow> False),
      js_is_array = (\<lambda>t. case t of TArr ts \<Rightarrow> True | _ \<Rightarrow> False),
      js_get_bool = tree_bool, js_get_string = tree_string, js_get_double = tree_double, js_get_int = tree_int,
      js_get_int64 = tree_int, js_get_size = (\<lambda>t. ebind (tree_int t) (\<lambda>i. Inr (nat (i mod 2 ^ 64)))),
      js_get_seed = (\<lambda>t. ebind (tree_int t) (\<lambda>i. Inr (of_int i))), js_get_doubles = tree_list tree_double,
      js_get_matrix = tree_list (tree_list tree_double), js_get_strings = tree_list tree_string,
      js_get_double_map = tree_entries tree_double, js_get_doubles_map = tree_entries (tree_list tree_double),
      js_parse = parse\<rparr>"

text \<open>The reader of the sample date texts.\<close>

definition sample_parse :: "string \<Rightarrow> Date option" where
  "sample_parse s =
     (case s of [] \<Rightarrow> None
      | c # cs \<Rightarrow> Some ((if c = CHR ''-'' then - 1 else 1) * int (length cs) * ns_per_day))"

lemma sample_parse_day: "sample_parse s = Some d \<Longrightarrow> ns_per_day dvd d"
  by (auto simp: sample_parse_def split: list.splits)

lemma sample_parse_dates: "sample_parse (sample_dates d) = Some (d div ns_per_day * ns_per_day)"
  by (simp add: sample_parse_def sample_dates_def Let_def)

lemma tree_json_objects: "json_objects (tree_json parse)"
  by (auto simp: json_objects_def tree_json_def)

lemma tree_json_scalars: "json_scalars (tree_json parse)"
  by (simp add: json_scalars_def tree_json_def)

lemma tree_json_texts: "json_texts (js_lib (tree_json parse))"
  by (rule tree_texts) (simp_all add: tree_json_def)

end
