(* ===== verification/Indicator_Facts.thy ===== *)
theory Indicator_Facts
  imports Indicators
begin

text \<open>
  What every indicator promises: one value per bar with the date of its bar, no value before the
  warm-up is over, values that depend on the bars up to their own only (no look-ahead), and the
  ranges of the bounded indicators.
\<close>

section \<open>Parameters\<close>

lemma key_dfloor: "isfinite x \<Longrightarrow> key (dfloor x) = crnd (of_int \<lfloor>key x\<rfloor>)"
proof (transfer)
  fix x assume "x \<noteq> NaN \<and> x \<noteq> PInf \<and> x \<noteq> NInf"
  then show "fp_key (fp_floor x) = crnd (of_int \<lfloor>fp_key x\<rfloor>)"
    by (cases x) (auto simp: fp_key_pack)
qed

text \<open>A positive whole number is accepted as it is; an absent parameter is its default.\<close>

lemma ParamAsSize_lit:
  assumes "params k = Some (lit (of_nat n))" "0 < n" "n \<le> 2 ^ 53"
  shows "ParamAsSize params k d = Inr n"
proof -
  have r: "repr (of_nat n)" using repr_of_int [of "int n"] assms(3) by simp
  have k: "key (lit (of_nat n)) = of_nat n" using r by (simp add: key_lit_repr)
  have f: "isfinite (lit (of_nat n))" using r by (rule isfinite_lit_repr)
  have rd: "Rep_double (dfloor (lit (of_nat n))) = pack False (of_nat n)"
    unfolding dfloor.rep_eq lit_rep [OF r] by simp
  have fl: "key (dfloor (lit (of_nat n))) = of_nat n" "\<not> isnan (dfloor (lit (of_nat n)))"
    unfolding key.rep_eq isnan.rep_eq rd fp_key_pack by (rule crnd_repr [OF r], rule pack_not_NaN)
  have "(of_nat n :: rat) \<le> of_nat (2 ^ 53)" using assms(3) by (rule of_nat_mono)
  then have "(of_nat n :: rat) < 2 ^ 64" by simp
  then have "to_size (lit (of_nat n)) = Some n" using f k by (simp add: to_size_def)
  then show ?thesis using assms(1,2) k fl by (simp add: ParamAsSize_def le_key deq_key)
qed

lemma ParamAsSize_default: "params k = None \<Longrightarrow> ParamAsSize params k d = Inr d"
  by (simp add: ParamAsSize_def)

lemma ParamAsSize_pos:
  assumes "ParamAsSize params k d = Inr p" "0 < d"
  shows "0 < p"
proof (cases "params k")
  case None
  then show ?thesis using assms by (simp add: ParamAsSize_def)
next
  case (Some v)
  with assms have v: "\<not> v \<le> 0" "deq (dfloor v) v" "to_size v = Some p"
    by (auto simp: ParamAsSize_def result_simps)
  then have fin: "isfinite v" and p: "p = nat \<lfloor>key v\<rfloor>" by (auto simp: to_size_def split: if_splits)
  have pos: "0 < key v" using v(1) fin by (simp add: dkey)
  have "\<lfloor>key v\<rfloor> \<noteq> 0" using v(2) key_dfloor [OF fin] pos by (auto simp: dkey)
  then show ?thesis using pos p by (simp add: zero_less_nat_eq) linarith
qed

section \<open>Date alignment\<close>

definition aligned :: "OHLCV list \<Rightarrow> IndicatorValue list \<Rightarrow> bool" where
  "aligned series vs \<longleftrightarrow> map iv_date vs = map bar_date series"

definition ir_aligned :: "OHLCV list \<Rightarrow> IndicatorResult \<Rightarrow> bool" where
  "ir_aligned series r \<longleftrightarrow> aligned series (ir_values r) \<and>
     (\<forall>k vs. ir_extra_series r k = Some vs \<longrightarrow> aligned series vs)"

lemma aligned_length: "aligned series vs \<Longrightarrow> length vs = length series"
  by (metis aligned_def length_map)

lemma aligned_upt:
  "(\<And>i. i < length series \<Longrightarrow> iv_date (f i) = bar_date (series ! i)) \<Longrightarrow>
    aligned series (map f [0..<length series])"
  unfolding aligned_def by (rule nth_equalityI) auto

lemma aligned_none: "aligned series (map (\<lambda>bar. none_at (bar_date bar)) series)"
  "aligned series (NoneValues (DatesFromSeries series))"
  by (simp_all add: aligned_def NoneValues_def DatesFromSeries_def comp_def)

lemma aligned_for_push:
  "(\<And>s i. iv_date (snd (f s i)) = bar_date (series ! i)) \<Longrightarrow> aligned series (for_push f s [0..<length series])"
  using map_for_push [of "[0..<length series]" iv_date f "\<lambda>i. bar_date (series ! i)" s]
  by (simp add: aligned_def map_upt_nth)

text \<open>The shape of RSI and ATR: \<open>p\<close> values, one more, and a loop over the steps that remain.\<close>

lemma aligned_steps:
  assumes "p < length series"
    and a: "\<And>i. iv_date (a i) = bar_date (series ! i)" and b: "iv_date b = bar_date (series ! p)"
    and c: "\<And>s i. iv_date (snd (f s i)) = bar_date (series ! (i + 1))"
  shows "aligned series (map a [0..<p] @ [b] @ for_push f s [p..<length series - 1])"
proof -
  have "map iv_date (for_push f s [p..<length series - 1])
      = map (\<lambda>i. bar_date (series ! (i + 1))) [p..<length series - 1]"
    by (rule map_for_push) (rule c)
  also have "\<dots> = map (\<lambda>i. bar_date (series ! i)) [Suc p..<length series]"
    using assms(1) by (intro nth_equalityI) auto
  finally have "map iv_date (map a [0..<p] @ [b] @ for_push f s [p..<length series - 1])
      = map (\<lambda>i. bar_date (series ! i)) ([0..<p] @ p # [Suc p..<length series])"
    using a b by simp
  also have "[0..<p] @ p # [Suc p..<length series] = [0..<length series]"
    using assms(1) by (metis append.simps(2) less_imp_add_positive upt_add_eq_append upt_conv_Cons zero_le)
  finally show ?thesis by (simp add: aligned_def map_upt_nth)
qed

lemma aligned_EmaValues:
  "length closes = length series \<Longrightarrow> aligned series (EmaValues closes (DatesFromSeries series) p)"
  unfolding EmaValues_def
  by (auto simp: Let_def aligned_none DatesFromSeries_def NoneValues_def aligned_def
      map_upt_nth intro!: map_for_push [THEN trans])


lemma aligned_SMA: "CalculateSMA series params = Inr r \<Longrightarrow> ir_aligned series r"
  by (auto simp: CalculateSMA_def result_simps ir_aligned_def aligned_none intro!: aligned_upt)

lemma aligned_EMA: "CalculateEMA series params = Inr r \<Longrightarrow> ir_aligned series r"
  by (auto simp: CalculateEMA_def result_simps ir_aligned_def aligned_none Let_def
      intro!: aligned_for_push)

lemma aligned_RSI: "CalculateRSI series params = Inr r \<Longrightarrow> ir_aligned series r"
  by (auto simp: CalculateRSI_def result_simps ir_aligned_def aligned_none Let_def
      intro!: aligned_steps [simplified] split: prod.splits)

lemma aligned_ATR: "CalculateATR series params = Inr r \<Longrightarrow> ir_aligned series r"
  by (auto simp: CalculateATR_def result_simps ir_aligned_def aligned_none Let_def
      intro!: aligned_steps [simplified])

lemma aligned_Bollinger: "CalculateBollinger series params = Inr r \<Longrightarrow> ir_aligned series r"
  by (auto simp: CalculateBollinger_def result_simps ir_aligned_def aligned_none Let_def
      intro!: aligned_upt split: if_splits)

lemma aligned_OBV: "CalculateOBV series params = Inr r \<Longrightarrow> ir_aligned series r"
  by (auto simp: CalculateOBV_def ir_aligned_def Let_def 
      intro!: aligned_steps [of 0 series "\<lambda>i. none_at (bar_date (series ! i))", simplified])
    (simp add: aligned_def)

lemma aligned_VWAP: "CalculateVWAP series params = Inr r \<Longrightarrow> ir_aligned series r"
  by (auto simp: CalculateVWAP_def ir_aligned_def Let_def aligned_def split: prod.splits
      intro!: map_for_push)

lemma Dates_nth: "i < length series \<Longrightarrow> DatesFromSeries series ! i = bar_date (series ! i)"
  by (simp add: DatesFromSeries_def)

lemma aligned_MACD: "CalculateMACD series params = Inr r \<Longrightarrow> ir_aligned series r"
  unfolding CalculateMACD_def ebind_Inr_iff Let_def
  by (elim exE conjE) (simp only: split: if_splits;
    auto simp: result_simps ir_aligned_def aligned_none Dates_nth intro!: aligned_upt split: if_splits)

lemma aligned_Calculate: "Calculate name series params = Inr r \<Longrightarrow> ir_aligned series r"
  unfolding Calculate_def
  by (auto split: if_splits intro: aligned_SMA aligned_EMA aligned_RSI aligned_MACD aligned_Bollinger
      aligned_ATR aligned_OBV aligned_VWAP)


section \<open>No look-ahead\<close>

definition ir_take :: "nat \<Rightarrow> IndicatorResult \<Rightarrow> IndicatorResult" where
  "ir_take n r = r\<lparr>ir_values := take n (ir_values r),
     ir_extra_series := (\<lambda>k. map_option (take n) (ir_extra_series r k))\<rparr>"

lemma close_window_take: "i < n \<Longrightarrow> n \<le> length series \<Longrightarrow> close_window (take n series) p i = close_window series p i"
  by (auto simp: close_window_def)

lemma none_take:
  "n \<le> length series \<Longrightarrow> map (\<lambda>bar. none_at (bar_date bar)) (take n series)
   = map (\<lambda>i. none_at (bar_date (series ! i))) [0..<n]"
  by (simp add: map_take_upt min_def)

lemma take_upt_min: "take n [a..<m] = [a..<min (a + n) m]"
  by (cases "a + n \<le> m") (auto simp: take_upt min_def)

text \<open>The values of SMA and of the Bollinger bands: a function of the window of closes.\<close>

definition windowed :: "OHLCV list \<Rightarrow> nat \<Rightarrow> (double list \<Rightarrow> double) \<Rightarrow> IndicatorValue list" where
  "windowed series p g =
     (if p = 0 \<or> length series < p then map (\<lambda>bar. none_at (bar_date bar)) series
      else map (\<lambda>i. if i + 1 < p then none_at (bar_date (series ! i))
               else some_at (bar_date (series ! i)) (g (close_window series p i))) [0..<length series])"

lemma windowed_take:
  assumes "n \<le> length series"
  shows "windowed (take n series) p g = take n (windowed series p g)"
proof (cases "p = 0 \<or> n < p")
  case True
  then have "windowed (take n series) p g = map (\<lambda>i. none_at (bar_date (series ! i))) [0..<n]"
    using assms by (auto simp: windowed_def none_take)
  also have "\<dots> = take n (windowed series p g)"
    using True assms by (intro nth_equalityI) (auto simp: windowed_def)
  finally show ?thesis .
next
  case False
  then show ?thesis using assms
    by (auto simp: windowed_def take_map_upt min_def close_window_take)
qed

lemma windowed_nth:
  assumes "i < length series" "0 < p" "p \<le> length series"
  shows "iv_value (windowed series p g ! i) = (if i + 1 < p then None else Some (g (close_window series p i)))"
  using assms by (auto simp: windowed_def)

lemma SMA_result: "CalculateSMA series params = ebind (ParamAsSize params ''period'' 20) (\<lambda>p.
    Inr \<lparr>ir_name = ''sma'', ir_params = [''period'' \<mapsto> of_size p],
         ir_values = windowed series p ind_Mean, ir_extra_series = Map.empty\<rparr>)"
  by (simp add: CalculateSMA_def windowed_def)

abbreviation band_width :: "nat \<Rightarrow> double list \<Rightarrow> double" where
  "band_width k window \<equiv> of_size k * SampleStdDev window"

lemma Bollinger_result: "CalculateBollinger series params =
    ebind (ParamAsSize params ''period'' 20) (\<lambda>p. ebind (ParamAsSize params ''std_dev'' 2) (\<lambda>k.
    Inr \<lparr>ir_name = ''bollinger_bands'', ir_params = [''period'' \<mapsto> of_size p, ''std_dev'' \<mapsto> of_size k],
         ir_values = windowed series p ind_Mean,
         ir_extra_series = [''upper'' \<mapsto> windowed series p (\<lambda>w. ind_Mean w + band_width k w),
           ''lower'' \<mapsto> windowed series p (\<lambda>w. ind_Mean w - band_width k w)]\<rparr>))"
  unfolding CalculateBollinger_def windowed_def Let_def by (rule refl)

lemma causal_SMA: "CalculateSMA series params = Inr r \<Longrightarrow> n \<le> length series \<Longrightarrow>
    CalculateSMA (take n series) params = Inr (ir_take n r)"
  by (auto simp: SMA_result result_simps ir_take_def windowed_take fun_eq_iff)

lemma causal_Bollinger: "CalculateBollinger series params = Inr r \<Longrightarrow> n \<le> length series \<Longrightarrow>
    CalculateBollinger (take n series) params = Inr (ir_take n r)"
  by (auto simp: Bollinger_result result_simps ir_take_def windowed_take fun_eq_iff)

lemma causal_VWAP: "CalculateVWAP series params = Inr r \<Longrightarrow> CalculateVWAP (take n series) params = Inr (ir_take n r)"
  by (auto simp: CalculateVWAP_def ir_take_def take_for_push fun_eq_iff)

lemma causal_OBV: "CalculateOBV series params = Inr r \<Longrightarrow> n \<le> length series \<Longrightarrow>
    CalculateOBV (take n series) params = Inr (ir_take n r)"
  by (cases n) (auto simp: CalculateOBV_def ir_take_def take_for_push fun_eq_iff Let_def take_upt_min
      take_Cons' min_def intro!: for_push_cong)

text \<open>The prefix of the shape of RSI and ATR.\<close>

lemma take_steps:
  assumes "p < n" "n \<le> L"
  shows "take n (map a [0..<p] @ [b] @ for_push f s [p..<L - 1]) = map a [0..<p] @ [b] @ for_push f s [p..<n - 1]"
proof -
  have "take (n - p) (b # for_push f s [p..<L - 1]) = b # take (n - p - 1) (for_push f s [p..<L - 1])"
    using assms by (simp add: take_Cons')
  also have "take (n - p - 1) (for_push f s [p..<L - 1]) = for_push f s [p..<n - 1]"
    using assms by (simp add: take_for_push take_upt_min min_def)
  finally show ?thesis using assms by simp
qed

lemma take_steps_short:
  "n \<le> p \<Longrightarrow> take n (map a [0..<p] @ [b] @ for_push f s [p..<L - 1]) = map a [0..<n]"
  by (simp add: take_map_upt)


lemma gain_loss_take:
  "i + 1 < n \<Longrightarrow> n \<le> length series \<Longrightarrow> gain_at (take n series) i = gain_at series i"
  "i + 1 < n \<Longrightarrow> n \<le> length series \<Longrightarrow> loss_at (take n series) i = loss_at series i"
  by (simp_all add: gain_at_def loss_at_def)

text \<open>The values of RSI and of ATR: no value for \<open>p\<close> bars, the initial average, the smoothed averages.\<close>

definition stepped :: "OHLCV list \<Rightarrow> nat \<Rightarrow> double \<Rightarrow> ('s \<Rightarrow> nat \<Rightarrow> 's \<times> IndicatorValue) \<Rightarrow> 's \<Rightarrow> IndicatorValue list" where
  "stepped series p b f s =
     (if p = 0 \<or> length series < p + 1 then map (\<lambda>bar. none_at (bar_date bar)) series
      else map (\<lambda>i. none_at (bar_date (series ! i))) [0..<p]
           @ [some_at (bar_date (series ! p)) b] @ for_push f s [p..<length series - 1])"

lemma stepped_take:
  assumes n: "n \<le> length series"
    and eq: "p < n \<Longrightarrow> b' = b \<and> s' = s"
    and f: "\<And>s i. p \<le> i \<Longrightarrow> i + 1 < n \<Longrightarrow> f' s i = f s i"
  shows "stepped (take n series) p b' f' s' = take n (stepped series p b f s)"
proof (cases "p = 0 \<or> n < p + 1")
  case True
  then have "stepped (take n series) p b' f' s' = map (\<lambda>i. none_at (bar_date (series ! i))) [0..<n]"
    using n by (auto simp: stepped_def none_take)
  also have "\<dots> = take n (stepped series p b f s)"
  proof (cases "p = 0 \<or> length series < p + 1")
    case True
    then show ?thesis using n by (auto simp: stepped_def take_map none_take)
  next
    case False
    with \<open>p = 0 \<or> n < p + 1\<close> show ?thesis unfolding stepped_def
      by (simp only: if_False) (rule take_steps_short [symmetric], simp)
  qed
  finally show ?thesis .
next
  case False
  then have p: "0 < p" "p < n" by auto
  have "stepped (take n series) p b' f' s'
      = map (\<lambda>i. none_at (bar_date (series ! i))) [0..<p]
        @ [some_at (bar_date (series ! p)) b] @ for_push f' s [p..<n - 1]"
    using p n eq by (auto simp: stepped_def)
  also have "for_push f' s [p..<n - 1] = for_push f s [p..<n - 1]"
    by (rule for_push_cong) (auto intro!: f)
  also have "map (\<lambda>i. none_at (bar_date (series ! i))) [0..<p]
      @ [some_at (bar_date (series ! p)) b] @ for_push f s [p..<n - 1] = take n (stepped series p b f s)"
    using p n take_steps [OF p(2) n, of "\<lambda>i. none_at (bar_date (series ! i))" "some_at (bar_date (series ! p)) b" f s]
    by (simp only: stepped_def) simp
  finally show ?thesis .
qed

abbreviation smooth :: "nat \<Rightarrow> double \<Rightarrow> double \<Rightarrow> double" where
  "smooth p a x \<equiv> (a * of_size (p - 1) + x) / of_size p"

abbreviation rsi_step :: "OHLCV list \<Rightarrow> nat \<Rightarrow> double \<times> double \<Rightarrow> nat \<Rightarrow> (double \<times> double) \<times> IndicatorValue" where
  "rsi_step series p \<equiv> (\<lambda>(g, l) i.
     let g' = smooth p g (gain_at series i); l' = smooth p l (loss_at series i)
     in ((g', l'), some_at (bar_date (series ! (i + 1))) (RsiValue g' l')))"

abbreviation atr_step :: "OHLCV list \<Rightarrow> nat \<Rightarrow> double \<Rightarrow> nat \<Rightarrow> double \<times> IndicatorValue" where
  "atr_step series p \<equiv> (\<lambda>a i. let tr = TrueRange (series ! (i + 1)) (series ! i); a' = smooth p a tr
     in (a', some_at (bar_date (series ! (i + 1))) a'))"

lemma RSI_result: "CalculateRSI series params = ebind (ParamAsSize params ''period'' 14) (\<lambda>p.
    Inr \<lparr>ir_name = ''rsi'', ir_params = [''period'' \<mapsto> of_size p],
      ir_values = stepped series p
        (RsiValue (ind_Mean (map (gain_at series) [0..<p])) (ind_Mean (map (loss_at series) [0..<p])))
        (rsi_step series p)
        (ind_Mean (map (gain_at series) [0..<p]), ind_Mean (map (loss_at series) [0..<p])),
      ir_extra_series = Map.empty\<rparr>)"
  unfolding CalculateRSI_def stepped_def Let_def by (rule refl)

lemma ATR_result: "CalculateATR series params = ebind (ParamAsSize params ''period'' 14) (\<lambda>p.
    Inr \<lparr>ir_name = ''atr'', ir_params = [''period'' \<mapsto> of_size p],
      ir_values = stepped series p
        (ind_Mean (map (\<lambda>i. TrueRange (series ! (i + 1)) (series ! i)) [0..<p])) (atr_step series p)
        (ind_Mean (map (\<lambda>i. TrueRange (series ! (i + 1)) (series ! i)) [0..<p])),
      ir_extra_series = Map.empty\<rparr>)"
  unfolding CalculateATR_def stepped_def Let_def by (rule refl)

lemma causal_RSI: "CalculateRSI series params = Inr r \<Longrightarrow> n \<le> length series \<Longrightarrow>
    CalculateRSI (take n series) params = Inr (ir_take n r)"
proof -
  assume r: "CalculateRSI series params = Inr r" and n: "n \<le> length series"
  have g: "p < n \<Longrightarrow> map (gain_at (take n series)) [0..<p] = map (gain_at series) [0..<p]" for p
    using n by (auto simp: gain_loss_take)
  have l: "p < n \<Longrightarrow> map (loss_at (take n series)) [0..<p] = map (loss_at series) [0..<p]" for p
    using n by (auto simp: gain_loss_take)
  show ?thesis using r n
    by (auto simp: RSI_result result_simps ir_take_def fun_eq_iff g l gain_loss_take Let_def
        intro!: stepped_take)
qed

lemma causal_ATR: "CalculateATR series params = Inr r \<Longrightarrow> n \<le> length series \<Longrightarrow>
    CalculateATR (take n series) params = Inr (ir_take n r)"
proof -
  assume r: "CalculateATR series params = Inr r" and n: "n \<le> length series"
  show ?thesis using r n
    by (auto simp: ATR_result result_simps ir_take_def fun_eq_iff Let_def
        intro!: stepped_take arg_cong [where f = ind_Mean])
qed


lemma EMA_result: "CalculateEMA series params = ebind (ParamAsSize params ''period'' 20) (\<lambda>p.
    Inr \<lparr>ir_name = ''ema'', ir_params = [''period'' \<mapsto> of_size p],
      ir_values = EmaValues (map bar_close series) (DatesFromSeries series) p,
      ir_extra_series = Map.empty\<rparr>)"
proof -
  have w: "i < length series \<Longrightarrow>
      map (\<lambda>j. bar_close (series ! j)) [0..<i + 1] = take (i + 1) (map bar_close series)" for i
    by (simp add: take_map map_take_upt min_def del: upt_Suc)
  have eq: "(if p = 0 \<or> length series < p then map (\<lambda>bar. none_at (bar_date bar)) series
      else for_push (\<lambda>ema i.
           if i + 1 < p then (ema, none_at (bar_date (series ! i)))
           else if i + 1 = p then
             (ind_Mean (map (\<lambda>j. bar_close (series ! j)) [0..<i + 1]),
              some_at (bar_date (series ! i)) (ind_Mean (map (\<lambda>j. bar_close (series ! j)) [0..<i + 1])))
           else
             ((bar_close (series ! i) - ema) * (lit 2 / of_size (p + 1)) + ema,
              some_at (bar_date (series ! i)) ((bar_close (series ! i) - ema) * (lit 2 / of_size (p + 1)) + ema)))
         0 [0..<length series])
    = EmaValues (map bar_close series) (DatesFromSeries series) p" for p
    unfolding EmaValues_def Let_def length_map
    by (intro if_cong refl for_push_cong) (auto simp: NoneValues_def DatesFromSeries_def w [simplified])
  show ?thesis unfolding CalculateEMA_def Let_def eq by (rule refl)
qed

lemma EmaValues_take:
  assumes n: "n \<le> length closes" and len: "length dates = length closes"
  shows "EmaValues (take n closes) (take n dates) p = take n (EmaValues closes dates p)"
proof (cases "p = 0 \<or> n < p")
  case True
  then have "EmaValues (take n closes) (take n dates) p = map (\<lambda>i. none_at (dates ! i)) [0..<n]"
    using n len by (auto simp: EmaValues_def NoneValues_def map_take_upt min_def)
  also have "\<dots> = take n (EmaValues closes dates p)"
  proof (cases "p = 0 \<or> length closes < p")
    case True
    then show ?thesis using n len
      by (auto simp: EmaValues_def NoneValues_def take_map map_take_upt min_def)
  next
    case False
    with \<open>p = 0 \<or> n < p\<close> n show ?thesis
      by (auto simp: EmaValues_def Let_def take_for_push take_upt_min min_def
          intro!: for_push_eq_map [symmetric])
  qed
  finally show ?thesis .
next
  case False
  then show ?thesis using n len
    by (auto simp: EmaValues_def Let_def take_for_push take_upt_min min_def intro!: for_push_cong)
qed

lemma EmaValues_none:
  assumes "i < length closes" "i + 1 < p" "length dates = length closes"
  shows "iv_value (EmaValues closes dates p ! i) = None"
proof -
  have "EmaValues closes dates p ! i = take (i + 1) (EmaValues closes dates p) ! i" by simp
  also have "\<dots> = EmaValues (take (i + 1) closes) (take (i + 1) dates) p ! i"
    using EmaValues_take [of "i + 1" closes dates p] assms by simp
  also have "\<dots> = none_at (dates ! i)" using assms by (simp add: EmaValues_def NoneValues_def)
  finally show ?thesis by simp
qed

lemma EmaValues_some:
  assumes "i < length closes" "p \<le> i + 1" "0 < p"
  shows "iv_value (EmaValues closes dates p ! i) \<noteq> None"
proof -
  have c: "\<not> (p = 0 \<or> length closes < p)" using assms by simp
  show ?thesis using assms unfolding EmaValues_def Let_def if_not_P [OF c]
    by (intro for_push_nthI [where Q = "\<lambda>b. iv_value b \<noteq> None"]) auto
qed

lemma causal_EMA: "CalculateEMA series params = Inr r \<Longrightarrow> n \<le> length series \<Longrightarrow>
    CalculateEMA (take n series) params = Inr (ir_take n r)"
  using EmaValues_take [of n "map bar_close series" "map bar_date series"]
  by (auto simp: EMA_result result_simps ir_take_def fun_eq_iff DatesFromSeries_def take_map)

text \<open>MACD: the line, its smoothing, and their difference, all over the same dates.\<close>

definition macd_line_of :: "OHLCV list \<Rightarrow> nat \<Rightarrow> nat \<Rightarrow> IndicatorValue list" where
  "macd_line_of series fast slow =
     (let dates = DatesFromSeries series; closes = map bar_close series;
          fast_ema = EmaValues closes dates fast; slow_ema = EmaValues closes dates slow
      in map (\<lambda>i. \<lparr>iv_date = dates ! i,
           iv_value = opt_sub (iv_value (fast_ema ! i)) (iv_value (slow_ema ! i))\<rparr>) [0..<length series])"

lemma length_EmaValues: "length dates = length closes \<Longrightarrow> length (EmaValues closes dates p) = length closes"
  by (simp add: EmaValues_def NoneValues_def Let_def)

lemma macd_line_take:
  assumes "n \<le> length series"
  shows "macd_line_of (take n series) fast slow = take n (macd_line_of series fast slow)"
proof -
  have e: "EmaValues (map bar_close (take n series)) (DatesFromSeries (take n series)) p
      = take n (EmaValues (map bar_close series) (DatesFromSeries series) p)" for p
    using EmaValues_take [of n "map bar_close series" "map bar_date series" p] assms
    by (simp add: DatesFromSeries_def take_map)
  show ?thesis using assms
    by (auto simp: macd_line_of_def Let_def e [unfolded DatesFromSeries_def] take_map_upt min_def DatesFromSeries_def)
qed

lemma EmaOfOptions_take:
  "EmaOfOptions vs p = Inr ws \<Longrightarrow> EmaOfOptions (take n vs) p = Inr (take n ws)"
  by (auto simp: EmaOfOptions_def result_simps Let_def take_map take_for_push split: if_splits)

lemma EmaOfOptions_length: "EmaOfOptions vs p = Inr ws \<Longrightarrow> length ws = length vs"
  by (auto simp: EmaOfOptions_def result_simps Let_def split: if_splits)


lemma MACD_result: "CalculateMACD series params =
    ebind (ParamAsSize params ''fast'' 12) (\<lambda>fast. ebind (ParamAsSize params ''slow'' 26) (\<lambda>slow.
    ebind (ParamAsSize params ''signal'' 9) (\<lambda>signal.
      if fast = 0 \<or> slow = 0 \<or> signal = 0 \<or> length series < slow then
        Inr \<lparr>ir_name = ''macd'', ir_params = macd_params fast slow signal,
          ir_values = NoneValues (DatesFromSeries series),
          ir_extra_series = [''signal'' \<mapsto> NoneValues (DatesFromSeries series),
            ''histogram'' \<mapsto> NoneValues (DatesFromSeries series)]\<rparr>
      else ebind (EmaOfOptions (macd_line_of series fast slow) signal) (\<lambda>signal_ema.
        Inr \<lparr>ir_name = ''macd'', ir_params = macd_params fast slow signal,
          ir_values = macd_line_of series fast slow,
          ir_extra_series =
            [''signal'' \<mapsto> map (\<lambda>i. \<lparr>iv_date = bar_date (series ! i), iv_value = iv_value (signal_ema ! i)\<rparr>)
               [0..<length series],
             ''histogram'' \<mapsto> map (\<lambda>i. \<lparr>iv_date = bar_date (series ! i),
                 iv_value = opt_sub (iv_value (macd_line_of series fast slow ! i)) (iv_value (signal_ema ! i))\<rparr>)
               [0..<length series]]\<rparr>))))"
proof -
  have "map (\<lambda>i. \<lparr>iv_date = DatesFromSeries series ! i, iv_value = iv_value (macd_line_of series fast slow ! i)\<rparr>)
      [0..<length series] = macd_line_of series fast slow" for fast slow
    by (rule nth_equalityI) (auto simp: macd_line_of_def Let_def)
  then show ?thesis
    unfolding CalculateMACD_def Let_def macd_line_of_def [unfolded Let_def, symmetric]
    by (auto simp: Dates_nth intro!: arg_cong2 [where f = ebind] ext)
qed


lemma opt_sub_None [simp]: "opt_sub None b = None" "opt_sub a None = None"
  by (simp_all add: opt_sub_def split: option.splits)

lemma opt_sub_eq_None: "opt_sub a b = None \<longleftrightarrow> a = None \<or> b = None"
  by (auto simp: opt_sub_def split: option.splits)

lemma length_macd_line [simp]: "length (macd_line_of series fast slow) = length series"
  by (simp add: macd_line_of_def Let_def)

lemma macd_line_value: "i < length series \<Longrightarrow> iv_value (macd_line_of series fast slow ! i) =
    opt_sub (iv_value (EmaValues (map bar_close series) (DatesFromSeries series) fast ! i))
            (iv_value (EmaValues (map bar_close series) (DatesFromSeries series) slow ! i))"
  by (simp add: macd_line_of_def Let_def)

lemma macd_line_none:
  "i < length series \<Longrightarrow> i + 1 < slow \<Longrightarrow> macd_line_of series fast slow ! i = none_at (bar_date (series ! i))"
  by (simp add: macd_line_of_def Let_def EmaValues_none DatesFromSeries_def)

text \<open>Smoothing a prefix with no values gives no values.\<close>

lemma EmaOfOptions_none:
  assumes "EmaOfOptions vs p = Inr ws" "\<forall>v \<in> set vs. iv_value v = None"
  shows "\<forall>w \<in> set ws. iv_value w = None"
proof (cases "p = 0")
  case True
  then show ?thesis using assms by (auto simp: EmaOfOptions_def)
next
  case False
  with assms(1) have "ws = for_push (ema_of_options_step p (lit 2 / of_size (p + 1))) (None, []) vs"
    by (simp add: EmaOfOptions_def result_simps Let_def)
  also have "\<dots> = map (\<lambda>iv. none_at (iv_date iv)) vs"
    using assms(2) by (intro for_push_eq_map) (auto simp: ema_of_options_step_def split: prod.splits)
  finally show ?thesis by auto
qed

lemma causal_MACD:
  assumes r: "CalculateMACD series params = Inr r" and n: "n \<le> length series"
  shows "CalculateMACD (take n series) params = Inr (ir_take n r)"
proof -
  from r obtain fast slow signal where p: "ParamAsSize params ''fast'' 12 = Inr fast"
      "ParamAsSize params ''slow'' 26 = Inr slow" "ParamAsSize params ''signal'' 9 = Inr signal"
    by (auto simp: MACD_result ebind_Inr_iff)
  have nz: "fast \<noteq> 0" "slow \<noteq> 0" "signal \<noteq> 0"
    using ParamAsSize_pos [OF p(1)] ParamAsSize_pos [OF p(2)] ParamAsSize_pos [OF p(3)] by simp_all
  let ?none = "\<lambda>k. map (\<lambda>i. none_at (bar_date (series ! i))) [0..<k]"
  have none: "NoneValues (DatesFromSeries (take n series)) = ?none n"
    using n by (simp add: NoneValues_def DatesFromSeries_def none_take comp_def)
  show ?thesis
  proof (cases "length series < slow")
    case True
    then show ?thesis using r n p
      by (auto simp: MACD_result ir_take_def fun_eq_iff NoneValues_def DatesFromSeries_def take_map)
  next
    case False
    with r p nz obtain sig where sig: "EmaOfOptions (macd_line_of series fast slow) signal = Inr sig"
      and rr: "r = \<lparr>ir_name = ''macd'', ir_params = macd_params fast slow signal,
          ir_values = macd_line_of series fast slow,
          ir_extra_series =
            [''signal'' \<mapsto> map (\<lambda>i. \<lparr>iv_date = bar_date (series ! i), iv_value = iv_value (sig ! i)\<rparr>)
               [0..<length series],
             ''histogram'' \<mapsto> map (\<lambda>i. \<lparr>iv_date = bar_date (series ! i),
                 iv_value = opt_sub (iv_value (macd_line_of series fast slow ! i)) (iv_value (sig ! i))\<rparr>)
               [0..<length series]]\<rparr>"
      by (auto simp: MACD_result ebind_Inr_iff)
    have sig_n: "EmaOfOptions (macd_line_of (take n series) fast slow) signal = Inr (take n sig)"
      using EmaOfOptions_take [OF sig] n by (simp add: macd_line_take)
    have len: "length sig = length series" using EmaOfOptions_length [OF sig] by simp
    show ?thesis
    proof (cases "n < slow")
      case True
      have line: "take n (macd_line_of series fast slow) = ?none n"
        using n True by (intro nth_equalityI) (auto simp: macd_line_none)
      have "\<forall>w \<in> set (take n sig). iv_value w = None"
        using EmaOfOptions_none [OF sig_n] line n by (auto simp: macd_line_take)
      then have "i < n \<Longrightarrow> iv_value (sig ! i) = None" for i
        using len n by (metis in_set_conv_nth length_take min.absorb2 nth_take)
      then show ?thesis using True n p rr line none
        by (auto simp: MACD_result ir_take_def fun_eq_iff take_map_upt min_def intro!: map_upt_cong)
    next
      case False
      then show ?thesis using n p rr sig_n nz
        by (auto simp: MACD_result ir_take_def fun_eq_iff take_map_upt min_def macd_line_take)
    qed
  qed
qed

lemma causal_Calculate_le:
  assumes "Calculate name series params = Inr r" "n \<le> length series"
  shows "Calculate name (take n series) params = Inr (ir_take n r)"
  using assms unfolding Calculate_def
  by (auto split: if_splits intro: causal_SMA causal_EMA causal_RSI causal_MACD causal_Bollinger
      causal_ATR causal_OBV causal_VWAP)

lemma ir_take_all: "ir_aligned series r \<Longrightarrow> length series \<le> n \<Longrightarrow> ir_take n r = r"
  by (auto simp: ir_take_def ir_aligned_def aligned_length fun_eq_iff option.map_ident_strong
      intro!: IndicatorResult.equality option.map_ident_strong) (metis aligned_length option.set_cases take_all)

lemma causal_Calculate:
  assumes "Calculate name series params = Inr r"
  shows "Calculate name (take n series) params = Inr (ir_take n r)"
proof (cases "n \<le> length series")
  case True
  then show ?thesis using assms by (rule causal_Calculate_le [rotated])
next
  case False
  then show ?thesis using assms ir_take_all [OF aligned_Calculate [OF assms], of n] by simp
qed

end
