(* ===== verification/Samples.thy ===== *)
theory Samples
  imports Indicator_Facts
begin

text \<open>Concrete series on which the witnesses of the properties are evaluated.\<close>

definition sample_bar :: "int \<Rightarrow> int \<Rightarrow> OHLCV" where
  "sample_bar day price = \<lparr>bar_date = day * 86400000000000, bar_open = lit (of_int price),
     bar_high = lit (of_int (price + 1)), bar_low = lit (of_int (price - 1)), bar_close = lit (of_int price),
     bar_volume = 1000\<rparr>"

definition rising3 :: "OHLCV list" where
  "rising3 = [sample_bar 0 100, sample_bar 1 101, sample_bar 2 103]"

definition zigzag4 :: "OHLCV list" where
  "zigzag4 = [sample_bar 0 100, sample_bar 1 102, sample_bar 2 101, sample_bar 3 104]"

definition period2 :: params where
  "period2 = [''period'' \<mapsto> lit (of_nat 2)]"

lemma ParamAsSize_period2: "ParamAsSize period2 ''period'' d = Inr 2"
  by (rule ParamAsSize_lit) (simp_all only: period2_def fun_upd_same, simp_all)

lemma length_samples [simp]: "length rising3 = 3" "length zigzag4 = 4" "rising3 \<noteq> []" "zigzag4 \<noteq> []"
  by (simp_all add: rising3_def zigzag4_def)

lemma sample_closes: "map bar_close rising3 = map (lit \<circ> of_int) [100, 101, 103]"
  by (simp add: rising3_def sample_bar_def)

lemma repr_int_numeral: "(numeral n :: int) \<le> 9007199254740992 \<Longrightarrow> repr (of_int (numeral n))"
  by simp

end
