(* ===== verification/Indicator_Ranges.thy ===== *)
theory Indicator_Ranges
  imports Indicator_Facts Samples
begin

text \<open>
  Ranges of the indicators: RSI in [0, 100], ATR and band widths not negative, the bands around the
  middle, on-balance volume exact. NaN is a possible result wherever a sum overflows.
\<close>

section \<open>Ranges\<close>

lemma nn_ind_Mean: "xs \<noteq> [] \<Longrightarrow> \<forall>x \<in> set xs. nn x \<Longrightarrow> nn (ind_Mean xs)"
  unfolding ind_Mean_def by (intro nn_div_size nn_foldl) auto

lemma nn_SampleStdDev: "nn (SampleStdDev xs)"
  by (auto simp: SampleStdDev_def Let_def)

lemma nn_gain_loss: "nn (gain_at series i)" "nn (loss_at series i)"
proof -
  show "nn (gain_at series i)" by (auto simp: gain_at_def Let_def nn_def le_key)
  have "isnan d \<or> 0 \<le> d \<or> 0 \<le> - d" for d :: double by (auto simp: dkey)
  then have "nn (if 0 \<le> d then 0 else - d)" for d :: double by (auto simp: nn_def dkey)
  then show "nn (loss_at series i)" by (simp only: loss_at_def Let_def)
qed

lemma repr_100 [simp]: "repr 100" and fin_100 [simp]: "isfinite (lit 100)" and key_100 [simp]: "key (lit 100) = 100"
  by (simp_all add: isfinite_lit_repr key_lit_repr)

lemma isfinite_between:
  assumes "0 \<le> x" "x \<le> y" "isfinite y"
  shows "isfinite x"
proof -
  have "\<not> isnan x" "0 \<le> key x" "key x \<le> key y" "\<bar>key y\<bar> < big"
    using assms unfolding le_key isfinite_key key_0 by blast+
  then show ?thesis by (simp add: isfinite_key)
qed

lemma RsiValue_range:
  assumes "nn g" "nn l"
  shows "nan_or_between 0 (lit 100) (RsiValue g l)"
proof (cases "deq l 0")
  case True
  then show ?thesis by (simp add: RsiValue_def nan_or_between_def dkey)
next
  case False
  show ?thesis
  proof (cases "isnan (1 + g / l)")
    case True
    then show ?thesis using False by (simp add: RsiValue_def Let_def nan_or_between_def)
  next
    case nn: False
    then have "\<not> isnan (g / l)" "\<not> isnan l" by auto
    then have "0 < l" using assms(2) False by (auto simp: nn_def dkey)
    then have "0 \<le> g / l" using nn_div [OF assms(1)] \<open>\<not> isnan (g / l)\<close> by (auto simp: nn_def)
    then have "1 \<le> 1 + g / l" using add_nonneg_mono [of "g / l" 1] nn isnan_1 by blast
    have h: "0 \<le> lit 100" by (simp add: le_key)
    have q: "0 \<le> lit 100 / (1 + g / l)" "lit 100 / (1 + g / l) \<le> lit 100"
      using div_ge_1 [OF fin_100 h \<open>1 \<le> 1 + g / l\<close>] by blast+
    let ?q = "lit 100 / (1 + g / l)"
    have fq: "isfinite ?q" using q fin_100 by (rule isfinite_between)
    have k: "key (lit 100 - ?q) = crnd (100 - key ?q)" "\<not> isnan (lit 100 - ?q)"
      using sub_finite [OF fin_100 fq] by simp_all
    have "crnd (100 - key ?q) \<le> crnd 100" "crnd 0 \<le> crnd (100 - key ?q)"
      using q by (simp_all add: le_key crnd_mono crnd_nonneg)
    then have "0 \<le> lit 100 - ?q" "lit 100 - ?q \<le> lit 100" using k by (simp_all add: le_key crnd_repr)
    then show ?thesis using False by (simp add: RsiValue_def Let_def nan_or_between_def)
  qed
qed

lemma nn_smooth: "nn a \<Longrightarrow> nn x \<Longrightarrow> 0 < p \<Longrightarrow> nn ((a * of_size m + x) / of_size p)"
  by (intro nn_div_size nn_add nn_mul nn_of_size)

lemma stepped_values:
  assumes "0 < p" and b: "Q b" and "P s"
    and step: "\<And>s i. P s \<Longrightarrow> P (fst (f s i)) \<and> (\<forall>x. iv_value (snd (f s i)) = Some x \<longrightarrow> Q x)"
    and v: "v \<in> set (stepped series p b f s)" "iv_value v = Some x"
  shows "Q x"
proof -
  have "\<forall>v \<in> set (for_push f s [p..<length series - 1]). \<forall>x. iv_value v = Some x \<longrightarrow> Q x"
    by (rule for_push_inv [where P = P]) (use assms(3) step in auto)
  then show ?thesis using v b by (auto simp: stepped_def split: if_splits)
qed

lemma RSI_range:
  assumes "CalculateRSI series params = Inr r" "v \<in> set (ir_values r)" "iv_value v = Some x"
  shows "nan_or_between 0 (lit 100) x"
proof -
  from assms(1) obtain p where p: "ParamAsSize params ''period'' 14 = Inr p"
    and r: "ir_values r = stepped series p
        (RsiValue (ind_Mean (map (gain_at series) [0..<p])) (ind_Mean (map (loss_at series) [0..<p])))
        (rsi_step series p)
        (ind_Mean (map (gain_at series) [0..<p]), ind_Mean (map (loss_at series) [0..<p]))"
    by (auto simp: RSI_result ebind_Inr_iff)
  have p0: "0 < p" using ParamAsSize_pos [OF p] by simp
  have nn: "nn (ind_Mean (map (gain_at series) [0..<p]))" "nn (ind_Mean (map (loss_at series) [0..<p]))"
    using p0 by (auto intro!: nn_ind_Mean nn_gain_loss)
  show ?thesis
    by (rule stepped_values [OF p0 _ _ _ assms(2) [unfolded r] assms(3), where P = "\<lambda>(g, l). nn g \<and> nn l"])
      (use nn p0 in \<open>auto simp: Let_def intro!: RsiValue_range nn_smooth nn_gain_loss\<close>)
qed

text \<open>True ranges of bars whose prices are finite.\<close>

definition finite_bar :: "OHLCV \<Rightarrow> bool" where
  "finite_bar bar \<longleftrightarrow> isfinite (bar_open bar) \<and> isfinite (bar_high bar) \<and> isfinite (bar_low bar) \<and>
     isfinite (bar_close bar)"

lemma TrueRange_nonneg:
  assumes "finite_bar bar" "finite_bar prev"
  shows "0 \<le> TrueRange bar prev"
proof -
  have "\<not> isnan (bar_high bar - bar_low bar)" "\<not> isnan (bar_high bar - bar_close prev)"
      "\<not> isnan (bar_low bar - bar_close prev)"
    using assms sub_finite unfolding finite_bar_def by blast+
  then have h: "\<not> isnan (bar_high bar - bar_low bar)" "0 \<le> \<bar>bar_high bar - bar_close prev\<bar>"
      "0 \<le> \<bar>bar_low bar - bar_close prev\<bar>"
    by simp_all
  have "0 \<le> dmax a (dmax b c)" if "\<not> isnan a" "0 \<le> b" "0 \<le> c" for a b c :: double
    using that by (auto simp: dmax_def dkey)
  then show ?thesis using h unfolding TrueRange_def Let_def by blast
qed

lemma ATR_nonneg:
  assumes "CalculateATR series params = Inr r" "\<forall>bar \<in> set series. finite_bar bar"
    and "v \<in> set (ir_values r)" "iv_value v = Some x"
  shows "nn x"
proof -
  let ?tr = "\<lambda>i. TrueRange (series ! (i + 1)) (series ! i)"
  from assms(1) obtain p where p: "ParamAsSize params ''period'' 14 = Inr p"
    and r: "ir_values r = stepped series p (ind_Mean (map ?tr [0..<p])) (atr_step series p) (ind_Mean (map ?tr [0..<p]))"
    by (auto simp: ATR_result ebind_Inr_iff)
  have p0: "0 < p" using ParamAsSize_pos [OF p] by simp
  have tr: "nn (?tr i)" if "i + 1 < length series" for i
    using TrueRange_nonneg [of "series ! (i + 1)" "series ! i"] assms(2) that by (simp add: nn_def)
  show ?thesis
  proof (cases "length series < p + 1")
    case True
    then show ?thesis using assms(3,4) r by (auto simp: stepped_def)
  next
    case False
    have b: "nn (ind_Mean (map ?tr [0..<p]))" using p0 False by (intro nn_ind_Mean) (auto intro!: tr [simplified])
    have "\<forall>v \<in> set (for_push (atr_step series p) (ind_Mean (map ?tr [0..<p])) [p..<length series - 1]).
        \<forall>x. iv_value v = Some x \<longrightarrow> nn x"
      using b by (rule for_push_inv [where P = nn]) (use p0 in \<open>auto simp: Let_def intro!: nn_smooth tr [simplified]\<close>)
    then show ?thesis using assms(3,4) r b False p0 by (auto simp: stepped_def)
  qed
qed

text \<open>The bands enclose the middle, wherever they are numbers.\<close>

lemma band_order:
  assumes "nn w"
  shows "isnan (m - w) \<or> isnan (m + w) \<or> m - w \<le> m \<and> m \<le> m + w"
proof (cases "isnan m \<or> isnan w")
  case False
  then have "0 \<le> w" "\<not> isnan m" using assms by (auto simp: nn_def)
  then show ?thesis using add_nonneg_mono [of w m] sub_nonneg_mono [of w m] by auto
qed auto

lemma Bollinger_bands:
  assumes "CalculateBollinger series params = Inr r"
    and "ir_extra_series r ''upper'' = Some up" "ir_extra_series r ''lower'' = Some lo"
    and "i < length series" "iv_value (ir_values r ! i) = Some m"
  shows "\<exists>u l. iv_value (up ! i) = Some u \<and> iv_value (lo ! i) = Some l \<and>
      (isnan l \<or> isnan u \<or> l \<le> m \<and> m \<le> u)"
proof -
  from assms(1) obtain p k where p: "ParamAsSize params ''period'' 20 = Inr p"
    and r: "ir_values r = windowed series p ind_Mean"
      "ir_extra_series r = [''upper'' \<mapsto> windowed series p (\<lambda>w. ind_Mean w + band_width k w),
           ''lower'' \<mapsto> windowed series p (\<lambda>w. ind_Mean w - band_width k w)]"
    by (auto simp: Bollinger_result ebind_Inr_iff)
  have nn: "nn (band_width k w)" for w by (intro nn_mul nn_of_size nn_SampleStdDev)
  have le: "p \<le> length series" using assms(4,5) r by (auto simp: windowed_def split: if_splits)
  show ?thesis using assms(2-5) r le ParamAsSize_pos [OF p] band_order [OF nn]
    by (auto simp: windowed_nth split: if_splits)
qed

text \<open>
  On-balance volume over the integers. It is what the code computes in doubles while no partial sum
  leaves the exactly representable integers.
\<close>

fun obv_int :: "OHLCV list \<Rightarrow> int \<Rightarrow> nat \<Rightarrow> int" where
  "obv_int series v0 0 = v0"
| "obv_int series v0 (Suc i) =
     (let o' = obv_int series v0 i; c = bar_close (series ! Suc i); p = bar_close (series ! i)
      in if p < c then o' + bar_volume (series ! Suc i) else if c < p then o' - bar_volume (series ! Suc i) else o')"

lemma volume_exact: "\<bar>a\<bar> \<le> 2 ^ 53 \<Longrightarrow> \<bar>b\<bar> \<le> 2 ^ 53 \<Longrightarrow>
    lit (of_int a) + lit (of_int b) = lit (of_int (a + b)) \<and> lit (of_int a) - lit (of_int b) = lit (of_int (a - b))"
  using repr_of_int [of a] repr_of_int [of b] by (simp add: lit_add lit_sub)

abbreviation obv_step :: "OHLCV list \<Rightarrow> double \<Rightarrow> nat \<Rightarrow> double \<times> IndicatorValue" where
  "obv_step series \<equiv> (\<lambda>obv i.
     let current_close = bar_close (series ! (i + 1)); previous_close = bar_close (series ! i);
         volume = volume_of (series ! (i + 1));
         obv' = (if previous_close < current_close then obv + volume
                 else if current_close < previous_close then obv - volume else obv)
     in (obv', some_at (bar_date (series ! (i + 1))) obv'))"

lemma obv_step_exact:
  assumes "\<forall>j. j \<le> m + n \<longrightarrow> \<bar>obv_int series v0 j\<bar> \<le> 2 ^ 53"
    and "\<forall>j. j \<le> m + n \<longrightarrow> \<bar>bar_volume (series ! j)\<bar> \<le> 2 ^ 53"
  shows "for_push (obv_step series) (lit (of_int (obv_int series v0 m))) [m..<m + n] =
      map (\<lambda>i. some_at (bar_date (series ! Suc i)) (lit (of_int (obv_int series v0 (Suc i))))) [m..<m + n]"
  using assms
proof (induction n arbitrary: m)
  case (Suc n)
  have e: "[m..<m + Suc n] = m # [Suc m..<Suc m + n]" by (simp add: upt_conv_Cons)
  have "\<bar>obv_int series v0 m\<bar> \<le> 2 ^ 53" "\<bar>bar_volume (series ! Suc m)\<bar> \<le> 2 ^ 53" using Suc.prems by auto
  note v = volume_exact [OF this]
  have h: "obv_step series (lit (of_int (obv_int series v0 m))) m =
      (lit (of_int (obv_int series v0 (Suc m))),
       some_at (bar_date (series ! Suc m)) (lit (of_int (obv_int series v0 (Suc m)))))"
    using v by (simp add: Let_def volume_of_def)
  have "for_push (obv_step series) (lit (of_int (obv_int series v0 (Suc m)))) [Suc m..<Suc m + n] =
      map (\<lambda>i. some_at (bar_date (series ! Suc i)) (lit (of_int (obv_int series v0 (Suc i))))) [Suc m..<Suc m + n]"
    using Suc.prems by (intro Suc.IH) auto
  then show ?case unfolding e by (simp only: for_push.simps h fst_conv snd_conv list.map)
qed simp

lemma OBV_exact:
  assumes "series \<noteq> []"
    and "\<forall>j < length series. \<bar>obv_int series (bar_volume (series ! 0)) j\<bar> \<le> 2 ^ 53 \<and>
        \<bar>bar_volume (series ! j)\<bar> \<le> 2 ^ 53"
  shows "\<exists>r. CalculateOBV series params = Inr r \<and>
      ir_values r = map (\<lambda>i. some_at (bar_date (series ! i))
        (lit (of_int (obv_int series (bar_volume (series ! 0)) i)))) [0..<length series]"
proof -
  let ?v = "bar_volume (series ! 0)"
  obtain n where n: "length series = Suc n" using assms(1) by (cases series) auto
  have "for_push (obv_step series) (lit (of_int (obv_int series ?v 0))) [0..<0 + n] =
      map (\<lambda>i. some_at (bar_date (series ! Suc i)) (lit (of_int (obv_int series ?v (Suc i))))) [0..<0 + n]"
    using assms(2) n by (intro obv_step_exact) auto
  then show ?thesis using assms(1) n
    by (simp add: CalculateOBV_def volume_of_def Let_def upt_conv_Cons map_Suc_upt [symmetric] comp_def del: upt_Suc)
qed

section \<open>Properties\<close>

text \<open>C15: no indicator looks ahead. Whatever indicator is calculated, its result on the first
  \<open>n\<close> bars is the result on the whole series cut to its first \<open>n\<close> values, in every extra series too.\<close>

theorem indicators_no_lookahead:
  assumes "Calculate name series params = Inr r"
  shows "Calculate name (take n series) params = Inr (ir_take n r)"
  using assms by (rule causal_Calculate)

lemma sma_rising3: "\<exists>r. Calculate ''sma'' rising3 period2 = Inr r"
  by (simp add: Calculate_def SMA_result ParamAsSize_period2)

theorem indicators_no_lookahead_witness:
  "\<exists>r. Calculate ''sma'' rising3 period2 = Inr r \<and> Calculate ''sma'' (take 2 rising3) period2 = Inr (ir_take 2 r)"
  using sma_rising3 indicators_no_lookahead [of "''sma''" rising3 period2 _ 2] by blast

text \<open>Every series of an indicator result has one value per bar, with the date of its bar.\<close>

theorem indicators_aligned:
  assumes "Calculate name series params = Inr r"
  shows "map iv_date (ir_values r) = map bar_date series \<and>
    (\<forall>k vs. ir_extra_series r k = Some vs \<longrightarrow> map iv_date vs = map bar_date series)"
  using aligned_Calculate [OF assms] by (auto simp: ir_aligned_def aligned_def)

theorem indicators_aligned_witness:
  "\<exists>r. Calculate ''sma'' rising3 period2 = Inr r \<and> map iv_date (ir_values r) = map bar_date rising3"
  using sma_rising3 indicators_aligned [of "''sma''" rising3 period2] by blast

lemma stepped_value:
  assumes "0 < p" "i < length series" "\<And>s x. iv_value (snd (f s x)) \<noteq> None"
  shows "iv_value (stepped series p b f s ! i) = None \<longleftrightarrow> i < p \<or> length series < p + 1"
proof (cases "length series < p + 1")
  case False
  consider "i < p" | "i = p" | "p < i" by linarith
  then show ?thesis
  proof cases
    case 3
    then have "i - Suc p < length [p..<length series - 1]" using assms(2) by simp
    then have "iv_value (for_push f s [p..<length series - 1] ! (i - Suc p)) \<noteq> None"
      using assms(3) by (rule for_push_nthI [where Q = "\<lambda>v. iv_value v \<noteq> None"])
    then show ?thesis using 3 False assms(1) by (auto simp: stepped_def nth_append)
  qed (use False assms in \<open>auto simp: stepped_def nth_append\<close>)
qed (use assms in \<open>auto simp: stepped_def\<close>)

text \<open>The averages have a value exactly from the bar that completes their first window. SMA and
  EMA of period \<open>p\<close> start at bar \<open>p - 1\<close> (counted from 0), RSI and ATR, which need a previous bar, at bar \<open>p\<close>.\<close>

theorem indicators_warmup:
  assumes "ParamAsSize params ''period'' 20 = Inr p" "ParamAsSize params ''period'' 14 = Inr q" "i < length series"
    and "CalculateSMA series params = Inr sma" "CalculateEMA series params = Inr ema"
    and "CalculateRSI series params = Inr rsi" "CalculateATR series params = Inr atr"
  shows "(iv_value (ir_values sma ! i) = None \<longleftrightarrow> i + 1 < p \<or> length series < p) \<and>
    (iv_value (ir_values ema ! i) = None \<longleftrightarrow> i + 1 < p \<or> length series < p) \<and>
    (iv_value (ir_values rsi ! i) = None \<longleftrightarrow> i < q \<or> length series < q + 1) \<and>
    (iv_value (ir_values atr ! i) = None \<longleftrightarrow> i < q \<or> length series < q + 1)"
proof (intro conjI)
  have pos: "0 < p" "0 < q" using ParamAsSize_pos assms(1,2) by auto
  show "iv_value (ir_values sma ! i) = None \<longleftrightarrow> i + 1 < p \<or> length series < p"
    using assms pos
    by (cases "p \<le> length series") (auto simp: SMA_result ebind_Inr_iff windowed_nth windowed_def split: if_splits)
  have "ir_values ema = EmaValues (map bar_close series) (DatesFromSeries series) p"
    using assms by (auto simp: EMA_result ebind_Inr_iff)
  then show "iv_value (ir_values ema ! i) = None \<longleftrightarrow> i + 1 < p \<or> length series < p"
    using assms(3) pos EmaValues_none [of i "map bar_close series" p "DatesFromSeries series"]
      EmaValues_some [of i "map bar_close series" p "DatesFromSeries series"]
    by (cases "i + 1 < p") (auto simp: DatesFromSeries_def)
  show "iv_value (ir_values rsi ! i) = None \<longleftrightarrow> i < q \<or> length series < q + 1"
  proof -
    have "iv_value (snd (rsi_step series q st x)) \<noteq> None" for st x by (simp add: Let_def split: prod.split)
    note sv = stepped_value [OF pos(2) assms(3) this]
    have "ir_values rsi = stepped series q
        (RsiValue (ind_Mean (map (gain_at series) [0..<q])) (ind_Mean (map (loss_at series) [0..<q])))
        (rsi_step series q) (ind_Mean (map (gain_at series) [0..<q]), ind_Mean (map (loss_at series) [0..<q]))"
      using assms(2,6) by (auto simp: RSI_result)
    then show ?thesis by (simp only: sv)
  qed
  show "iv_value (ir_values atr ! i) = None \<longleftrightarrow> i < q \<or> length series < q + 1"
    using assms pos by (auto simp: ATR_result ebind_Inr_iff Let_def stepped_value)
qed

theorem indicators_warmup_witness:
  "\<exists>sma ema rsi atr. CalculateSMA rising3 period2 = Inr sma \<and> CalculateEMA rising3 period2 = Inr ema \<and>
     CalculateRSI rising3 period2 = Inr rsi \<and> CalculateATR rising3 period2 = Inr atr \<and>
     iv_value (ir_values sma ! 1) \<noteq> None \<and> iv_value (ir_values ema ! 1) \<noteq> None \<and>
     iv_value (ir_values rsi ! 1) = None \<and> iv_value (ir_values atr ! 1) = None"
proof -
  obtain s e r a where r: "CalculateSMA rising3 period2 = Inr s" "CalculateEMA rising3 period2 = Inr e"
    "CalculateRSI rising3 period2 = Inr r" "CalculateATR rising3 period2 = Inr a"
    by (simp add: SMA_result EMA_result RSI_result ATR_result ParamAsSize_period2)
  then show ?thesis
    using indicators_warmup [OF ParamAsSize_period2 ParamAsSize_period2 _ r, of 1] by auto
qed

text \<open>The EMA indicator is the smoothing \<^verbatim>\<open>EmaValues\<close> that MACD applies to the closes: the
  two hand-written loops of the source compute the same values.\<close>

theorem ema_equivalence:
  "CalculateEMA series params = ebind (ParamAsSize params ''period'' 20) (\<lambda>p.
     Inr \<lparr>ir_name = ''ema'', ir_params = [''period'' \<mapsto> of_size p],
       ir_values = EmaValues (map bar_close series) (DatesFromSeries series) p, ir_extra_series = Map.empty\<rparr>)"
  by (rule EMA_result)

text \<open>A value of the relative strength index is between 0 and 100 (or NaN, when prices overflow the
  range of doubles), whatever the prices.\<close>

theorem rsi_range:
  assumes "CalculateRSI series params = Inr r" "v \<in> set (ir_values r)" "iv_value v = Some x"
  shows "nan_or_between 0 (lit 100) x"
  using assms by (rule RSI_range)

lemma rsi_rising3: "\<exists>r v x. CalculateRSI rising3 period2 = Inr r \<and> v \<in> set (ir_values r) \<and> iv_value v = Some x"
  by (simp add: RSI_result ParamAsSize_period2 stepped_def) (metis IndicatorValue.select_convs(2))

theorem rsi_range_witness:
  "\<exists>r v x. CalculateRSI rising3 period2 = Inr r \<and> v \<in> set (ir_values r) \<and> iv_value v = Some x \<and>
     nan_or_between 0 (lit 100) x"
  using rsi_rising3 rsi_range [of rising3 period2] by blast

text \<open>Wherever the Bollinger bands have numbers, the lower band is at most the middle and the
  middle at most the upper band.\<close>

theorem bollinger_order:
  assumes "CalculateBollinger series params = Inr r"
    and "ir_extra_series r ''upper'' = Some up" "ir_extra_series r ''lower'' = Some lo"
    and "i < length series" "iv_value (ir_values r ! i) = Some m"
  shows "\<exists>u l. iv_value (up ! i) = Some u \<and> iv_value (lo ! i) = Some l \<and>
      (isnan l \<or> isnan u \<or> l \<le> m \<and> m \<le> u)"
  using assms by (rule Bollinger_bands)

lemma bollinger_rising3:
  "\<exists>r up lo m. CalculateBollinger rising3 period2 = Inr r \<and> ir_extra_series r ''upper'' = Some up \<and>
     ir_extra_series r ''lower'' = Some lo \<and> iv_value (ir_values r ! 1) = Some m"
  by (simp add: Bollinger_result ParamAsSize_period2 ParamAsSize_default period2_def windowed_nth)
    (simp add: ParamAsSize_period2 [unfolded period2_def, simplified] windowed_nth)

theorem bollinger_order_witness:
  "\<exists>r up lo m u l. CalculateBollinger rising3 period2 = Inr r \<and> ir_extra_series r ''upper'' = Some up \<and>
     ir_extra_series r ''lower'' = Some lo \<and> iv_value (ir_values r ! 1) = Some m \<and>
     iv_value (up ! 1) = Some u \<and> iv_value (lo ! 1) = Some l \<and> (isnan l \<or> isnan u \<or> l \<le> m \<and> m \<le> u)"
proof -
  obtain r up lo m where h: "CalculateBollinger rising3 period2 = Inr r" "ir_extra_series r ''upper'' = Some up"
    "ir_extra_series r ''lower'' = Some lo" "iv_value (ir_values r ! 1) = Some m" using bollinger_rising3 by blast
  show ?thesis using h bollinger_order [OF h(1-3) _ h(4)] by fastforce
qed

text \<open>Over bars with finite prices the average true range is not negative (or NaN on overflow).\<close>

theorem atr_nonneg:
  assumes "CalculateATR series params = Inr r" "\<forall>bar \<in> set series. finite_bar bar"
    and "v \<in> set (ir_values r)" "iv_value v = Some x"
  shows "isnan x \<or> 0 \<le> x"
  using ATR_nonneg [OF assms] by (simp add: nn_def)

lemma finite_sample: "\<bar>p\<bar> < 2 ^ 52 \<Longrightarrow> finite_bar (sample_bar d p)"
  by (auto simp: finite_bar_def sample_bar_def simp del: of_int_add of_int_diff intro!: isfinite_lit_repr repr_of_int)

lemma atr_rising3: "\<exists>r v x. CalculateATR rising3 period2 = Inr r \<and> v \<in> set (ir_values r) \<and> iv_value v = Some x"
  by (simp add: ATR_result ParamAsSize_period2 stepped_def) (metis IndicatorValue.select_convs(2))

theorem atr_nonneg_witness:
  "\<exists>r v x. CalculateATR rising3 period2 = Inr r \<and> v \<in> set (ir_values r) \<and> iv_value v = Some x \<and> (isnan x \<or> 0 \<le> x)"
proof -
  have "\<forall>bar \<in> set rising3. finite_bar bar" by (simp add: rising3_def finite_sample)
  then show ?thesis using atr_rising3 atr_nonneg [of rising3 period2] by blast
qed

text \<open>While the running sum and the volumes stay within \<open>2 ^ 53\<close>, on-balance volume is exact: it is
  the integer sum that adds the volume of a rising and subtracts that of a falling close.\<close>

theorem obv_exact:
  assumes "series \<noteq> []"
    and "\<forall>j < length series. \<bar>obv_int series (bar_volume (series ! 0)) j\<bar> \<le> 2 ^ 53 \<and>
        \<bar>bar_volume (series ! j)\<bar> \<le> 2 ^ 53"
  shows "\<exists>r. CalculateOBV series params = Inr r \<and>
      ir_values r = map (\<lambda>i. some_at (bar_date (series ! i))
        (lit (of_int (obv_int series (bar_volume (series ! 0)) i)))) [0..<length series]"
  using assms by (rule OBV_exact)

theorem obv_exact_witness:
  "\<exists>r. CalculateOBV rising3 period2 = Inr r \<and> iv_value (ir_values r ! 2) = Some (lit 3000)"
proof -
  have v: "obv_int rising3 (bar_volume (rising3 ! 0)) 0 = 1000"
    "obv_int rising3 (bar_volume (rising3 ! 0)) 1 = 2000" "obv_int rising3 (bar_volume (rising3 ! 0)) 2 = 3000"
    by (simp_all add: rising3_def sample_bar_def Let_def lit_less numeral_2_eq_2)
  have "\<bar>obv_int rising3 (bar_volume (rising3 ! 0)) j\<bar> \<le> 2 ^ 53 \<and> \<bar>bar_volume (rising3 ! j)\<bar> \<le> 2 ^ 53"
    if "j < length rising3" for j
  proof -
    have "j \<in> {0, 1, 2}" using that by auto
    moreover have "bar_volume (rising3 ! 0) = 1000" "bar_volume (rising3 ! 1) = 1000" "bar_volume (rising3 ! 2) = 1000"
      by (simp_all add: rising3_def sample_bar_def)
    ultimately show ?thesis using v by (auto simp del: obv_int.simps One_nat_def)
  qed
  then have "\<forall>j < length rising3. \<bar>obv_int rising3 (bar_volume (rising3 ! 0)) j\<bar> \<le> 2 ^ 53 \<and> \<bar>bar_volume (rising3 ! j)\<bar> \<le> 2 ^ 53"
    by blast
  from obv_exact [OF _ this, of period2] obtain r where "CalculateOBV rising3 period2 = Inr r"
    "ir_values r = map (\<lambda>i. some_at (bar_date (rising3 ! i)) (lit (of_int (obv_int rising3 (bar_volume (rising3 ! 0)) i)))) [0..<length rising3]"
    by auto
  then show ?thesis by (simp add: v(3) v(3) [unfolded numeral_2_eq_2] del: obv_int.simps)
qed

end
