(* ===== verification/Strategy.thy ===== *)
theory Strategy
  imports Indicator_Ranges
begin

text \<open>
  \<^verbatim>\<open>backtest/signal.hpp\<close> and \<^verbatim>\<open>backtest/strategy.cpp\<close>: the built-in strategies, each a function from a
  price series and parameters to one signal per bar. The locale \<open>bar_strategy\<close> is what the backtest
  engine needs of \<^verbatim>\<open>Strategy::Signals\<close>; every built-in strategy is an interpretation of it.
\<close>

datatype Signal = Hold | Buy | Sell

record SignalResult =
  sr_date :: Date
  sr_signal :: Signal

type_synonym signals_fun = "OHLCV list \<Rightarrow> params \<Rightarrow> SignalResult list result"

section \<open>The built-in strategies\<close>

text \<open>\<^verbatim>\<open>strategy.cpp\<close> has a \<^verbatim>\<open>ParamAsSize\<close> of its own, with the text of the indicators', which nothing calls.\<close>

abbreviation (input) Strategy_ParamAsSize :: "params \<Rightarrow> string \<Rightarrow> nat \<Rightarrow> nat result" where
  "Strategy_ParamAsSize \<equiv> ParamAsSize"

definition ParamOrDefault :: "params \<Rightarrow> string \<Rightarrow> double \<Rightarrow> double" where
  "ParamOrDefault params k default_value =
     (case params k of None \<Rightarrow> default_value | Some v \<Rightarrow> v)"

definition crossover_at :: "IndicatorValue list \<Rightarrow> IndicatorValue list \<Rightarrow> nat \<Rightarrow> Signal" where
  "crossover_at fast slow i =
     (if i < length fast \<and> i < length slow then
        (case (iv_value (fast ! i), iv_value (slow ! i)) of
           (Some f, Some sl) \<Rightarrow>
             if i = 0 then (if sl < f then Buy else if f < sl then Sell else Hold)
             else if i - 1 < length fast \<and> i - 1 < length slow then
               (case (iv_value (fast ! (i - 1)), iv_value (slow ! (i - 1))) of
                  (Some pf, Some ps) \<Rightarrow>
                    if sl < f \<and> \<not> ps < pf then Buy
                    else if f < sl \<and> \<not> pf < ps then Sell
                    else Hold
                | _ \<Rightarrow> Hold)
             else Hold
         | _ \<Rightarrow> Hold)
      else Hold)"

definition CrossoverSignals ::
    "OHLCV list \<Rightarrow> IndicatorValue list \<Rightarrow> IndicatorValue list \<Rightarrow> SignalResult list" where
  "CrossoverSignals series fast slow =
     map (\<lambda>i. \<lparr>sr_date = bar_date (series ! i), sr_signal = crossover_at fast slow i\<rparr>) [0..<length series]"

definition BuyAndHold :: signals_fun where
  "BuyAndHold series params =
     Inr (map (\<lambda>i. \<lparr>sr_date = bar_date (series ! i), sr_signal = (if i = 0 then Buy else Hold)\<rparr>)
       [0..<length series])"

definition SmaCrossover :: signals_fun where
  "SmaCrossover series params =
     (let fast_params = params(''period'' \<mapsto> ParamOrDefault params ''fast'' (lit 10));
          slow_params = params(''period'' \<mapsto> ParamOrDefault params ''slow'' (lit 30))
      in ebind (Calculate ''sma'' series fast_params) (\<lambda>fast_result.
         ebind (Calculate ''sma'' series slow_params) (\<lambda>slow_result.
           Inr (CrossoverSignals series (ir_values fast_result) (ir_values slow_result)))))"

definition RsiThreshold :: signals_fun where
  "RsiThreshold series params =
     ebind (Calculate ''rsi'' series params) (\<lambda>rsi_result.
       let oversold = ParamOrDefault params ''oversold'' (lit 30);
           overbought = ParamOrDefault params ''overbought'' (lit 70)
       in Inr (map (\<lambda>i. \<lparr>sr_date = bar_date (series ! i), sr_signal =
            (if 0 < i then
               (case iv_value (ir_values rsi_result ! i) of
                  Some v \<Rightarrow> if v < oversold then Buy else if overbought < v then Sell else Hold
                | None \<Rightarrow> Hold)
             else Hold)\<rparr>) [0..<length series]))"

definition reversion_at :: "double \<Rightarrow> IndicatorValue \<Rightarrow> IndicatorValue \<Rightarrow> Signal" where
  "reversion_at c upper_iv lower_iv =
     (if (case iv_value upper_iv of Some u \<Rightarrow> u < c | None \<Rightarrow> False) then Sell
      else if (case iv_value lower_iv of Some l \<Rightarrow> c < l | None \<Rightarrow> False) then Buy
      else Hold)"

definition BollingerReversion :: signals_fun where
  "BollingerReversion series params =
     ebind (Calculate ''bollinger_bands'' series params) (\<lambda>bb_result.
       let upper_it = ir_extra_series bb_result ''upper''; lower_it = ir_extra_series bb_result ''lower''
       in Inr (map (\<lambda>i. \<lparr>sr_date = bar_date (series ! i), sr_signal =
            (case (upper_it, lower_it) of
               (Some us, Some ls) \<Rightarrow>
                 if i < length us \<and> i < length ls then reversion_at (bar_close (series ! i)) (us ! i) (ls ! i)
                 else Hold
             | _ \<Rightarrow> Hold)\<rparr>) [0..<length series]))"

definition MacdCrossover :: signals_fun where
  "MacdCrossover series params =
     ebind (Calculate ''macd'' series params) (\<lambda>macd_result.
       (case ir_extra_series macd_result ''signal'' of
          None \<Rightarrow> Inr (replicate (length series) \<lparr>sr_date = 0, sr_signal = Hold\<rparr>)
        | Some signal_it \<Rightarrow> Inr (CrossoverSignals series (ir_values macd_result) signal_it)))"

definition BuiltinStrategy :: "string \<Rightarrow> signals_fun option" where
  "BuiltinStrategy name =
     (if name = ''buy_and_hold'' then Some BuyAndHold
      else if name = ''sma_crossover'' then Some SmaCrossover
      else if name = ''rsi_threshold'' then Some RsiThreshold
      else if name = ''bollinger_bands_reversion'' then Some BollingerReversion
      else if name = ''macd_crossover'' then Some MacdCrossover
      else None)"

section \<open>The contract of a strategy\<close>

text \<open>
  One signal per bar with the bar's date, and no look-ahead: the signals of a prefix of the series
  are a prefix of its signals.
\<close>

locale bar_strategy =
  fixes signals :: signals_fun
  assumes one_per_bar: "signals series params = Inr sg \<Longrightarrow> map sr_date sg = map bar_date series"
    and causal: "signals series params = Inr sg \<Longrightarrow> signals (take n series) params = Inr (take n sg)"
begin

lemma length_signals: "signals series params = Inr sg \<Longrightarrow> length sg = length series"
  using one_per_bar [of series params sg] by (metis length_map)

text \<open>Two series that agree on their first \<open>n\<close> bars get the same first \<open>n\<close> signals.\<close>

lemma same_prefix:
  assumes "signals s1 params = Inr g1" "signals s2 params = Inr g2" "take n s1 = take n s2"
  shows "take n g1 = take n g2"
  using causal [OF assms(1), of n] causal [OF assms(2), of n] assms(3) by simp

text \<open>A strategy that fails on a prefix fails on the series.\<close>

lemma error_of_prefix: "signals (take n series) params = Inl e \<Longrightarrow> \<exists>e'. signals series params = Inl e'"
  by (metis causal obj_sumE sum.distinct(1))

end

subsection \<open>Every built-in strategy keeps it\<close>

lemma dates_map_signals [simp]:
  "map sr_date (map (\<lambda>i. \<lparr>sr_date = bar_date (series ! i), sr_signal = g i\<rparr>) [0..<length series]) = map bar_date series"
  by (simp add: comp_def map_upt_nth)

lemma crossover_at_take: "i < n \<Longrightarrow> crossover_at (take n fast) (take n slow) i = crossover_at fast slow i"
  by (auto simp: crossover_at_def split: option.splits)

lemma Crossover_dates: "map sr_date (CrossoverSignals series fast slow) = map bar_date series"
  by (simp only: CrossoverSignals_def dates_map_signals)

lemma Crossover_take:
  "CrossoverSignals (take n series) (take n fast) (take n slow) = take n (CrossoverSignals series fast slow)"
  by (auto simp: CrossoverSignals_def take_map_upt crossover_at_take min_def)

lemma take_map_signals:
  assumes "\<And>i. i < n \<Longrightarrow> i < length series \<Longrightarrow> h i = g i"
  shows "map (\<lambda>i. \<lparr>sr_date = bar_date (take n series ! i), sr_signal = h i\<rparr>) [0..<min (length series) n] =
    take n (map (\<lambda>i. \<lparr>sr_date = bar_date (series ! i), sr_signal = g i\<rparr>) [0..<length series])"
  using assms by (simp add: take_map_upt min.commute)

interpretation buy_hold: bar_strategy BuyAndHold
  by unfold_locales (auto simp: BuyAndHold_def intro!: take_map_signals simp del: map_map)

interpretation sma_cross: bar_strategy SmaCrossover
proof (unfold_locales, goal_cases)
  case (1 series params sg)
  then show ?case by (auto simp: SmaCrossover_def Let_def ebind_Inr_iff Crossover_dates)
next
  case (2 series params sg n)
  let ?f = "params(''period'' \<mapsto> ParamOrDefault params ''fast'' (lit 10))"
  let ?s = "params(''period'' \<mapsto> ParamOrDefault params ''slow'' (lit 30))"
  from 2 obtain f s where r: "Calculate ''sma'' series ?f = Inr f" "Calculate ''sma'' series ?s = Inr s"
    and "sg = CrossoverSignals series (ir_values f) (ir_values s)"
    by (auto simp: SmaCrossover_def Let_def ebind_Inr_iff)
  then show ?case
    by (simp add: SmaCrossover_def Let_def causal_Calculate [OF r(1)] causal_Calculate [OF r(2)] ir_take_def Crossover_take)
qed

interpretation rsi_thr: bar_strategy RsiThreshold
proof (unfold_locales, goal_cases)
  case (1 series params sg)
  then show ?case by (auto simp: RsiThreshold_def Let_def ebind_Inr_iff simp del: map_map)
next
  case (2 series params sg n)
  then obtain r where "Calculate ''rsi'' series params = Inr r" by (auto simp: RsiThreshold_def ebind_Inr_iff)
  then show ?case using 2 causal_Calculate [of "''rsi''" series params r n]
    by (auto simp: RsiThreshold_def Let_def ir_take_def intro!: take_map_signals split: option.splits)
qed

interpretation bb_rev: bar_strategy BollingerReversion
proof (unfold_locales, goal_cases)
  case (1 series params sg)
  then show ?case by (auto simp: BollingerReversion_def Let_def ebind_Inr_iff simp del: map_map)
next
  case (2 series params sg n)
  then obtain r where "Calculate ''bollinger_bands'' series params = Inr r"
    by (auto simp: BollingerReversion_def ebind_Inr_iff)
  then show ?case using 2 causal_Calculate [of "''bollinger_bands''" series params r n]
    by (auto simp: BollingerReversion_def Let_def ir_take_def intro!: take_map_signals split: option.splits)
qed

lemma MACD_signal_series: "Calculate ''macd'' series params = Inr r \<Longrightarrow> ir_extra_series r ''signal'' \<noteq> None"
  by (auto simp: Calculate_def MACD_result ebind_Inr_iff split: if_splits)

interpretation macd_cross: bar_strategy MacdCrossover
proof (unfold_locales, goal_cases)
  case (1 series params sg)
  then obtain r where r: "Calculate ''macd'' series params = Inr r"
    by (auto simp: MacdCrossover_def ebind_Inr_iff)
  then obtain sig where "ir_extra_series r ''signal'' = Some sig" using MACD_signal_series by blast
  then show ?case using 1 r by (simp add: MacdCrossover_def) (metis Crossover_dates)
next
  case (2 series params sg n)
  then obtain r where "Calculate ''macd'' series params = Inr r" by (auto simp: MacdCrossover_def ebind_Inr_iff)
  then show ?case using 2 causal_Calculate [of "''macd''" series params r n]
    by (auto simp: MacdCrossover_def ir_take_def Crossover_take split: option.splits)
qed

lemma BuiltinStrategy_contract: "BuiltinStrategy name = Some st \<Longrightarrow> bar_strategy st"
  by (auto simp: BuiltinStrategy_def buy_hold.bar_strategy_axioms sma_cross.bar_strategy_axioms
      rsi_thr.bar_strategy_axioms bb_rev.bar_strategy_axioms macd_cross.bar_strategy_axioms split: if_splits)

section \<open>Behaviour of the signals\<close>

text \<open>A crossover is an event: a signal needs the line strictly above (below) now and not before.\<close>

abbreviation val_at :: "IndicatorValue list \<Rightarrow> nat \<Rightarrow> double option" where
  "val_at vs i \<equiv> iv_value (vs ! i)"

lemma crossover_values:
  assumes "crossover_at fast slow i \<noteq> Hold"
  obtains f sl where "i < length fast" "i < length slow" "val_at fast i = Some f" "val_at slow i = Some sl"
    "crossover_at fast slow i = Buy \<and> sl < f \<or> crossover_at fast slow i = Sell \<and> f < sl"
  using assms by (auto simp: crossover_at_def split: option.splits if_splits)

lemma crossover_Suc:
  assumes "crossover_at fast slow (Suc i) \<noteq> Hold" "val_at fast i = Some pf" "val_at slow i = Some ps"
  shows "crossover_at fast slow (Suc i) = Buy \<and> \<not> ps < pf \<or> crossover_at fast slow (Suc i) = Sell \<and> \<not> pf < ps"
  using assms by (auto simp: crossover_at_def split: option.splits if_splits)

lemma crossover_not_repeated:
  assumes "crossover_at fast slow i \<noteq> Hold"
  shows "crossover_at fast slow (Suc i) \<noteq> crossover_at fast slow i"
proof
  assume e: "crossover_at fast slow (Suc i) = crossover_at fast slow i"
  obtain f sl where v: "val_at fast i = Some f" "val_at slow i = Some sl"
    "crossover_at fast slow i = Buy \<and> sl < f \<or> crossover_at fast slow i = Sell \<and> f < sl"
    using assms by (rule crossover_values)
  have "crossover_at fast slow (Suc i) = Buy \<and> \<not> sl < f \<or> crossover_at fast slow (Suc i) = Sell \<and> \<not> f < sl"
    using crossover_Suc [OF _ v(1,2)] assms e by simp
  then show False using e v(3) by auto
qed

text \<open>The two crossover strategies are such events; before both averages exist they hold.\<close>

lemma nth_Crossover:
  "i < length series \<Longrightarrow> sr_signal (CrossoverSignals series fast slow ! i) = crossover_at fast slow i"
  by (simp add: CrossoverSignals_def)

lemma Crossover_strategy:
  assumes "st \<in> {SmaCrossover, MacdCrossover}" "st series params = Inr sg"
  obtains fast slow where "sg = CrossoverSignals series fast slow"
proof (cases "st = SmaCrossover")
  case True
  then show ?thesis using that assms(2) by (auto simp: SmaCrossover_def Let_def ebind_Inr_iff)
next
  case False
  with assms obtain r where r: "Calculate ''macd'' series params = Inr r"
    by (auto simp: MacdCrossover_def ebind_Inr_iff)
  then obtain sig where "ir_extra_series r ''signal'' = Some sig" using MACD_signal_series by blast
  then show ?thesis using that False assms r by (auto simp: MacdCrossover_def)
qed

lemma crossover_strategy_not_repeated:
  assumes "st \<in> {SmaCrossover, MacdCrossover}" "st series params = Inr sg"
    and "Suc i < length series" "sr_signal (sg ! i) \<noteq> Hold"
  shows "sr_signal (sg ! Suc i) \<noteq> sr_signal (sg ! i)"
proof -
  obtain fast slow where "sg = CrossoverSignals series fast slow" using assms(1,2) by (rule Crossover_strategy)
  then show ?thesis using assms(3,4) by (simp add: nth_Crossover crossover_not_repeated)
qed

lemma SmaCrossover_warmup:
  assumes "SmaCrossover series params = Inr sg" "i < length sg"
    and p: "ParamAsSize (params(''period'' \<mapsto> ParamOrDefault params ''slow'' (lit 30))) ''period'' 20 = Inr p"
    and "i + 1 < p"
  shows "sr_signal (sg ! i) = Hold"
proof -
  let ?s = "params(''period'' \<mapsto> ParamOrDefault params ''slow'' (lit 30))"
  from assms(1) obtain f :: IndicatorResult and s where r: "Calculate ''sma'' series ?s = Inr s"
    and sg: "sg = CrossoverSignals series (ir_values f) (ir_values s)"
    by (auto simp: SmaCrossover_def Let_def ebind_Inr_iff)
  have i: "i < length series" using assms(1,2) sma_cross.length_signals by metis
  have "ir_values s = windowed series p ind_Mean"
    using r p by (auto simp: Calculate_def SMA_result ebind_Inr_iff)
  then have "val_at (ir_values s) i = None"
    using i assms(4) by (cases "p \<le> length series") (auto simp: windowed_nth windowed_def)
  then have "crossover_at (ir_values f) (ir_values s) i = Hold"
    by (metis crossover_values option.distinct(1))
  then show ?thesis using i by (simp add: sg nth_Crossover)
qed

section \<open>Properties\<close>

text \<open>Every built-in strategy that succeeds gives one signal per bar, with the bar's date, and
  its signals never depend on later bars: on a prefix of the series it gives the prefix of its signals.\<close>

theorem strategies_contract:
  assumes "BuiltinStrategy name = Some st" "st series params = Inr sg"
  shows "map sr_date sg = map bar_date series \<and> (\<forall>n. st (take n series) params = Inr (take n sg))"
  using bar_strategy.one_per_bar [OF BuiltinStrategy_contract [OF assms(1)] assms(2)]
    bar_strategy.causal [OF BuiltinStrategy_contract [OF assms(1)] assms(2)] by blast

theorem strategies_contract_witness:
  "\<exists>sg. SmaCrossover zigzag4 Map.empty = Inr sg \<and> map sr_date sg = map bar_date zigzag4 \<and>
     SmaCrossover (take 3 zigzag4) Map.empty = Inr (take 3 sg)"
proof -
  have "\<exists>sg. SmaCrossover zigzag4 Map.empty = Inr sg"
    using ParamAsSize_lit [of "[''period'' \<mapsto> lit 10]" "''period''" 10 20]
      ParamAsSize_lit [of "[''period'' \<mapsto> lit 30]" "''period''" 30 20]
    by (simp add: SmaCrossover_def ParamOrDefault_def Calculate_def SMA_result)
  then show ?thesis using strategies_contract [of "''sma_crossover''" SmaCrossover zigzag4 Map.empty]
    by (auto simp: BuiltinStrategy_def)
qed

text \<open>A crossover strategy (of moving averages, or of MACD) signals the event, not the
  state: after a Buy or a Sell the next bar never repeats it.\<close>

theorem crossover_alternates:
  assumes "st = SmaCrossover \<or> st = MacdCrossover" "st series params = Inr sg"
    and "Suc i < length series" "sr_signal (sg ! i) \<noteq> Hold"
  shows "sr_signal (sg ! Suc i) \<noteq> sr_signal (sg ! i)"
  using assms crossover_strategy_not_repeated by blast

definition fast1_slow2 :: params where
  "fast1_slow2 = [''fast'' \<mapsto> lit (of_nat 1), ''slow'' \<mapsto> lit (of_nat 2)]"

lemma zigzag4_crossover:
  "\<exists>sg. SmaCrossover zigzag4 fast1_slow2 = Inr sg \<and> sr_signal (sg ! 2) = Sell"
proof -
  have p: "ParamAsSize (fast1_slow2(''period'' \<mapsto> ParamOrDefault fast1_slow2 ''fast'' d)) ''period'' 20 = Inr 1"
    "ParamAsSize (fast1_slow2(''period'' \<mapsto> ParamOrDefault fast1_slow2 ''slow'' d)) ''period'' 20 = Inr 2" for d
    by (rule ParamAsSize_lit; simp add: ParamOrDefault_def fast1_slow2_def)+
  have r: "repr (203/2)" using repr_half [of 203 1] by simp
  have v: "val_at (windowed zigzag4 1 ind_Mean) 1 = Some (lit 102)" "val_at (windowed zigzag4 1 ind_Mean) 2 = Some (lit 101)"
    "val_at (windowed zigzag4 2 ind_Mean) 1 = Some (lit 101)" "val_at (windowed zigzag4 2 ind_Mean) 2 = Some (lit (203/2))"
    by (simp_all add: windowed_nth close_window_def ind_Mean_def of_size_def zigzag4_def sample_bar_def upt_rec
        numeral_2_eq_2 [symmetric] deval flip: lit_0)
  have "crossover_at (windowed zigzag4 1 ind_Mean) (windowed zigzag4 2 ind_Mean) 2 = Sell"
    using v by (simp add: crossover_at_def windowed_def lit_less r)
  then show ?thesis
    by (simp add: SmaCrossover_def p Calculate_def SMA_result nth_Crossover)
qed

theorem crossover_alternates_witness:
  "\<exists>sg. SmaCrossover zigzag4 fast1_slow2 = Inr sg \<and> sr_signal (sg ! 2) = Sell \<and> sr_signal (sg ! 3) \<noteq> Sell"
proof -
  obtain sg where "SmaCrossover zigzag4 fast1_slow2 = Inr sg" "sr_signal (sg ! 2) = Sell"
    using zigzag4_crossover by blast
  then show ?thesis using crossover_alternates [of SmaCrossover zigzag4 fast1_slow2 sg 2] by simp
qed

end
