(* ===== verification/Engine.thy ===== *)
theory Engine
  imports Strategy
begin

text \<open>
  \<^verbatim>\<open>backtest/result.hpp\<close> and \<^verbatim>\<open>backtest/engine.cpp\<close>: positions, trades, the event loop of
  \<^verbatim>\<open>BacktestEngine::Run\<close> as a fold of one step per bar over an account state, and the metrics.
\<close>

datatype TradeSide = Long | Short

record EquityPoint =
  ep_date :: Date
  ep_equity :: double

record Trade =
  tr_entry_date :: Date
  tr_exit_date :: Date
  tr_entry_price :: double
  tr_exit_price :: double
  tr_quantity :: double
  tr_side :: TradeSide
  tr_pnl :: double

record Metrics =
  m_max_drawdown :: double
  m_sharpe :: "double option"
  m_win_rate :: double
  m_trade_count :: nat

record BacktestResult =
  br_final_equity :: double
  br_total_return :: double
  br_equity_curve :: "EquityPoint list"
  br_trades :: "Trade list"
  br_metrics :: Metrics

record BacktestConfig =
  bc_initial_capital :: double
  bc_commission_rate :: double
  bc_periods_per_year :: nat
  bc_risk_free_rate :: double

definition default_BacktestConfig :: BacktestConfig where
  "default_BacktestConfig = \<lparr>bc_initial_capital = lit 100000, bc_commission_rate = 0,
     bc_periods_per_year = 252, bc_risk_free_rate = 0\<rparr>"

definition TradeSide_ToString :: "TradeSide \<Rightarrow> string" where
  "TradeSide_ToString side = (case side of Long \<Rightarrow> ''long'' | Short \<Rightarrow> ''short'')"

section \<open>Positions\<close>

record Position =
  pos_side :: TradeSide
  pos_entry_price :: double
  pos_quantity :: double
  pos_entry_date :: Date

definition OpenLong :: "double \<Rightarrow> double \<Rightarrow> double \<Rightarrow> Date \<Rightarrow> Position \<times> double" where
  "OpenLong price cash commission date =
     (let quantity = (if \<not> deq price 0 then cash / (price * (1 + commission)) else 0);
          comm = quantity * price * commission
      in (\<lparr>pos_side = Long, pos_entry_price = price, pos_quantity = quantity, pos_entry_date = date\<rparr>,
          cash - quantity * price - comm))"

definition OpenShort :: "double \<Rightarrow> double \<Rightarrow> double \<Rightarrow> Date \<Rightarrow> Position \<times> double" where
  "OpenShort price cash commission date =
     (let quantity = (if \<not> deq price 0 then cash / (price * (1 + commission)) else 0);
          comm = quantity * price * commission
      in (\<lparr>pos_side = Short, pos_entry_price = price, pos_quantity = quantity, pos_entry_date = date\<rparr>,
          cash + quantity * price - comm))"

definition ClosePosition :: "Position \<Rightarrow> double \<Rightarrow> double \<Rightarrow> Date \<Rightarrow> double \<Rightarrow> Trade \<times> double" where
  "ClosePosition pos price commission date cash =
     (let entry_comm = pos_quantity pos * pos_entry_price pos * commission;
          exit_comm = pos_quantity pos * price * commission;
          (pnl, new_cash) =
            (case pos_side pos of
               Long \<Rightarrow> (pos_quantity pos * (price - pos_entry_price pos) - entry_comm - exit_comm,
                        cash + pos_quantity pos * price - exit_comm)
             | Short \<Rightarrow> (pos_quantity pos * (pos_entry_price pos - price) - entry_comm - exit_comm,
                        cash - pos_quantity pos * price - exit_comm))
      in (\<lparr>tr_entry_date = pos_entry_date pos, tr_exit_date = date,
           tr_entry_price = pos_entry_price pos, tr_exit_price = price,
           tr_quantity = pos_quantity pos, tr_side = pos_side pos, tr_pnl = pnl\<rparr>, new_cash))"

definition PositionMarketValue :: "Position \<Rightarrow> double \<Rightarrow> double" where
  "PositionMarketValue pos price =
     (case pos_side pos of Long \<Rightarrow> pos_quantity pos * price | Short \<Rightarrow> (- pos_quantity pos) * price)"

section \<open>Metrics\<close>

definition drawdown_step :: "double \<times> double \<Rightarrow> EquityPoint \<Rightarrow> double \<times> double" where
  "drawdown_step st p =
     (case st of (peak, max_dd) \<Rightarrow>
       let peak' = (if peak < ep_equity p then ep_equity p else peak);
           max_dd' = (if 0 < peak' then
               let dd = (peak' - ep_equity p) / peak' in if max_dd < dd then dd else max_dd
             else max_dd)
       in (peak', max_dd'))"

definition ComputeMaxDrawdown :: "EquityPoint list \<Rightarrow> double" where
  "ComputeMaxDrawdown curve = - snd (foldl drawdown_step (0, 0) curve)"

definition ComputeSharpe :: "double list \<Rightarrow> double \<Rightarrow> nat \<Rightarrow> double option" where
  "ComputeSharpe returns risk_free_rate periods_per_year =
     (if returns = [] \<or> periods_per_year = 0 then None
      else
        let mean = foldl (+) 0 returns / of_size (length returns);
            variance = foldl (\<lambda>v r. let d = r - mean in v + d * d) 0 returns / of_size (length returns);
            std = dsqrt variance
        in if deq std 0 \<or> isnan std then None
           else
             let periodic_rf = risk_free_rate / of_size periods_per_year;
                 sharpe = (mean - periodic_rf) / std * dsqrt (of_size periods_per_year)
             in if isnan sharpe then None else Some sharpe)"

definition bar_returns :: "EquityPoint list \<Rightarrow> double list" where
  "bar_returns curve =
     map (\<lambda>i. let prev = ep_equity (curve ! (i - 1)); curr = ep_equity (curve ! i)
              in if deq prev 0 then 0 else curr / prev - 1) [1..<length curve]"

record ComputedMetrics =
  cm_total_return :: double
  cm_max_drawdown :: double
  cm_sharpe :: "double option"

definition ComputeMetrics :: "EquityPoint list \<Rightarrow> BacktestConfig \<Rightarrow> ComputedMetrics" where
  "ComputeMetrics curve config =
     (if curve = [] then \<lparr>cm_total_return = 0, cm_max_drawdown = 0, cm_sharpe = None\<rparr>
      else
        let initial = ep_equity (hd curve);
            final = ep_equity (last curve);
            total_return = (if \<not> deq initial 0 then final / initial - 1 else 0);
            returns = bar_returns curve
        in \<lparr>cm_total_return = total_return, cm_max_drawdown = ComputeMaxDrawdown curve,
            cm_sharpe = ComputeSharpe returns (bc_risk_free_rate config) (bc_periods_per_year config)\<rparr>)"

section \<open>The loop\<close>

record Account =
  ac_cash :: double
  ac_position :: "Position option"
  ac_trades :: "Trade list"
  ac_curve :: "EquityPoint list"

text \<open>Closing the open position, if there is one, at a price.\<close>

definition close_open :: "double \<Rightarrow> Date \<Rightarrow> double \<Rightarrow> Account \<Rightarrow> Account" where
  "close_open price date commission ac =
     (case ac_position ac of
        None \<Rightarrow> ac
      | Some pos \<Rightarrow>
          let (t, new_cash) = ClosePosition pos price commission date (ac_cash ac)
          in ac\<lparr>ac_cash := new_cash, ac_trades := ac_trades ac @ [t], ac_position := None\<rparr>)"

definition execute_signal :: "double \<Rightarrow> Signal \<Rightarrow> OHLCV \<Rightarrow> Account \<Rightarrow> Account" where
  "execute_signal commission signal bar ac =
     (case signal of
        Buy \<Rightarrow>
          if (case ac_position ac of None \<Rightarrow> True | Some pos \<Rightarrow> pos_side pos \<noteq> Long) then
            let ac' = close_open (bar_open bar) (bar_date bar) commission ac;
                (p, new_cash) = OpenLong (bar_open bar) (ac_cash ac') commission (bar_date bar)
            in ac'\<lparr>ac_cash := new_cash, ac_position := Some p\<rparr>
          else ac
      | Sell \<Rightarrow>
          if (case ac_position ac of None \<Rightarrow> True | Some pos \<Rightarrow> pos_side pos \<noteq> Short) then
            let ac' = close_open (bar_open bar) (bar_date bar) commission ac;
                (p, new_cash) = OpenShort (bar_open bar) (ac_cash ac') commission (bar_date bar)
            in ac'\<lparr>ac_cash := new_cash, ac_position := Some p\<rparr>
          else ac
      | Hold \<Rightarrow> ac)"

definition mark_to_market :: "OHLCV \<Rightarrow> Account \<Rightarrow> Account" where
  "mark_to_market bar ac =
     (let equity = (case ac_position ac of
            None \<Rightarrow> ac_cash ac
          | Some pos \<Rightarrow> ac_cash ac + PositionMarketValue pos (bar_close bar))
      in ac\<lparr>ac_curve := ac_curve ac @ [\<lparr>ep_date = bar_date bar, ep_equity = equity\<rparr>]\<rparr>)"

definition bar_step :: "double \<Rightarrow> SignalResult list \<Rightarrow> OHLCV list \<Rightarrow> Account \<Rightarrow> nat \<Rightarrow> Account" where
  "bar_step commission signals series ac i =
     mark_to_market (series ! i)
       (if 0 < i then execute_signal commission (sr_signal (signals ! (i - 1))) (series ! i) ac else ac)"

definition open_account :: "BacktestConfig \<Rightarrow> Account" where
  "open_account config = \<lparr>ac_cash = bc_initial_capital config, ac_position = None, ac_trades = [], ac_curve = []\<rparr>"

definition run_bars :: "BacktestConfig \<Rightarrow> SignalResult list \<Rightarrow> OHLCV list \<Rightarrow> nat \<Rightarrow> Account" where
  "run_bars config signals series n =
     foldl (bar_step (bc_commission_rate config) signals series) (open_account config) [0..<n]"

text \<open>After the last bar: the open position is closed at its close and the last equity is the cash.\<close>

definition liquidate :: "double \<Rightarrow> OHLCV \<Rightarrow> Account \<Rightarrow> Account" where
  "liquidate commission final_bar ac =
     (case ac_position ac of
        None \<Rightarrow> ac
      | Some _ \<Rightarrow>
          let ac' = close_open (bar_close final_bar) (bar_date final_bar) commission ac
          in ac'\<lparr>ac_curve := (if ac_curve ac' = [] then []
               else butlast (ac_curve ac') @ [(last (ac_curve ac'))\<lparr>ep_equity := ac_cash ac'\<rparr>])\<rparr>)"

definition win_rate_of :: "Trade list \<Rightarrow> double" where
  "win_rate_of trades =
     (if trades = [] then 0
      else let wins = length (filter (\<lambda>t. 0 < tr_pnl t) trades) in of_size wins / of_size (length trades))"

definition finish_run :: "BacktestConfig \<Rightarrow> Account \<Rightarrow> BacktestResult" where
  "finish_run config ac =
     (let equity_curve = ac_curve ac;
          trades = ac_trades ac;
          metrics = ComputeMetrics equity_curve config;
          final_equity = (if equity_curve = [] then bc_initial_capital config else ep_equity (last equity_curve))
      in \<lparr>br_final_equity = final_equity, br_total_return = cm_total_return metrics,
           br_equity_curve = equity_curve, br_trades = trades,
           br_metrics = \<lparr>m_max_drawdown = cm_max_drawdown metrics, m_sharpe = cm_sharpe metrics,
             m_win_rate = win_rate_of trades, m_trade_count = length trades\<rparr>\<rparr>)"

definition kMaxBacktestBars :: nat where
  "kMaxBacktestBars = 50000"

definition Run :: "signals_fun \<Rightarrow> BacktestConfig \<Rightarrow> OHLCV list \<Rightarrow> params \<Rightarrow> BacktestResult result" where
  "Run strategy config series params =
     ebind (throw_if (series = []) (InvalidCommandError [T ''backtest requires a non-empty price series'']))
       (\<lambda>_.
     ebind (throw_if (kMaxBacktestBars < length series)
         (InvalidCommandError [T ''backtest series exceeds maximum of '', N kMaxBacktestBars, T '' bars'']))
       (\<lambda>_.
     ebind (strategy series params) (\<lambda>signals.
     ebind (throw_if (length signals \<noteq> length series)
         (DataQualityError [T ''strategy signal count does not match series length'']))
       (\<lambda>_.
       let commission = bc_commission_rate config
       in Inr (finish_run config
            (liquidate commission (last series) (run_bars config signals series (length series))))))))"

text \<open>The engine of a built-in strategy: the constructor, then \<^verbatim>\<open>Run\<close>.\<close>

definition BacktestEngine :: "string \<Rightarrow> signals_fun result" where
  "BacktestEngine strategy_name =
     of_option (InvalidCommandError [T ''unknown strategy: '', T strategy_name]) (BuiltinStrategy strategy_name)"

definition backtest :: "string \<Rightarrow> BacktestConfig \<Rightarrow> OHLCV list \<Rightarrow> params \<Rightarrow> BacktestResult result" where
  "backtest strategy_name config series params =
     ebind (BacktestEngine strategy_name) (\<lambda>strategy. Run strategy config series params)"

end
