(* ===== verification/Engine_Facts.thy ===== *)
theory Engine_Facts
  imports Engine
begin

text \<open>
  Facts of the backtest engine: the invariant of the account over the loop, what the loop may depend
  on, ranges of the metrics.
\<close>

section \<open>Division of doubles\<close>

lemma fp_div_le_1:
  assumes "valid_fp x" "valid_fp y" "x \<noteq> NaN" "y \<noteq> NaN" "fp_key x \<le> fp_key y" "0 < fp_key y"
  shows "fp_div x y = NaN \<or> fp_key (fp_div x y) \<le> 1"
proof (cases "\<exists>q r. x = Fin q \<and> y = Fin r")
  case True
  then obtain q r where e: "x = Fin q" "y = Fin r" by blast
  with assms have "q / r \<le> 1" by (simp add: divide_le_eq_1)
  then have "crnd (q / r) \<le> 1" using crnd_mono [of "q / r" 1] by (simp add: crnd_repr)
  then show ?thesis using assms e by (simp add: fp_div_def fp_key_pack)
next
  case False
  then show ?thesis using assms big_pos(1) by (cases x; cases y) (auto simp: fp_div_def fp_key_pack)
qed

lemma div_le_1:
  assumes "x \<le> y" "0 < y"
  shows "isnan (x / y) \<or> x / y \<le> 1"
proof -
  have "valid_fp (Rep_double x)" "valid_fp (Rep_double y)" using Rep_double [of x] Rep_double [of y] by auto
  note h = fp_div_le_1 [OF this]
  show ?thesis using assms h
    by (auto simp: le_key less_key isnan.rep_eq key.rep_eq divide_double.rep_eq zero_double.rep_eq
        one_double.rep_eq fp_key_pack crnd_repr)
qed

lemma isfinite_of_size: "n \<le> 2 ^ 53 \<Longrightarrow> isfinite (of_size n)"
  using repr_of_int [of "int n"] by (simp add: of_size_def isfinite_lit_repr)

lemma ratio_of_sizes:
  assumes "k \<le> n" "0 < n" "n \<le> 2 ^ 53"
  shows "0 \<le> of_size k / of_size n \<and> of_size k / of_size n \<le> 1"
proof -
  have "isfinite (of_size k)" "isfinite (of_size n)" "key (of_size n) \<noteq> 0"
    using assms of_size_ge_1 [of n] by (auto intro!: isfinite_of_size)
  then have "\<not> isnan (of_size k / of_size n)" using div_finite by blast
  moreover have "nn (of_size k / of_size n)" using assms(2) by (intro nn_div_size nn_of_size)
  ultimately show ?thesis using div_le_1 [OF of_size_mono [OF assms(1)] of_size_pos [OF assms(2)]] by (simp add: nn_def)
qed

section \<open>The account\<close>

text \<open>A trade that reverses the one before it: at the same instant and price, on the other side.\<close>

definition reverses :: "Trade \<Rightarrow> Trade \<Rightarrow> bool" where
  "reverses t u \<longleftrightarrow> tr_entry_date u = tr_exit_date t \<and> tr_entry_price u = tr_exit_price t \<and> tr_side u \<noteq> tr_side t"

definition account_inv :: "Account \<Rightarrow> bool" where
  "account_inv ac \<longleftrightarrow> successively reverses (ac_trades ac) \<and>
     (case ac_position ac of
        None \<Rightarrow> ac_trades ac = []
      | Some p \<Rightarrow> ac_trades ac \<noteq> [] \<longrightarrow> pos_entry_date p = tr_exit_date (last (ac_trades ac)) \<and>
          pos_entry_price p = tr_exit_price (last (ac_trades ac)) \<and> pos_side p \<noteq> tr_side (last (ac_trades ac)))"

definition open_trades :: "Account \<Rightarrow> nat" where
  "open_trades ac = length (ac_trades ac) + (case ac_position ac of None \<Rightarrow> 0 | Some _ \<Rightarrow> 1)"

lemma close_trade:
  "tr_entry_date (fst (ClosePosition p x c d cash)) = pos_entry_date p"
  "tr_entry_price (fst (ClosePosition p x c d cash)) = pos_entry_price p"
  "tr_exit_date (fst (ClosePosition p x c d cash)) = d"
  "tr_exit_price (fst (ClosePosition p x c d cash)) = x"
  "tr_side (fst (ClosePosition p x c d cash)) = pos_side p"
  "tr_quantity (fst (ClosePosition p x c d cash)) = pos_quantity p"
  by (simp_all add: ClosePosition_def Let_def split: TradeSide.split)

lemma open_position:
  "pos_side (fst (OpenLong x cash c d)) = Long" "pos_side (fst (OpenShort x cash c d)) = Short"
  "pos_entry_price (fst (OpenLong x cash c d)) = x" "pos_entry_price (fst (OpenShort x cash c d)) = x"
  "pos_entry_date (fst (OpenLong x cash c d)) = d" "pos_entry_date (fst (OpenShort x cash c d)) = d"
  by (simp_all add: OpenLong_def OpenShort_def Let_def)

lemmas account_simps = close_trade open_position

lemma close_open_fields:
  "ac_position (close_open x d c ac) = None"
  "ac_curve (close_open x d c ac) = ac_curve ac"
  "ac_trades (close_open x d c ac) = ac_trades ac @
     (case ac_position ac of None \<Rightarrow> [] | Some p \<Rightarrow> [fst (ClosePosition p x c d (ac_cash ac))])"
  by (auto simp: close_open_def split: option.splits prod.splits)

lemma close_open_trades: "account_inv ac \<Longrightarrow> successively reverses (ac_trades (close_open x d c ac))"
  by (auto simp: account_inv_def close_open_fields successively_append_iff reverses_def account_simps
      split: option.splits)

lemma mark_fields [simp]:
  "ac_position (mark_to_market bar ac) = ac_position ac" "ac_trades (mark_to_market bar ac) = ac_trades ac"
  "ac_cash (mark_to_market bar ac) = ac_cash ac"
  "map ep_date (ac_curve (mark_to_market bar ac)) = map ep_date (ac_curve ac) @ [bar_date bar]"
  by (simp_all add: mark_to_market_def Let_def)

lemma execute_curve [simp]: "ac_curve (execute_signal c s bar ac) = ac_curve ac"
  by (auto simp: execute_signal_def Let_def close_open_fields split: Signal.splits option.splits prod.splits)

text \<open>An executed signal opens, reverses, or leaves the account alone.\<close>

lemma execute_cases:
  obtains (same) "execute_signal c s bar ac = ac"
  | (new) p cash where "execute_signal c s bar ac =
        (close_open (bar_open bar) (bar_date bar) c ac)\<lparr>ac_cash := cash, ac_position := Some p\<rparr>"
      "pos_entry_date p = bar_date bar" "pos_entry_price p = bar_open bar"
      "\<And>q. ac_position ac = Some q \<Longrightarrow> pos_side q \<noteq> pos_side p"
proof (cases s)
  case Hold
  then show ?thesis using same by (simp add: execute_signal_def)
next
  case Buy
  let ?ac = "close_open (bar_open bar) (bar_date bar) c ac"
  let ?o = "OpenLong (bar_open bar) (ac_cash ?ac) c (bar_date bar)"
  show ?thesis
  proof (cases "\<exists>q. ac_position ac = Some q \<and> pos_side q = Long")
    case True
    then show ?thesis using Buy same by (auto simp: execute_signal_def)
  next
    case False
    then have "execute_signal c s bar ac = ?ac\<lparr>ac_cash := snd ?o, ac_position := Some (fst ?o)\<rparr>"
      using Buy by (auto simp: execute_signal_def Let_def case_prod_beta split: option.split)
    then show ?thesis using False by (intro new [of "fst ?o" "snd ?o"]) (auto simp: account_simps)
  qed
next
  case Sell
  let ?ac = "close_open (bar_open bar) (bar_date bar) c ac"
  let ?o = "OpenShort (bar_open bar) (ac_cash ?ac) c (bar_date bar)"
  show ?thesis
  proof (cases "\<exists>q. ac_position ac = Some q \<and> pos_side q = Short")
    case True
    then show ?thesis using Sell same by (auto simp: execute_signal_def)
  next
    case False
    then have "execute_signal c s bar ac = ?ac\<lparr>ac_cash := snd ?o, ac_position := Some (fst ?o)\<rparr>"
      using Sell by (auto simp: execute_signal_def Let_def case_prod_beta split: option.split)
    then show ?thesis using False by (intro new [of "fst ?o" "snd ?o"]) (auto simp: account_simps)
  qed
qed

lemma execute_inv:
  assumes "account_inv ac"
  shows "account_inv (execute_signal c s bar ac)"
proof (cases rule: execute_cases [of c s bar ac])
  case (new p cash)
  then show ?thesis using close_open_trades [OF assms] 
    by (auto simp: account_inv_def close_open_fields account_simps split: option.splits)
       (use assms in \<open>auto simp: account_inv_def\<close>)
qed (simp add: assms)

lemma execute_open_trades: "open_trades (execute_signal c s bar ac) \<le> Suc (open_trades ac)"
proof (cases rule: execute_cases [of c s bar ac])
  case (new p cash)
  then show ?thesis by (auto simp: open_trades_def close_open_fields split: option.splits)
qed simp

lemma mark_inv [simp]: "account_inv (mark_to_market bar ac) = account_inv ac"
  "open_trades (mark_to_market bar ac) = open_trades ac"
  by (simp_all add: account_inv_def open_trades_def split: option.split)

section \<open>The loop\<close>

lemma run_bars_0 [simp]: "run_bars config signals series 0 = open_account config"
  by (simp add: run_bars_def)

lemma run_bars_Suc [simp]:
  "run_bars config signals series (Suc n) =
     bar_step (bc_commission_rate config) signals series (run_bars config signals series n) n"
  by (simp add: run_bars_def)

lemma run_bars_inv: "account_inv (run_bars config signals series n)"
proof -
  have "account_inv (open_account config)" by (simp add: account_inv_def open_account_def)
  then show ?thesis by (induction n) (simp_all add: bar_step_def execute_inv)
qed

lemma run_bars_open_trades: "open_trades (run_bars config signals series n) \<le> n - 1"
proof (induction n)
  case (Suc n)
  let ?ac = "run_bars config signals series n"
  show ?case using Suc execute_open_trades [of "bc_commission_rate config" "sr_signal (signals ! (n - 1))" "series ! n" ?ac]
    by (cases n) (auto simp: bar_step_def open_trades_def open_account_def)
qed (simp add: open_trades_def open_account_def)

lemma run_bars_dates:
  "n \<le> length series \<Longrightarrow> map ep_date (ac_curve (run_bars config signals series n)) = map bar_date (take n series)"
  by (induction n) (simp_all add: bar_step_def open_account_def take_Suc_conv_app_nth)

text \<open>The account after \<open>n\<close> bars depends on these bars and on the signals of the bars before the last.\<close>

lemma run_bars_cong:
  assumes "take n s1 = take n s2" "n \<le> length s1" "n \<le> length s2"
    and "\<And>i. i + 1 < n \<Longrightarrow> sr_signal (g1 ! i) = sr_signal (g2 ! i)"
  shows "run_bars config g1 s1 n = run_bars config g2 s2 n"
  using assms
proof (induction n)
  case (Suc n)
  have e: "s1 ! n = s2 ! n" using Suc.prems by (metis Suc_le_eq lessI nth_take)
  have t: "take n s1 = take n s2" using Suc.prems(1) by (metis Suc_n_not_le_n nat_le_linear take_take min.absorb1)
  have "run_bars config g1 s1 n = run_bars config g2 s2 n" using Suc t by (intro Suc.IH) auto
  moreover have "0 < n \<Longrightarrow> sr_signal (g1 ! (n - 1)) = sr_signal (g2 ! (n - 1))" using Suc.prems(4) by auto
  ultimately show ?case using e by (auto simp: bar_step_def)
qed simp

lemma run_bars_curve_length: "length (ac_curve (run_bars config g s n)) = n"
  by (induction n) (auto simp: bar_step_def mark_to_market_def Let_def open_account_def)

lemma run_bars_curve_prefix:
  "m \<le> n \<Longrightarrow> take m (ac_curve (run_bars config g s n)) = ac_curve (run_bars config g s m)"
proof (induction n)
  case (Suc n)
  show ?case
  proof (cases "m = Suc n")
    case True
    then show ?thesis using run_bars_curve_length [of config g s "Suc n"] by simp
  next
    case False
    then have "take m (ac_curve (run_bars config g s (Suc n))) = take m (ac_curve (run_bars config g s n))"
      using Suc.prems run_bars_curve_length [of config g s n]
      by (auto simp: bar_step_def mark_to_market_def Let_def)
    then show ?thesis using Suc False by simp
  qed
qed (simp add: open_account_def)

section \<open>The result of a run\<close>

text \<open>The account of a run when it ends, given the signals.\<close>

definition final_account :: "BacktestConfig \<Rightarrow> SignalResult list \<Rightarrow> OHLCV list \<Rightarrow> Account" where
  "final_account config signals series =
     liquidate (bc_commission_rate config) (last series) (run_bars config signals series (length series))"

lemma Run_cases:
  assumes "Run strategy config series params = Inr r"
  obtains signals where "series \<noteq> []" "length series \<le> kMaxBacktestBars" "strategy series params = Inr signals"
    "length signals = length series" "r = finish_run config (final_account config signals series)"
  using assms unfolding Run_def Let_def final_account_def
  by (auto simp: ebind_Inr_iff)

lemma Run_InrI:
  assumes "series \<noteq> []" "length series \<le> kMaxBacktestBars" "strategy series params = Inr signals"
    "length signals = length series"
  shows "Run strategy config series params = Inr (finish_run config (final_account config signals series))"
  using assms by (simp add: Run_def Let_def final_account_def)

lemma finish_run_simps [simp]:
  "br_equity_curve (finish_run config ac) = ac_curve ac" "br_trades (finish_run config ac) = ac_trades ac"
  "m_trade_count (br_metrics (finish_run config ac)) = length (ac_trades ac)"
  "m_win_rate (br_metrics (finish_run config ac)) = win_rate_of (ac_trades ac)"
  "m_max_drawdown (br_metrics (finish_run config ac)) = cm_max_drawdown (ComputeMetrics (ac_curve ac) config)"
  "m_sharpe (br_metrics (finish_run config ac)) = cm_sharpe (ComputeMetrics (ac_curve ac) config)"
  "br_total_return (finish_run config ac) = cm_total_return (ComputeMetrics (ac_curve ac) config)"
  by (simp_all add: finish_run_def Let_def)

lemma liquidate_fields:
  "ac_position (liquidate c bar ac) = None"
  "length (ac_trades (liquidate c bar ac)) = open_trades ac"
  "map ep_date (ac_curve (liquidate c bar ac)) = map ep_date (ac_curve ac)"
  "butlast (ac_curve (liquidate c bar ac)) = butlast (ac_curve ac)"
proof -
  have "map ep_date (butlast xs @ [(last xs)\<lparr>ep_equity := e\<rparr>]) = map ep_date xs" if "xs \<noteq> []" for xs e
    using that by (cases xs rule: rev_cases) auto
  then show "map ep_date (ac_curve (liquidate c bar ac)) = map ep_date (ac_curve ac)"
    by (auto simp: liquidate_def Let_def close_open_fields split: option.splits)
qed (auto simp: liquidate_def Let_def close_open_fields open_trades_def split: option.splits)

lemma liquidate_trades: "account_inv ac \<Longrightarrow> successively reverses (ac_trades (liquidate c bar ac))"
  using close_open_trades [of ac] by (auto simp: liquidate_def Let_def account_inv_def split: option.splits)

lemma ends_with_prefix: "take n (butlast xs) = take n xs" if "n < length xs"
  using that by (simp add: butlast_conv_take)

lemma final_account_facts:
  "map ep_date (ac_curve (final_account config g series)) = map bar_date series"
  "length (ac_curve (final_account config g series)) = length series"
  "successively reverses (ac_trades (final_account config g series))"
  "length (ac_trades (final_account config g series)) \<le> length series - 1"
proof -
  show d: "map ep_date (ac_curve (final_account config g series)) = map bar_date series"
    by (simp add: final_account_def liquidate_fields run_bars_dates)
  show "length (ac_curve (final_account config g series)) = length series"
    using arg_cong [OF d, of length] by simp
  show "successively reverses (ac_trades (final_account config g series))"
    by (simp add: final_account_def liquidate_trades run_bars_inv)
  show "length (ac_trades (final_account config g series)) \<le> length series - 1"
    using run_bars_open_trades [of config g series "length series"] by (simp add: final_account_def liquidate_fields)
qed

lemma win_rate_range:
  assumes "length trades \<le> 2 ^ 53"
  shows "0 \<le> win_rate_of trades \<and> win_rate_of trades \<le> 1"
proof (cases "trades = []")
  case True
  then show ?thesis by (simp add: win_rate_of_def le_key)
next
  case False
  then show ?thesis using assms unfolding win_rate_of_def Let_def
    by (simp only: if_False simp_thms) (rule ratio_of_sizes, simp_all)
qed

section \<open>Drawdown\<close>

lemma drawdown_step_range:
  assumes "0 \<le> snd st"
  shows "0 \<le> snd (drawdown_step st p)"
  using assms by (cases st; auto simp: drawdown_step_def Let_def le_key less_key)+

lemma drawdown_step_le_1:
  assumes "snd st \<le> 1" "nn (ep_equity p)"
  shows "snd (drawdown_step st p) \<le> 1"
proof -
  obtain peak mx where st: "st = (peak, mx)" by (cases st)
  have "isnan ((k - ep_equity p) / k) \<or> (k - ep_equity p) / k \<le> 1" if "0 < k" for k
  proof (cases "isnan (k - ep_equity p)")
    case False
    then have "k - ep_equity p \<le> k" using sub_nonneg_mono [of "ep_equity p" k] assms(2) that
      by (auto simp: nn_def less_key)
    then show ?thesis using div_le_1 that by blast
  qed auto
  then have "mx < (k - ep_equity p) / k \<Longrightarrow> 0 < k \<Longrightarrow> (k - ep_equity p) / k \<le> 1" for k
    using not_le_nan(4) by blast
  then show ?thesis using assms by (auto simp: st drawdown_step_def Let_def)
qed

lemma foldl_drawdown:
  assumes "0 \<le> snd st"
  shows "0 \<le> snd (foldl drawdown_step st curve) \<and>
    (snd st \<le> 1 \<and> (\<forall>p \<in> set curve. nn (ep_equity p)) \<longrightarrow> snd (foldl drawdown_step st curve) \<le> 1)"
  using assms
proof (induction curve arbitrary: st)
  case (Cons p curve)
  have "0 \<le> snd (drawdown_step st p)" using drawdown_step_range Cons.prems by blast
  note h = Cons.IH [OF this]
  have "snd st \<le> 1 \<and> nn (ep_equity p) \<longrightarrow> snd (drawdown_step st p) \<le> 1"
    using drawdown_step_le_1 [of st p] Cons.prems by blast
  then show ?case using h by auto
qed auto

lemma neg_le_neg: "- x \<le> - y \<longleftrightarrow> y \<le> (x :: double)"
  by (auto simp: le_key)

lemma max_drawdown_range:
  "ComputeMaxDrawdown curve \<le> 0"
  "\<forall>p \<in> set curve. nn (ep_equity p) \<Longrightarrow> - 1 \<le> ComputeMaxDrawdown curve"
  using foldl_drawdown [of "(0, 0)" curve] by (simp_all add: ComputeMaxDrawdown_def neg_le_neg le_key [of 0 0] le_key [of 0 1])

text \<open>The drawdown is the largest fall from the running peak.\<close>

definition running_peak :: "EquityPoint list \<Rightarrow> nat \<Rightarrow> double" where
  "running_peak curve i = foldl (\<lambda>k p. dmax k (ep_equity p)) 0 (take (Suc i) curve)"

definition drawdown_at :: "EquityPoint list \<Rightarrow> nat \<Rightarrow> double" where
  "drawdown_at curve i =
     (let k = running_peak curve i in if 0 < k then (k - ep_equity (curve ! i)) / k else 0)"

lemma drawdown_step_dmax:
  "drawdown_step (k, m) p =
     (let k' = dmax k (ep_equity p) in (k', if 0 < k' then dmax m ((k' - ep_equity p) / k') else m))"
  by (simp add: drawdown_step_def dmax_def Let_def)

lemma foldl_drawdown_snoc:
  "foldl drawdown_step (0, 0) curve =
     (foldl (\<lambda>k p. dmax k (ep_equity p)) 0 curve, foldl dmax 0 (map (drawdown_at curve) [0..<length curve]))"
proof (induction curve rule: rev_induct)
  case (snoc p curve)
  have m: "map (drawdown_at (curve @ [p])) [0..<length curve] = map (drawdown_at curve) [0..<length curve]"
    by (rule map_upt_cong) (simp add: drawdown_at_def running_peak_def nth_append Let_def)
  have "0 \<le> snd (foldl drawdown_step (0, 0) curve)" using foldl_drawdown [of "(0, 0)" curve] by (simp add: le_key [of 0 0])
  then have n: "\<not> foldl dmax 0 (map (drawdown_at curve) [0..<length curve]) < 0"
    using snoc by (simp add: le_key less_key)
  have z: "dmax (foldl dmax 0 (map (drawdown_at curve) [0..<length curve])) 0 =
      foldl dmax 0 (map (drawdown_at curve) [0..<length curve])"
    unfolding dmax_def [of _ 0] using n by (rule if_not_P)
  have "drawdown_at (curve @ [p]) (length curve) =
      (let k = dmax (foldl (\<lambda>k p. dmax k (ep_equity p)) 0 curve) (ep_equity p)
       in if 0 < k then (k - ep_equity p) / k else 0)"
    by (simp add: drawdown_at_def running_peak_def Let_def)
  then show ?case unfolding foldl_append snoc by (simp add: m z drawdown_step_dmax Let_def)
qed simp

lemma dmax_upper: "\<not> isnan a \<Longrightarrow> \<not> isnan (dmax a y) \<and> key a \<le> key (dmax a y) \<and> (isnan y \<or> key y \<le> key (dmax a y))"
  by (auto simp: dmax_def less_key)

lemma foldl_dmax_upper:
  "\<not> isnan a \<Longrightarrow> \<not> isnan (foldl dmax a xs) \<and> key a \<le> key (foldl dmax a xs) \<and>
     (\<forall>x \<in> set xs. isnan x \<or> key x \<le> key (foldl dmax a xs))"
proof (induction xs arbitrary: a)
  case (Cons y xs)
  have h: "\<not> isnan (dmax a y)" "key a \<le> key (dmax a y)" "isnan y \<or> key y \<le> key (dmax a y)"
    using dmax_upper [OF Cons.prems] by blast+
  show ?case using Cons.IH [OF h(1)] h(2,3) by (auto intro: order_trans)
qed simp

lemma foldl_dmax_bound: "\<not> isnan a \<Longrightarrow> x \<in> set xs \<Longrightarrow> \<not> foldl dmax a xs < x"
  using foldl_dmax_upper [of a xs] by (auto simp: less_key)

lemma foldl_dmax_attained: "foldl dmax a xs \<in> insert a (set xs)"
proof (induction xs arbitrary: a)
  case (Cons y xs)
  then show ?case using Cons [of "dmax a y"] by (auto simp: dmax_def split: if_splits)
qed simp

lemma max_drawdown_spec:
  "ComputeMaxDrawdown curve = - foldl dmax 0 (map (drawdown_at curve) [0..<length curve])"
  by (simp add: ComputeMaxDrawdown_def foldl_drawdown_snoc)

lemma ComputeMaxDrawdown_result:
  "series \<noteq> [] \<Longrightarrow> m_max_drawdown (br_metrics (finish_run config (final_account config g series))) =
     ComputeMaxDrawdown (ac_curve (final_account config g series))"
  using final_account_facts(2) [of config g series] by (auto simp: ComputeMetrics_def Let_def)

section \<open>Sharpe ratio\<close>

lemma ComputeSharpe_not_nan: "ComputeSharpe returns rf n = Some s \<Longrightarrow> \<not> isnan s \<and> returns \<noteq> [] \<and> 0 < n"
  by (auto simp: ComputeSharpe_def Let_def split: if_splits)

section \<open>No look-ahead\<close>

lemma final_account_prefix:
  "n < length series \<Longrightarrow> take n (ac_curve (final_account config g series)) = ac_curve (run_bars config g series n)"
proof -
  assume n: "n < length series"
  let ?ac = "run_bars config g series (length series)" and ?f = "final_account config g series"
  have "take n (ac_curve ?f) = take n (butlast (ac_curve ?f))"
    using n final_account_facts(2) [of config g series] by (simp add: ends_with_prefix)
  also have "\<dots> = take n (butlast (ac_curve ?ac))" by (simp add: final_account_def liquidate_fields)
  also have "\<dots> = take n (ac_curve ?ac)" using n by (simp add: ends_with_prefix run_bars_curve_length)
  finally show ?thesis using run_bars_curve_prefix n by simp
qed

context bar_strategy
begin

text \<open>Two series with the same first \<open>n\<close> bars, both longer, have the same first \<open>n\<close> equities.\<close>

lemma Run_no_lookahead:
  assumes "Run signals config s1 params = Inr r1" "Run signals config s2 params = Inr r2"
    and "take n s1 = take n s2" "n < length s1" "n < length s2"
  shows "take n (br_equity_curve r1) = take n (br_equity_curve r2)"
proof -
  obtain g1 where 1: "signals s1 params = Inr g1" "length g1 = length s1" "r1 = finish_run config (final_account config g1 s1)"
    using assms(1) by (rule Run_cases)
  obtain g2 where 2: "signals s2 params = Inr g2" "length g2 = length s2" "r2 = finish_run config (final_account config g2 s2)"
    using assms(2) by (rule Run_cases)
  have "take n g1 = take n g2" using same_prefix 1(1) 2(1) assms(3) by blast
  then have "i < n \<Longrightarrow> g1 ! i = g2 ! i" for i by (metis nth_take)
  then have "run_bars config g1 s1 n = run_bars config g2 s2 n"
    using assms(3-5) by (intro run_bars_cong) auto
  then show ?thesis using 1(3) 2(3) assms(4,5) by (simp add: final_account_prefix)
qed

text \<open>With a strategy that keeps the contract the signal count check cannot fail.\<close>

lemma Run_count_ok:
  assumes "series \<noteq> []" "length series \<le> kMaxBacktestBars"
  shows "Run signals config series params =
    ebind (signals series params) (\<lambda>g. Inr (finish_run config (final_account config g series)))"
proof (cases "signals series params")
  case (Inr g)
  then show ?thesis using assms length_signals [OF Inr] by (simp add: Run_InrI)
qed (use assms in \<open>simp add: Run_def\<close>)

end

section \<open>Runs without a trade, and of buy and hold\<close>

lemma run_bars_hold:
  assumes "\<And>i. i + 1 < n \<Longrightarrow> sr_signal (g ! i) = Hold"
  shows "run_bars config g series n = (open_account config)\<lparr>ac_curve :=
      map (\<lambda>i. \<lparr>ep_date = bar_date (series ! i), ep_equity = bc_initial_capital config\<rparr>) [0..<n]\<rparr>"
  using assms
proof (induction n)
  case (Suc n)
  then show ?case
    by (cases n) (auto simp: bar_step_def execute_signal_def mark_to_market_def open_account_def Let_def)
qed (simp add: open_account_def)

lemma Run_hold:
  assumes "Run strategy config series params = Inr r" "strategy series params = Inr g"
    and "\<And>i. i + 1 < length series \<Longrightarrow> sr_signal (g ! i) = Hold"
  shows "br_trades r = [] \<and> br_final_equity r = bc_initial_capital config \<and>
    m_win_rate (br_metrics r) = 0 \<and> (\<forall>p \<in> set (br_equity_curve r). ep_equity p = bc_initial_capital config)"
proof -
  have ne: "series \<noteq> []" and r: "r = finish_run config (final_account config g series)"
    using Run_cases [OF assms(1)] assms(2) by (metis sum.inject(2))+
  have "final_account config g series = (open_account config)\<lparr>ac_curve :=
      map (\<lambda>i. \<lparr>ep_date = bar_date (series ! i), ep_equity = bc_initial_capital config\<rparr>) [0..<length series]\<rparr>"
    using run_bars_hold [of "length series" g config series, OF assms(3)] by (simp add: final_account_def liquidate_def open_account_def)
  then show ?thesis using ne by (auto simp: r finish_run_def Let_def open_account_def win_rate_of_def last_map)
qed

lemma run_bars_buy_hold:
  assumes "sr_signal (g ! 0) = Buy" "\<And>i. 0 < i \<Longrightarrow> i < n \<Longrightarrow> sr_signal (g ! i) = Hold" "2 \<le> n"
  shows "ac_trades (run_bars config g series n) = [] \<and>
    ac_position (run_bars config g series n) = Some (fst (OpenLong (bar_open (series ! 1)) (bc_initial_capital config)
      (bc_commission_rate config) (bar_date (series ! 1))))"
  using assms(3,2)
proof (induction n rule: dec_induct)
  case base
  show ?case using assms(1)
    by (auto simp: numeral_2_eq_2 bar_step_def execute_signal_def open_account_def close_open_def Let_def
        mark_to_market_def case_prod_beta)
next
  case (step n)
  then show ?case by (simp add: bar_step_def execute_signal_def)
qed

lemma Run_buy_hold:
  assumes "Run BuyAndHold config series params = Inr r" "2 \<le> length series"
  shows "\<exists>t. br_trades r = [t] \<and> tr_side t = Long \<and> tr_entry_date t = bar_date (series ! 1) \<and>
    tr_entry_price t = bar_open (series ! 1) \<and> tr_exit_date t = bar_date (last series) \<and>
    tr_exit_price t = bar_close (last series)"
proof -
  obtain g where g: "BuyAndHold series params = Inr g" "r = finish_run config (final_account config g series)"
    using assms(1) by (rule Run_cases)
  have "sr_signal (g ! i) = (if i = 0 then Buy else Hold)" if "i < length series" for i
    using g(1) that by (auto simp: BuyAndHold_def)
  then have s: "sr_signal (g ! 0) = Buy" "\<And>i. 0 < i \<Longrightarrow> i < length series \<Longrightarrow> sr_signal (g ! i) = Hold"
    using assms(2) by (metis less_le_trans pos2, metis neq0_conv)
  note h = run_bars_buy_hold [OF s assms(2), of config series]
  show ?thesis using h g(2)
    by (simp add: final_account_def liquidate_def close_open_fields Let_def account_simps)
qed

section \<open>Properties\<close>

text \<open>C1: the backtest of a built-in strategy has no look-ahead. Two series, both longer than
  \<open>n\<close> bars, that agree on their first \<open>n\<close> bars get the same first \<open>n\<close> points of the equity curve, whatever follows.\<close>

theorem engine_no_lookahead:
  assumes "BuiltinStrategy name = Some st"
    and "Run st config s1 params = Inr r1" "Run st config s2 params = Inr r2"
    and "take n s1 = take n s2" "n < length s1" "n < length s2"
  shows "take n (br_equity_curve r1) = take n (br_equity_curve r2)"
  using bar_strategy.Run_no_lookahead [OF BuiltinStrategy_contract [OF assms(1)] assms(2-6)] .

lemma buy_hold_runs:
  assumes "series \<noteq> []" "length series \<le> kMaxBacktestBars"
  shows "\<exists>r. Run BuyAndHold config series params = Inr r"
  using buy_hold.Run_count_ok [OF assms] by (simp add: BuyAndHold_def)

lemma rising3_run: "\<exists>r. Run BuyAndHold default_BacktestConfig rising3 Map.empty = Inr r"
  by (rule buy_hold_runs) (simp_all add: kMaxBacktestBars_def)

theorem engine_no_lookahead_witness:
  "\<exists>r1 r2. Run BuyAndHold default_BacktestConfig rising3 Map.empty = Inr r1 \<and>
     Run BuyAndHold default_BacktestConfig zigzag4 Map.empty = Inr r2 \<and>
     take 1 (br_equity_curve r1) = take 1 (br_equity_curve r2)"
proof -
  obtain r1 where r1: "Run BuyAndHold default_BacktestConfig rising3 Map.empty = Inr r1"
    using rising3_run by blast
  obtain r2 where r2: "Run BuyAndHold default_BacktestConfig zigzag4 Map.empty = Inr r2"
    using buy_hold_runs [of zigzag4] by (auto simp: kMaxBacktestBars_def zigzag4_def)
  note r = r1 r2
  have "take 1 (br_equity_curve r1) = take 1 (br_equity_curve r2)"
    by (rule engine_no_lookahead [of "''buy_and_hold''", OF _ r]) (simp_all add: BuiltinStrategy_def rising3_def zigzag4_def)
  then show ?thesis using r by blast
qed

text \<open>C14: what a backtest of a built-in strategy can fail with, in this order: an unknown strategy, an empty
  series, more than 50000 bars, or an error of the strategy itself. The check of the signal count never fails.\<close>

theorem engine_errors:
  "backtest name config series params =
     (case BuiltinStrategy name of
        None \<Rightarrow> Inl (InvalidCommandError [T ''unknown strategy: '', T name])
      | Some st \<Rightarrow>
          if series = [] then Inl (InvalidCommandError [T ''backtest requires a non-empty price series''])
          else if 50000 < length series then
            Inl (InvalidCommandError [T ''backtest series exceeds maximum of '', N 50000, T '' bars''])
          else ebind (st series params) (\<lambda>g. Inr (finish_run config
            (liquidate (bc_commission_rate config) (last series) (run_bars config g series (length series))))))"
proof (cases "BuiltinStrategy name")
  case (Some st)
  then show ?thesis
    using bar_strategy.Run_count_ok [OF BuiltinStrategy_contract [OF Some], of series config params]
    by (auto simp: backtest_def BacktestEngine_def Run_def kMaxBacktestBars_def final_account_def)
qed (simp add: backtest_def BacktestEngine_def)

text \<open>C13: the engine is never flat between trades. Each trade opens at the date and the price at which the
  one before it closed, on the other side, and there is at most one trade per bar after the first.\<close>

theorem trades_alternate:
  assumes "Run strategy config series params = Inr r"
  shows "(\<forall>k. Suc k < length (br_trades r) \<longrightarrow>
      tr_entry_date (br_trades r ! Suc k) = tr_exit_date (br_trades r ! k) \<and>
      tr_entry_price (br_trades r ! Suc k) = tr_exit_price (br_trades r ! k) \<and>
      tr_side (br_trades r ! Suc k) \<noteq> tr_side (br_trades r ! k)) \<and>
    m_trade_count (br_metrics r) = length (br_trades r) \<and> length (br_trades r) \<le> length series - 1"
proof -
  obtain g where r: "r = finish_run config (final_account config g series)" using assms by (rule Run_cases)
  have "successively reverses (br_trades r)" by (simp add: r final_account_facts)
  then show ?thesis using final_account_facts(4) [of config g series]
    by (simp add: r successively_conv_nth reverses_def)
qed

theorem trades_alternate_witness:
  "\<exists>r. Run BuyAndHold default_BacktestConfig rising3 Map.empty = Inr r \<and> length (br_trades r) \<le> 2"
proof -
  obtain r where "Run BuyAndHold default_BacktestConfig rising3 Map.empty = Inr r"
    using rising3_run by blast
  then show ?thesis using trades_alternate [of BuyAndHold default_BacktestConfig rising3 Map.empty r] by auto
qed

text \<open>A backtest reports one equity per bar, at the bar's date, and its final equity is that of the last
  point.\<close>

theorem equity_curve:
  assumes "Run strategy config series params = Inr r"
  shows "map ep_date (br_equity_curve r) = map bar_date series \<and>
    br_final_equity r = ep_equity (last (br_equity_curve r))"
proof -
  obtain g where "series \<noteq> []" "r = finish_run config (final_account config g series)" using assms by (rule Run_cases)
  then show ?thesis using final_account_facts(1,2) [of config g series]
    by (auto simp: finish_run_def Let_def)
qed

theorem equity_curve_witness:
  "\<exists>r. Run BuyAndHold default_BacktestConfig rising3 Map.empty = Inr r \<and> map ep_date (br_equity_curve r) = map bar_date rising3"
proof -
  obtain r where "Run BuyAndHold default_BacktestConfig rising3 Map.empty = Inr r"
    using rising3_run by blast
  then show ?thesis using equity_curve [of BuyAndHold default_BacktestConfig rising3 Map.empty r] by auto
qed

text \<open>C26: the maximum drawdown of a backtest is the largest fall from the running peak: its negation is 0
  or the drawdown of some bar, and no bar's drawdown exceeds it; it is at most 0, and at least -1 when no equity is
  negative.\<close>

theorem drawdown_largest:
  assumes "Run strategy config series params = Inr r"
  defines "mdd \<equiv> m_max_drawdown (br_metrics r)" and "curve \<equiv> br_equity_curve r"
  shows "(mdd = - 0 \<or> (\<exists>i < length curve. mdd = - drawdown_at curve i)) \<and>
    (\<forall>i < length curve. \<not> - mdd < drawdown_at curve i) \<and> mdd \<le> 0 \<and>
    ((\<forall>p \<in> set curve. nn (ep_equity p)) \<longrightarrow> - 1 \<le> mdd)"
proof -
  obtain g where ne: "series \<noteq> []" and r: "r = finish_run config (final_account config g series)"
    using assms(1) by (rule Run_cases)
  have m: "mdd = ComputeMaxDrawdown curve" using ComputeMaxDrawdown_result [OF ne] by (simp add: r mdd_def curve_def)
  let ?dd = "map (drawdown_at curve) [0..<length curve]"
  have "foldl dmax 0 ?dd \<in> insert 0 (set ?dd)" by (rule foldl_dmax_attained)
  then have 1: "mdd = - 0 \<or> (\<exists>i < length curve. mdd = - drawdown_at curve i)"
    by (auto simp: m max_drawdown_spec)
  have k: "key (- mdd) = key (foldl dmax 0 ?dd)" by (simp add: m max_drawdown_spec)
  have "\<not> - mdd < drawdown_at curve i" if "i < length curve" for i
    using foldl_dmax_upper [of 0 ?dd] that k by (auto simp: less_key)
  then show ?thesis using 1 max_drawdown_range [of curve] by (simp add: m)
qed

theorem drawdown_largest_witness:
  "\<exists>r. Run BuyAndHold default_BacktestConfig rising3 Map.empty = Inr r \<and> m_max_drawdown (br_metrics r) \<le> 0"
proof -
  obtain r where "Run BuyAndHold default_BacktestConfig rising3 Map.empty = Inr r"
    using rising3_run by blast
  then show ?thesis using drawdown_largest [of BuyAndHold default_BacktestConfig rising3 Map.empty r] by auto
qed

text \<open>The win rate of a backtest is a fraction: a number between 0 and 1, and 0 without trades.\<close>

theorem win_rate_bounds:
  assumes "Run strategy config series params = Inr r"
  shows "0 \<le> m_win_rate (br_metrics r) \<and> m_win_rate (br_metrics r) \<le> 1 \<and>
    (br_trades r = [] \<longrightarrow> m_win_rate (br_metrics r) = 0)"
proof -
  obtain g where l: "length series \<le> kMaxBacktestBars" and r: "r = finish_run config (final_account config g series)"
    using assms by (rule Run_cases)
  have "length (br_trades r) \<le> 2 ^ 53"
    using final_account_facts(4) [of config g series] l by (simp add: r kMaxBacktestBars_def)
  then show ?thesis using win_rate_range [of "br_trades r"] by (simp add: r win_rate_of_def)
qed

theorem win_rate_bounds_witness:
  "\<exists>r. Run BuyAndHold default_BacktestConfig rising3 Map.empty = Inr r \<and> m_win_rate (br_metrics r) \<le> 1"
proof -
  obtain r where "Run BuyAndHold default_BacktestConfig rising3 Map.empty = Inr r"
    using rising3_run by blast
  then show ?thesis using win_rate_bounds [of BuyAndHold default_BacktestConfig rising3 Map.empty r] by auto
qed

text \<open>Buy and hold over at least two bars makes exactly one trade, long, opened at the open of the
  second bar and closed at the close of the last.\<close>

theorem buy_and_hold_trade:
  assumes "Run BuyAndHold config series params = Inr r" "2 \<le> length series"
  shows "\<exists>t. br_trades r = [t] \<and> tr_side t = Long \<and> tr_entry_date t = bar_date (series ! 1) \<and>
    tr_entry_price t = bar_open (series ! 1) \<and> tr_exit_date t = bar_date (last series) \<and>
    tr_exit_price t = bar_close (last series)"
  using assms by (rule Run_buy_hold)

theorem buy_and_hold_trade_witness:
  "\<exists>r t. Run BuyAndHold default_BacktestConfig rising3 Map.empty = Inr r \<and> br_trades r = [t] \<and>
     tr_entry_price t = lit 101 \<and> tr_exit_price t = lit 103"
proof -
  obtain r where r: "Run BuyAndHold default_BacktestConfig rising3 Map.empty = Inr r"
    using rising3_run by blast
  have "bar_open (rising3 ! 1) = lit 101" "bar_close (last rising3) = lit 103"
    by (simp_all add: rising3_def sample_bar_def)
  then show ?thesis using r buy_and_hold_trade [OF r] by auto
qed

end
