(* ===== verification/Walk_Forward.thy ===== *)
theory Walk_Forward
  imports Engine_Facts
begin

text \<open>
  \<^verbatim>\<open>backtest/walk_forward.cpp\<close>: the parameter grid, the choice of the best parameters on a training
  window, the loop over the windows and the combination of their results. The grid is the list of
  its entries in the order an iteration of the \<^verbatim>\<open>unordered_map\<close> visits them.
\<close>

datatype OptimizationMetric = TotalReturn | Sharpe | WinRate

record ParamWindow =
  pw_start :: Date
  pw_params :: params

record WalkForwardResult =
  wr_equity_curve :: "EquityPoint list"
  wr_trades :: "Trade list"
  wr_total_return :: double
  wr_max_drawdown :: double
  wr_sharpe :: "double option"
  wr_number_of_trades :: nat
  wr_win_rate :: double
  wr_selected_params :: "ParamWindow list"

record WalkForwardRequest =
  wf_strategy :: string
  wf_series :: "OHLCV list"
  wf_param_grid :: "(string \<times> double list) list"
  wf_train_size :: nat
  wf_test_size :: nat
  wf_metric :: OptimizationMetric
  wf_config :: BacktestConfig

section \<open>The parameter grid\<close>

definition kMaxWalkForwardCombinations :: nat where
  "kMaxWalkForwardCombinations = 10000"

definition extend_combinations :: "params list \<Rightarrow> string \<Rightarrow> double list \<Rightarrow> params list" where
  "extend_combinations combinations k vs = concat (map (\<lambda>base. map (\<lambda>v. base(k \<mapsto> v)) vs) combinations)"

fun combine_grid :: "params list \<Rightarrow> (string \<times> double list) list \<Rightarrow> params list result" where
  "combine_grid combinations [] = Inr combinations"
| "combine_grid combinations ((k, vs) # grid) =
     (if vs = [] then combine_grid combinations grid
      else let combinations' = extend_combinations combinations k vs in
        ebind (throw_if (kMaxWalkForwardCombinations < length combinations')
            (InvalidCommandError [T ''parameter grid produces more than '', N kMaxWalkForwardCombinations,
              T '' combinations'']))
          (\<lambda>_. combine_grid combinations' grid))"

definition BuildParamCombinations :: "(string \<times> double list) list \<Rightarrow> params list result" where
  "BuildParamCombinations grid = combine_grid [Map.empty] grid"

section \<open>The choice of the parameters\<close>

definition ScoreResult :: "BacktestResult \<Rightarrow> OptimizationMetric \<Rightarrow> double" where
  "ScoreResult result metric =
     (case metric of
        Sharpe \<Rightarrow> (case m_sharpe (br_metrics result) of Some s \<Rightarrow> s | None \<Rightarrow> 0)
      | WinRate \<Rightarrow> m_win_rate (br_metrics result)
      | TotalReturn \<Rightarrow> br_total_return result)"

text \<open>An exception is caught by \<^verbatim>\<open>catch (...)\<close>; undefined behaviour is not an exception.\<close>

definition catchable :: "exn \<Rightarrow> bool" where
  "catchable e = (case e of UndefinedBehaviour _ \<Rightarrow> False | _ \<Rightarrow> True)"

fun optimize_loop ::
    "string \<Rightarrow> OHLCV list \<Rightarrow> BacktestConfig \<Rightarrow> OptimizationMetric \<Rightarrow>
     (double \<times> params) option \<Rightarrow> params list \<Rightarrow> (double \<times> params) option result" where
  "optimize_loop strategy_name train config metric best [] = Inr best"
| "optimize_loop strategy_name train config metric best (params # combinations) =
     (case backtest strategy_name config train params of
        Inl e \<Rightarrow> if catchable e then optimize_loop strategy_name train config metric best combinations else Inl e
      | Inr result \<Rightarrow>
          let score = ScoreResult result metric;
              best' = (case best of
                  None \<Rightarrow> Some (score, params)
                | Some (best_score, best_params) \<Rightarrow> if best_score < score then Some (score, params) else best)
          in optimize_loop strategy_name train config metric best' combinations)"

definition Optimize ::
    "string \<Rightarrow> OHLCV list \<Rightarrow> params list \<Rightarrow> BacktestConfig \<Rightarrow> OptimizationMetric \<Rightarrow> params result" where
  "Optimize strategy_name train combinations config metric =
     ebind (optimize_loop strategy_name train config metric None combinations) (\<lambda>best.
       (case best of
          None \<Rightarrow> Inl (DataQualityError [T ''no parameter combination produced a result''])
        | Some (best_score, best_params) \<Rightarrow> Inr best_params))"

section \<open>The combined result\<close>

text \<open>
  \<^verbatim>\<open>std::sort\<close> by date, modelled by the stable sort: for points of equal dates the order the library
  leaves is unspecified. \<^verbatim>\<open>std::unique\<close> keeps the first point of each run of equal dates.
\<close>

fun unique_dates :: "EquityPoint list \<Rightarrow> EquityPoint list" where
  "unique_dates (p # q # ps) = (if ep_date p = ep_date q then unique_dates (p # ps) else p # unique_dates (q # ps))"
| "unique_dates ps = ps"

definition window_scale :: "BacktestConfig \<Rightarrow> bool \<Rightarrow> double \<Rightarrow> double \<Rightarrow> double" where
  "window_scale config is_first cumulative_capital window_initial =
     (if is_first then (if deq window_initial 0 then 0 else bc_initial_capital config / window_initial)
      else (if deq window_initial 0 then 0 else cumulative_capital / window_initial))"

definition scale_points :: "double \<Rightarrow> EquityPoint list \<Rightarrow> EquityPoint list" where
  "scale_points scale ps = map (\<lambda>p. p\<lparr>ep_equity := ep_equity p * scale\<rparr>) ps"

definition scale_trades :: "double \<Rightarrow> Trade list \<Rightarrow> Trade list" where
  "scale_trades scale ts = map (\<lambda>t. t\<lparr>tr_pnl := tr_pnl t * scale\<rparr>) ts"

definition combine_step ::
    "BacktestConfig \<Rightarrow> BacktestResult list \<Rightarrow> EquityPoint list \<times> Trade list \<times> double \<Rightarrow> nat \<Rightarrow>
     EquityPoint list \<times> Trade list \<times> double" where
  "combine_step config results st i =
     (case st of (equity_curve, trades, cumulative_capital) \<Rightarrow>
       let result = results ! i;
           curve = br_equity_curve result;
           window_initial = (if curve = [] then bc_initial_capital config else ep_equity (hd curve));
           window_final = (if curve = [] then window_initial else ep_equity (last curve));
           scale = window_scale config (i = 0) cumulative_capital window_initial
       in (equity_curve @ scale_points scale curve, trades @ scale_trades scale (br_trades result),
           window_final * scale))"

definition CombineResults ::
    "BacktestResult list \<Rightarrow> ParamWindow list \<Rightarrow> BacktestConfig \<Rightarrow> WalkForwardResult result" where
  "CombineResults results selected_params config =
     (if results = [] then Inl (InvalidCommandError [T ''no out-of-sample windows were generated''])
      else
        (case foldl (combine_step config results) ([], [], 0) [0..<length results] of
           (points, trades, cumulative_capital) \<Rightarrow>
             let equity_curve = unique_dates (sort_key ep_date points);
                 max_dd = snd (foldl drawdown_step (0, 0) equity_curve);
                 total_return = (if equity_curve \<noteq> [] \<and> \<not> deq (ep_equity (hd equity_curve)) 0
                     then ep_equity (last equity_curve) / ep_equity (hd equity_curve) - 1 else 0)
             in Inr \<lparr>wr_equity_curve = equity_curve, wr_trades = trades, wr_total_return = total_return,
                  wr_max_drawdown = - max_dd, wr_sharpe = None, wr_number_of_trades = length trades,
                  wr_win_rate = win_rate_of trades, wr_selected_params = selected_params\<rparr>))"

section \<open>The optimizer\<close>

definition kMaxWalkForwardWindow :: nat where
  "kMaxWalkForwardWindow = 10000"

definition make_WalkForwardOptimizer :: "WalkForwardRequest \<Rightarrow> WalkForwardRequest result" where
  "make_WalkForwardOptimizer request =
     ebind (BacktestEngine (wf_strategy request)) (\<lambda>engine.
     ebind (throw_if (wf_train_size request = 0 \<or> wf_test_size request = 0)
         (InvalidCommandError [T ''train and test sizes must be positive''])) (\<lambda>_.
     ebind (throw_if (kMaxWalkForwardWindow < wf_train_size request \<or> kMaxWalkForwardWindow < wf_test_size request)
         (InvalidCommandError [T ''train and test sizes must be <= '', N kMaxWalkForwardWindow])) (\<lambda>_.
     ebind (throw_if (wf_param_grid request = [])
         (InvalidCommandError [T ''walk-forward requires a non-empty parameter grid''])) (\<lambda>_.
       Inr request))))"

text \<open>The body of the loop for the window that starts at \<open>start\<close>.\<close>

definition wf_window :: "WalkForwardRequest \<Rightarrow> params list \<Rightarrow> nat \<Rightarrow> (BacktestResult \<times> ParamWindow) result" where
  "wf_window request combinations start =
     (let train_end = start + wf_train_size request;
          train = take (wf_train_size request) (drop start (wf_series request));
          test = take (wf_test_size request) (drop train_end (wf_series request))
      in ebind (Optimize (wf_strategy request) train combinations (wf_config request) (wf_metric request)) (\<lambda>best_params.
         ebind (backtest (wf_strategy request) (wf_config request) test best_params) (\<lambda>result.
           Inr (result, \<lparr>pw_start = bar_date (hd test), pw_params = best_params\<rparr>))))"

text \<open>The loop may not end for a test size of 0, which the constructor refuses: no value is then \<open>None\<close>.\<close>

partial_function (option) wf_loop ::
    "WalkForwardRequest \<Rightarrow> params list \<Rightarrow> nat \<Rightarrow> BacktestResult list \<Rightarrow> ParamWindow list \<Rightarrow>
     (BacktestResult list \<times> ParamWindow list) result option" where
  "wf_loop request combinations start test_results selected_params =
     (if start + wf_train_size request + wf_test_size request \<le> length (wf_series request) then
        (case wf_window request combinations start of
           Inl e \<Rightarrow> Some (Inl e)
         | Inr (result, window) \<Rightarrow>
             wf_loop request combinations (start + wf_test_size request)
               (test_results @ [result]) (selected_params @ [window]))
      else Some (Inr (test_results, selected_params)))"

definition WalkForward_Run :: "WalkForwardRequest \<Rightarrow> WalkForwardResult result option" where
  "WalkForward_Run request =
     (if length (wf_series request) < wf_train_size request + wf_test_size request then
        Some (Inl (InvalidCommandError [T ''series is too short for walk-forward configuration'']))
      else
        (case BuildParamCombinations (wf_param_grid request) of
           Inl e \<Rightarrow> Some (Inl e)
         | Inr combinations \<Rightarrow>
             if combinations = [] then
               Some (Inl (InvalidCommandError [T ''walk-forward requires a non-empty parameter grid'']))
             else
               (case wf_loop request combinations 0 [] [] of
                  None \<Rightarrow> None
                | Some (Inl e) \<Rightarrow> Some (Inl e)
                | Some (Inr (test_results, selected_params)) \<Rightarrow>
                    Some (CombineResults test_results selected_params (wf_config request)))))"

end
