(* ===== verification/Monte_Carlo.thy ===== *)
theory Monte_Carlo
  imports Engine_Facts "HOL-Library.Word"
begin

text \<open>
  \<^verbatim>\<open>backtest/monte_carlo.cpp\<close>: the simulator that reshuffles returns. The generator and
  \<^verbatim>\<open>std::shuffle\<close>, whose algorithm the standard leaves open, are arguments: \<open>seed_rng\<close> and
  \<open>entropy_rng\<close> make a generator, \<open>shuffle\<close> maps a generator and a vector to the shuffled vector and
  the next generator. What is used of it is that a shuffle is a permutation.
\<close>

record ConfidenceInterval =
  ci_lower :: double
  ci_upper :: double

record MonteCarloResult =
  mc_simulations :: int
  mc_final_equity_ci :: ConfidenceInterval
  mc_max_drawdown_ci :: ConfidenceInterval
  mc_initial_capital :: double

record MonteCarloSimulator =
  mcs_simulations :: int
  mcs_seed :: "64 word option"

definition MakeRNG :: "(64 word \<Rightarrow> 'g) \<Rightarrow> 'g \<Rightarrow> 64 word option \<Rightarrow> 'g" where
  "MakeRNG seed_rng entropy_rng seed = (case seed of Some s \<Rightarrow> seed_rng s | None \<Rightarrow> entropy_rng)"

definition path_step :: "double \<times> double \<times> double \<Rightarrow> double \<Rightarrow> double \<times> double \<times> double" where
  "path_step st r =
     (case st of (equity, peak, max_dd) \<Rightarrow>
       let equity' = equity * (1 + r);
           peak' = (if peak < equity' then equity' else peak);
           max_dd' = (if 0 < peak' then
               let dd = (peak' - equity') / peak' in if max_dd < dd then dd else max_dd
             else max_dd)
       in (equity', peak', max_dd'))"

definition SimulatePath :: "double list \<Rightarrow> double \<Rightarrow> double \<times> double" where
  "SimulatePath returns initial =
     (case foldl path_step (initial, initial, 0) returns of (equity, peak, max_dd) \<Rightarrow> (equity, - max_dd))"

definition Percentile :: "double list \<Rightarrow> double \<Rightarrow> double result" where
  "Percentile values quantile =
     (if values = [] then Inr 0
      else ebind (of_option (UndefinedBehaviour ''static_cast<std::size_t>'')
            (to_size (quantile * of_size (length values - 1) + lit (1/2))))
          (\<lambda>index. let index' = (if length values \<le> index then length values - 1 else index)
             in Inr (values ! index')))"

definition kMaxMonteCarloSimulations :: int where
  "kMaxMonteCarloSimulations = 100000"

definition make_MonteCarloSimulator :: "int \<Rightarrow> 64 word option \<Rightarrow> MonteCarloSimulator" where
  "make_MonteCarloSimulator simulations seed =
     (let s = (if simulations < 0 then 0 else simulations);
          s' = (if kMaxMonteCarloSimulations < s then kMaxMonteCarloSimulations else s)
      in \<lparr>mcs_simulations = s', mcs_seed = seed\<rparr>)"

text \<open>The loop over the simulations: every path shuffles a fresh copy of the returns.\<close>

definition simulate ::
    "('g \<Rightarrow> double list \<Rightarrow> double list \<times> 'g) \<Rightarrow> double list \<Rightarrow> double \<Rightarrow> 'g \<Rightarrow> nat \<Rightarrow> (double \<times> double) list" where
  "simulate shuffle returns initial_capital rng n =
     for_push (\<lambda>g i. let (shuffled, g') = shuffle g returns in (g', SimulatePath shuffled initial_capital)) rng [0..<n]"

definition std_sort :: "double list \<Rightarrow> double list result" where
  "std_sort xs = of_option (UndefinedBehaviour ''std::sort of NaN'') (sort_d xs)"

definition FromReturns ::
    "(64 word \<Rightarrow> 'g) \<Rightarrow> 'g \<Rightarrow> ('g \<Rightarrow> double list \<Rightarrow> double list \<times> 'g) \<Rightarrow>
     MonteCarloSimulator \<Rightarrow> double list \<Rightarrow> double \<Rightarrow> MonteCarloResult result" where
  "FromReturns seed_rng entropy_rng shuffle sim returns initial_capital =
     (if returns = [] \<or> mcs_simulations sim = 0 then
        Inr \<lparr>mc_simulations = mcs_simulations sim,
          mc_final_equity_ci = \<lparr>ci_lower = initial_capital, ci_upper = initial_capital\<rparr>,
          mc_max_drawdown_ci = \<lparr>ci_lower = 0, ci_upper = 0\<rparr>,
          mc_initial_capital = initial_capital\<rparr>
      else
        let rng = MakeRNG seed_rng entropy_rng (mcs_seed sim);
            paths = simulate shuffle returns initial_capital rng (nat (mcs_simulations sim))
        in ebind (std_sort (map fst paths)) (\<lambda>final_equities.
           ebind (std_sort (map snd paths)) (\<lambda>max_drawdowns.
           ebind (Percentile final_equities (lit (5/100))) (\<lambda>fl.
           ebind (Percentile final_equities (lit (95/100))) (\<lambda>fu.
           ebind (Percentile max_drawdowns (lit (5/100))) (\<lambda>dl.
           ebind (Percentile max_drawdowns (lit (95/100))) (\<lambda>du.
             Inr \<lparr>mc_simulations = mcs_simulations sim,
               mc_final_equity_ci = \<lparr>ci_lower = fl, ci_upper = fu\<rparr>,
               mc_max_drawdown_ci = \<lparr>ci_lower = dl, ci_upper = du\<rparr>,
               mc_initial_capital = initial_capital\<rparr>)))))))"

definition trade_returns :: "Trade list \<Rightarrow> double list" where
  "trade_returns trades =
     map (\<lambda>t. let cost = tr_entry_price t * tr_quantity t in if deq cost 0 then 0 else tr_pnl t / cost) trades"

definition FromTrades ::
    "(64 word \<Rightarrow> 'g) \<Rightarrow> 'g \<Rightarrow> ('g \<Rightarrow> double list \<Rightarrow> double list \<times> 'g) \<Rightarrow>
     MonteCarloSimulator \<Rightarrow> Trade list \<Rightarrow> double \<Rightarrow> MonteCarloResult result" where
  "FromTrades seed_rng entropy_rng shuffle sim trades initial_capital =
     FromReturns seed_rng entropy_rng shuffle sim (trade_returns trades) initial_capital"

section \<open>Percentiles\<close>

text \<open>The position a quantile selects is in range, and grows with the quantile.\<close>

definition rank_of :: "rat \<Rightarrow> nat \<Rightarrow> rat" where
  "rank_of q n = crnd (crnd (crnd q * of_nat n) + 1/2)"

lemma rank_key:
  assumes "0 \<le> q" "q \<le> 1" "n < 2 ^ 53"
  defines "s \<equiv> lit q * of_size n + lit (1/2)"
  shows "key s = rank_of q n" "\<not> isnan s" "0 \<le> rank_of q n" "rank_of q n \<le> of_nat n + 1"
proof -
  have rn: "crnd (of_nat n) = of_nat n" using repr_of_int [of "int n"] assms(3) by (simp add: crnd_repr)
  have "(of_nat n + 1 :: rat) = of_int (int n + 1)" by simp
  then have rn1: "crnd (of_nat n + 1) = of_nat n + 1" using repr_of_int [of "int n + 1"] assms(3)
    by (metis (mono_tags) abs_of_nonneg crnd_repr of_nat_less_iff of_nat_numeral of_nat_power zless_imp_add1_zle
        add_nonneg_nonneg of_nat_0_le_iff zero_le_one)
  have rh: "repr (1/2)" using repr_half [of 1 1] by simp
  have fh: "isfinite (lit (1/2))" and kh: "key (lit (1/2)) = 1/2" using rh by (simp_all add: isfinite_lit_repr key_lit_repr)
  have kq: "0 \<le> crnd q" "crnd q \<le> 1"
    using crnd_mono [OF assms(1)] crnd_mono [OF assms(2)] by (simp_all add: crnd_repr)
  then have fq: "isfinite (lit q)" using isfinite_between [of "lit q" 1] by (simp add: le_key key_lit)
  have fn: "isfinite (of_size n)" using assms(3) by (simp add: isfinite_of_size)
  have kn: "key (of_size n) = of_nat n" by (simp add: key_of_size rn)
  let ?m = "lit q * of_size n"
  have m: "key ?m = crnd (crnd q * of_nat n)" "\<not> isnan ?m" using mul_finite [OF fq fn] kn by (simp_all add: key_lit)
  have "crnd q * of_nat n \<le> 1 * of_nat n" using kq by (intro mult_right_mono) auto
  then have km: "0 \<le> key ?m" "key ?m \<le> of_nat n"
    using kq crnd_mono [of "crnd q * of_nat n" "of_nat n"] rn m by (simp_all add: crnd_nonneg)
  have fm: "isfinite ?m" using isfinite_between [of ?m "of_size n"] km fn \<open>\<not> isnan ?m\<close> kn by (simp add: le_key)
  show "key s = rank_of q n" "\<not> isnan s" using add_finite [OF fm fh] kh m by (simp_all add: s_def rank_of_def)
  then show "0 \<le> rank_of q n" "rank_of q n \<le> of_nat n + 1"
    using km m crnd_mono [of "key ?m + 1/2" "of_nat n + 1"] rn1 by (simp_all add: crnd_nonneg rank_of_def)
qed

lemma rank_of_mono: "p \<le> q \<Longrightarrow> rank_of p n \<le> rank_of q n"
  unfolding rank_of_def by (intro crnd_mono add_right_mono mult_right_mono) auto

lemma rank_size:
  assumes "0 \<le> q" "q \<le> 1" "n < 2 ^ 53"
  shows "to_size (lit q * of_size n + lit (1/2)) = Some (nat \<lfloor>rank_of q n\<rfloor>)"
proof -
  note r = rank_key [OF assms]
  have "(of_nat n :: rat) < 2 ^ 53" using assms(3) by (metis of_nat_less_iff of_nat_numeral of_nat_power)
  then have "\<bar>rank_of q n\<bar> < big" "rank_of q n < 2 ^ 64" using r(3,4) by (simp_all add: big_def)
  then show ?thesis using r by (simp add: to_size_def isfinite_key)
qed

lemma Percentile_nth:
  assumes "vs \<noteq> []" "0 \<le> q" "q \<le> 1" "length vs < 2 ^ 53"
  shows "Percentile vs (lit q) = Inr (vs ! min (nat \<lfloor>rank_of q (length vs - 1)\<rfloor>) (length vs - 1))"
proof -
  obtain n where n: "length vs = Suc n" using assms(1) by (cases vs) auto
  then have "to_size (lit q * of_size n + lit (1/2)) = Some (nat \<lfloor>rank_of q n\<rfloor>)" using rank_size assms by simp
  then show ?thesis using assms(1) n by (simp add: Percentile_def min_def)
qed

lemma Percentile_order:
  assumes "sorted_wrt (\<le>) vs" "vs \<noteq> []" "\<forall>v \<in> set vs. \<not> isnan v" "0 \<le> p" "p \<le> q" "q \<le> 1"
    "length vs < 2 ^ 53"
  shows "\<exists>a b. Percentile vs (lit p) = Inr a \<and> Percentile vs (lit q) = Inr b \<and> a \<le> b \<and>
    a \<in> set vs \<and> b \<in> set vs"
proof -
  let ?n = "length vs - 1"
  let ?i = "min (nat \<lfloor>rank_of p ?n\<rfloor>) ?n" and ?j = "min (nat \<lfloor>rank_of q ?n\<rfloor>) ?n"
  have "?i \<le> ?j" using rank_of_mono [OF assms(5), of ?n] by (intro min.mono nat_mono floor_mono) auto
  moreover have j: "?i < length vs" "?j < length vs" using assms(2) by (simp_all add: min_less_iff_disj)
  ultimately have "vs ! ?i \<le> vs ! ?j"
    using sorted_wrt_nth_less [OF assms(1)] assms(3) by (metis le_neq_implies_less le_refl_d nth_mem)
  moreover have "Percentile vs (lit p) = Inr (vs ! ?i)" "Percentile vs (lit q) = Inr (vs ! ?j)"
    using assms Percentile_nth [of vs p] Percentile_nth [of vs q] order_trans [OF assms(4,5)] order_trans [OF assms(5,6)]
    by blast+
  ultimately show ?thesis using j nth_mem by blast
qed

section \<open>Paths and simulations\<close>

text \<open>Returns of at least -1 keep the equity of a path from below 0.\<close>

lemma path_step_eq:
  "path_step (e, k, m) r =
     (let e' = e * (1 + r); (k', m') = drawdown_step (k, m) \<lparr>ep_date = 0, ep_equity = e'\<rparr> in (e', k', m'))"
  by (simp add: path_step_def drawdown_step_def Let_def)

lemma path_range:
  assumes "0 \<le> m"
  shows "0 \<le> snd (snd (foldl path_step (e, k, m) returns)) \<and>
    (nn e \<and> m \<le> 1 \<and> (\<forall>r \<in> set returns. nn (1 + r)) \<longrightarrow>
       nn (fst (foldl path_step (e, k, m) returns)) \<and> snd (snd (foldl path_step (e, k, m) returns)) \<le> 1)"
  using assms
proof (induction returns arbitrary: e k m)
  case (Cons r returns)
  let ?p = "\<lparr>ep_date = 0, ep_equity = e * (1 + r)\<rparr>"
  let ?d = "drawdown_step (k, m) ?p"
  have s: "foldl path_step (e, k, m) (r # returns) = foldl path_step (e * (1 + r), fst ?d, snd ?d) returns"
    by (simp add: path_step_eq Let_def case_prod_beta)
  have "0 \<le> snd ?d" using drawdown_step_range [of "(k, m)"] Cons.prems by simp
  note IH = Cons.IH [OF this, of "e * (1 + r)" "fst ?d"]
  have "nn e \<Longrightarrow> nn (1 + r) \<Longrightarrow> nn (e * (1 + r))" by (rule nn_mul)
  moreover have "m \<le> 1 \<Longrightarrow> nn (e * (1 + r)) \<Longrightarrow> snd ?d \<le> 1" using drawdown_step_le_1 [of "(k, m)" ?p] by simp
  ultimately show ?case unfolding s using IH by (metis list.set_intros)
qed simp

lemma SimulatePath_range:
  "snd (SimulatePath returns initial) \<le> 0"
  "nn initial \<Longrightarrow> \<forall>r \<in> set returns. nn (1 + r) \<Longrightarrow>
     nn (fst (SimulatePath returns initial)) \<and> - 1 \<le> snd (SimulatePath returns initial)"
  using path_range [of 0 initial initial returns]
  by (auto simp: SimulatePath_def neg_le_neg le_key [of 0 0] le_key [of 0 1] split: prod.splits)

lemma simulate_paths:
  assumes "\<And>g xs. mset (fst (shuffle g xs)) = mset xs" "path \<in> set (simulate shuffle returns initial rng n)"
  shows "\<exists>perm. mset perm = mset returns \<and> path = SimulatePath perm initial"
proof -
  have "\<forall>path \<in> set (simulate shuffle returns initial rng n). \<exists>perm. mset perm = mset returns \<and> path = SimulatePath perm initial"
    unfolding simulate_def using assms(1)
    by (intro for_push_inv [where P = "\<lambda>_. True"]) (auto simp: Let_def case_prod_beta)
  then show ?thesis using assms by blast
qed

lemma std_sort_Inr:
  "std_sort xs = Inr ys \<Longrightarrow> mset ys = mset xs \<and> sorted_wrt (\<le>) ys \<and> (\<forall>y \<in> set ys. \<not> isnan y) \<and>
     set ys = set xs \<and> length ys = length xs"
  by (auto simp: std_sort_def of_option_def dest!: sort_d_SomeD split: option.splits)
    (metis set_mset_mset size_mset)+

lemma std_sort_ok: "\<forall>x \<in> set xs. \<not> isnan x \<Longrightarrow> \<exists>ys. std_sort xs = Inr ys"
  by (auto simp: std_sort_def sort_d_def list_ex_iff)

lemma sorted_percentiles:
  assumes "std_sort xs = Inr ys" "xs \<noteq> []" "length xs < 2 ^ 53"
  shows "\<exists>a b. Percentile ys (lit (5/100)) = Inr a \<and> Percentile ys (lit (95/100)) = Inr b \<and> a \<le> b \<and>
    a \<in> set xs \<and> b \<in> set xs"
proof -
  note y = std_sort_Inr [OF assms(1)]
  then have "ys \<noteq> []" "length ys < 2 ^ 53" using assms(2,3) by (metis length_0_conv, metis)
  then show ?thesis using Percentile_order [of ys "5/100" "95/100"] y by auto
qed

lemma simulate_length: "length (simulate shuffle returns initial rng n) = n"
  by (simp add: simulate_def)

lemma FromReturns_paths:
  assumes "FromReturns seed_rng entropy_rng shuffle sim returns initial = Inr r"
    and "returns \<noteq> []" "0 < mcs_simulations sim" "mcs_simulations sim \<le> kMaxMonteCarloSimulations"
  defines "paths \<equiv> simulate shuffle returns initial (MakeRNG seed_rng entropy_rng (mcs_seed sim)) (nat (mcs_simulations sim))"
  shows "ci_lower (mc_final_equity_ci r) \<le> ci_upper (mc_final_equity_ci r)"
    "ci_lower (mc_max_drawdown_ci r) \<le> ci_upper (mc_max_drawdown_ci r)"
    "{ci_lower (mc_final_equity_ci r), ci_upper (mc_final_equity_ci r)} \<subseteq> fst ` set paths"
    "{ci_lower (mc_max_drawdown_ci r), ci_upper (mc_max_drawdown_ci r)} \<subseteq> snd ` set paths"
proof -
  from assms(1) [unfolded FromReturns_def Let_def] assms(2,3) obtain es ds fl fu dl du where
    s: "std_sort (map fst paths) = Inr es" "std_sort (map snd paths) = Inr ds"
    and p: "Percentile es (lit (5/100)) = Inr fl" "Percentile es (lit (95/100)) = Inr fu"
      "Percentile ds (lit (5/100)) = Inr dl" "Percentile ds (lit (95/100)) = Inr du"
    and r: "mc_final_equity_ci r = \<lparr>ci_lower = fl, ci_upper = fu\<rparr>"
      "mc_max_drawdown_ci r = \<lparr>ci_lower = dl, ci_upper = du\<rparr>"
    by (auto simp: ebind_Inr_iff paths_def)
  have l: "length paths = nat (mcs_simulations sim)" by (simp add: paths_def simulate_length)
  then have ne: "map fst paths \<noteq> []" "map snd paths \<noteq> []" "length (map fst paths) < 2 ^ 53"
      "length (map snd paths) < 2 ^ 53"
    using assms(3,4) by (auto simp: kMaxMonteCarloSimulations_def)
  note f = sorted_percentiles [OF s(1) ne(1,3)] and d = sorted_percentiles [OF s(2) ne(2,4)]
  show "ci_lower (mc_final_equity_ci r) \<le> ci_upper (mc_final_equity_ci r)"
    "{ci_lower (mc_final_equity_ci r), ci_upper (mc_final_equity_ci r)} \<subseteq> fst ` set paths"
    using f p r by auto
  show "ci_lower (mc_max_drawdown_ci r) \<le> ci_upper (mc_max_drawdown_ci r)"
    "{ci_lower (mc_max_drawdown_ci r), ci_upper (mc_max_drawdown_ci r)} \<subseteq> snd ` set paths"
    using d p r by auto
qed

lemma FromReturns_defined:
  assumes "mcs_simulations sim \<le> kMaxMonteCarloSimulations" "0 \<le> mcs_simulations sim"
    and "\<forall>path \<in> set (simulate shuffle returns initial (MakeRNG seed_rng entropy_rng (mcs_seed sim))
        (nat (mcs_simulations sim))). \<not> isnan (fst path) \<and> \<not> isnan (snd path)"
  shows "\<exists>r. FromReturns seed_rng entropy_rng shuffle sim returns initial = Inr r"
proof (cases "returns = [] \<or> mcs_simulations sim = 0")
  case False
  let ?paths = "simulate shuffle returns initial (MakeRNG seed_rng entropy_rng (mcs_seed sim)) (nat (mcs_simulations sim))"
  have l: "length ?paths = nat (mcs_simulations sim)" by (simp add: simulate_length)
  then have ne: "map fst ?paths \<noteq> []" "map snd ?paths \<noteq> []" "length (map fst ?paths) < 2 ^ 53"
      "length (map snd ?paths) < 2 ^ 53"
    using assms(1,2) False by (auto simp: kMaxMonteCarloSimulations_def)
  obtain es where e: "std_sort (map fst ?paths) = Inr es" using std_sort_ok [of "map fst ?paths"] assms(3) by auto
  obtain ds where d: "std_sort (map snd ?paths) = Inr ds" using std_sort_ok [of "map snd ?paths"] assms(3) by auto
  show ?thesis using False sorted_percentiles [OF e ne(1,3)] sorted_percentiles [OF d ne(2,4)]
    by (auto simp: FromReturns_def Let_def e d)
qed (simp add: FromReturns_def)

lemma simulations_clamped:
  "0 \<le> mcs_simulations (make_MonteCarloSimulator n seed)"
  "mcs_simulations (make_MonteCarloSimulator n seed) \<le> kMaxMonteCarloSimulations"
  by (simp_all add: make_MonteCarloSimulator_def Let_def kMaxMonteCarloSimulations_def)

section \<open>Paths without NaN\<close>

lemma mul_inf_pos: "isinf e \<Longrightarrow> 0 < f \<Longrightarrow> \<not> isnan (e * f :: double)"
  by transfer (auto simp: fp_mul_def)

lemma mul_pos_finite: "0 \<le> e \<Longrightarrow> 0 < f \<Longrightarrow> isfinite f \<Longrightarrow> 0 \<le> e * (f :: double)"
  using mul_nonneg [of e f] mul_finite [of e f] mul_inf_pos [of e f] double_cases [of e] less_imp_le_d [of 0 f]
    not_le_nan(2) [of e 0] by blast

text \<open>A drawdown that is NaN is not larger than the one kept, so the one kept stays a number.\<close>

lemma path_not_nan:
  assumes "0 \<le> e" "\<not> isnan m" "\<forall>r \<in> set returns. 0 < 1 + r \<and> isfinite (1 + r)"
  shows "\<not> isnan (fst (foldl path_step (e, k, m) returns)) \<and> \<not> isnan (snd (snd (foldl path_step (e, k, m) returns)))"
  using assms
proof (induction returns arbitrary: e k m)
  case (Cons r returns)
  obtain e' k' m' where s: "path_step (e, k, m) r = (e', k', m')" by (metis prod_cases3)
  have "e' = e * (1 + r)" using s by (auto simp: path_step_def Let_def)
  then have "0 \<le> e'" using mul_pos_finite Cons.prems by simp
  moreover have "\<not> isnan m'" using s Cons.prems(2) by (auto simp: path_step_def Let_def less_key split: if_splits)
  ultimately show ?case using Cons.IH [of e' m' k'] Cons.prems(3) s by simp
qed (auto simp: le_key)

lemma FromReturns_growing:
  assumes "\<And>g xs. mset (fst (shuffle g xs)) = mset xs" "0 \<le> initial"
    and "\<forall>r \<in> set returns. 0 < 1 + r \<and> isfinite (1 + r)"
  shows "\<exists>result. FromReturns seed_rng entropy_rng shuffle (make_MonteCarloSimulator n seed) returns initial = Inr result"
proof (rule FromReturns_defined [OF simulations_clamped(2,1)], rule ballI)
  let ?sim = "make_MonteCarloSimulator n seed"
  fix path
  assume path: "path \<in> set (simulate shuffle returns initial (MakeRNG seed_rng entropy_rng (mcs_seed ?sim))
      (nat (mcs_simulations ?sim)))"
  obtain perm where p: "mset perm = mset returns" "path = SimulatePath perm initial"
    using simulate_paths [of shuffle, OF assms(1) path] by blast
  then have "\<forall>r \<in> set perm. 0 < 1 + r \<and> isfinite (1 + r)" using assms(3) by (metis mset_eq_setD)
  from path_not_nan [OF assms(2) _ this, of 0 initial]
  show "\<not> isnan (fst path) \<and> \<not> isnan (snd path)" by (simp add: p SimulatePath_def case_prod_beta)
qed

lemma growing_sample: "\<forall>r \<in> set [lit (1/4), lit (1/2)]. 0 < 1 + r \<and> isfinite (1 + r)"
proof -
  have r: "repr (1/4)" "repr (1/2)" "repr (5/4)" "repr (3/2)"
    using repr_half [of 1 2] repr_half [of 1 1] repr_half [of 5 2] repr_half [of 3 1] by simp_all
  then have "1 + lit (1/4) = lit (5/4)" "1 + lit (1/2) = lit (3/2)"
    using lit_add [of 1 "1/4"] lit_add [of 1 "1/2"] by (simp_all add: lit_1)
  then show ?thesis using r by (simp add: less_key isfinite_lit_repr key_lit_repr)
qed

text \<open>A run whose shuffle reverses the returns.\<close>

lemma reversing_run:
  "\<exists>r. FromReturns id 0 (\<lambda>g xs. (rev xs, g + 1)) (make_MonteCarloSimulator 3 seed)
     [lit (1/4), lit (1/2)] (lit 100) = Inr r"
  by (rule FromReturns_growing) (auto simp: growing_sample le_key key_lit_repr)

section \<open>Properties\<close>

text \<open>For a shuffle that permutes, both confidence intervals are ordered and each of their four bounds
  is the final equity, or the drawdown, of the path of some reordering of the returns.\<close>

theorem mc_confidence:
  assumes "\<And>g xs. mset (fst (shuffle g xs)) = mset xs" "returns \<noteq> []" "0 < n"
    and "FromReturns seed_rng entropy_rng shuffle (make_MonteCarloSimulator n seed) returns initial = Inr r"
  defines "equities \<equiv> mc_final_equity_ci r" and "drawdowns \<equiv> mc_max_drawdown_ci r"
  shows "ci_lower equities \<le> ci_upper equities \<and> ci_lower drawdowns \<le> ci_upper drawdowns \<and>
    (\<forall>e \<in> {ci_lower equities, ci_upper equities}. \<exists>perm. mset perm = mset returns \<and> e = fst (SimulatePath perm initial)) \<and>
    (\<forall>d \<in> {ci_lower drawdowns, ci_upper drawdowns}. \<exists>perm. mset perm = mset returns \<and> d = snd (SimulatePath perm initial))"
proof -
  let ?sim = "make_MonteCarloSimulator n seed"
  let ?paths = "simulate shuffle returns initial (MakeRNG seed_rng entropy_rng (mcs_seed ?sim)) (nat (mcs_simulations ?sim))"
  have "0 < mcs_simulations ?sim" using assms(3) by (simp add: make_MonteCarloSimulator_def Let_def kMaxMonteCarloSimulations_def)
  note f = FromReturns_paths [OF assms(4,2) this simulations_clamped(2), folded equities_def drawdowns_def]
  have p: "\<exists>perm. mset perm = mset returns \<and> x = h (SimulatePath perm initial)" if "x \<in> h ` set ?paths" for x h
  proof -
    obtain path where path: "path \<in> set ?paths" "x = h path" using \<open>x \<in> h ` set ?paths\<close> by (rule imageE)
    show ?thesis using simulate_paths [of shuffle, OF assms(1) path(1)] path(2) by blast
  qed
  have "\<exists>perm. mset perm = mset returns \<and> e = fst (SimulatePath perm initial)"
    if "e \<in> {ci_lower equities, ci_upper equities}" for e
    by (rule p, rule subsetD [OF f(3) that])
  moreover have "\<exists>perm. mset perm = mset returns \<and> d = snd (SimulatePath perm initial)"
    if "d \<in> {ci_lower drawdowns, ci_upper drawdowns}" for d
    by (rule p, rule subsetD [OF f(4) that])
  ultimately show ?thesis using f(1,2) by blast
qed

theorem mc_confidence_witness:
  "\<exists>r. FromReturns id 0 (\<lambda>g xs. (rev xs, g + 1)) (make_MonteCarloSimulator 3 (Some 7))
      [lit (1/4), lit (1/2)] (lit 100) = Inr r \<and>
     ci_lower (mc_final_equity_ci r) \<le> ci_upper (mc_final_equity_ci r)"
proof -
  obtain r where r: "FromReturns id 0 (\<lambda>g xs. (rev xs, g + 1)) (make_MonteCarloSimulator 3 (Some 7))
      [lit (1/4), lit (1/2)] (lit 100) = Inr r"
    using reversing_run [of "Some 7"] by blast
  from mc_confidence [of "\<lambda>g xs. (rev xs, g + 1)", OF _ _ _ r, THEN conjunct1]
  show ?thesis using r by simp
qed

text \<open>C25: when every growth factor \<open>1 + r\<close> is finite and positive and the initial capital is a number that is
  not negative, a simulation always gives a result: no path value is NaN, so \<^verbatim>\<open>std::sort\<close> is defined.\<close>

theorem mc_defined:
  assumes "\<And>g xs. mset (fst (shuffle g xs)) = mset xs" "0 \<le> initial"
    and "\<forall>r \<in> set returns. 0 < 1 + r \<and> isfinite (1 + r)"
  shows "\<exists>result. FromReturns seed_rng entropy_rng shuffle (make_MonteCarloSimulator n seed) returns initial = Inr result"
  by (rule FromReturns_growing [OF assms])

theorem mc_defined_witness:
  "\<exists>result. FromReturns id 0 (\<lambda>g xs. (rev xs, g + 1)) (make_MonteCarloSimulator 3 None)
      [lit (1/4), lit (1/2)] (lit 100) = Inr result"
  by (rule mc_defined) (auto simp: growing_sample le_key key_lit_repr)

text \<open>When no growth factor and not the initial capital is negative, the bounds of the drawdown interval
  lie between -1 and 0, and those of the equity interval are not negative.\<close>

theorem mc_drawdown:
  assumes "\<And>g xs. mset (fst (shuffle g xs)) = mset xs" "returns \<noteq> []" "0 < n"
    and "FromReturns seed_rng entropy_rng shuffle (make_MonteCarloSimulator n seed) returns initial = Inr r"
    and "0 \<le> initial" "\<forall>r \<in> set returns. 0 \<le> 1 + r"
  shows "\<forall>d \<in> {ci_lower (mc_max_drawdown_ci r), ci_upper (mc_max_drawdown_ci r)}. - 1 \<le> d \<and> d \<le> 0"
proof -
  let ?sim = "make_MonteCarloSimulator n seed"
  let ?paths = "simulate shuffle returns initial (MakeRNG seed_rng entropy_rng (mcs_seed ?sim)) (nat (mcs_simulations ?sim))"
  have s: "0 < mcs_simulations ?sim" using assms(3) by (simp add: make_MonteCarloSimulator_def Let_def kMaxMonteCarloSimulations_def)
  have "- 1 \<le> snd path \<and> snd path \<le> 0" if path: "path \<in> set ?paths" for path
  proof -
    obtain perm where p: "mset perm = mset returns" "path = SimulatePath perm initial"
      using simulate_paths [of shuffle, OF assms(1) path] by blast
    then have "\<forall>r \<in> set perm. nn (1 + r)" using assms(6) by (metis mset_eq_setD nn_def)
    then show ?thesis using SimulatePath_range(1) [of perm initial] SimulatePath_range(2) [of initial perm] assms(5) p
      by (simp add: nn_def)
  qed
  then have "\<forall>d \<in> snd ` set ?paths. - 1 \<le> d \<and> d \<le> 0" by blast
  then show ?thesis using FromReturns_paths(4) [OF assms(4,2) s simulations_clamped(2)] by (meson subsetD)
qed

theorem mc_drawdown_witness:
  "\<exists>r. FromReturns id 0 (\<lambda>g xs. (rev xs, g + 1)) (make_MonteCarloSimulator 3 (Some 7))
      [lit (1/4), lit (1/2)] (lit 100) = Inr r \<and> - 1 \<le> ci_lower (mc_max_drawdown_ci r)"
proof -
  obtain r where "FromReturns id 0 (\<lambda>g xs. (rev xs, g + 1)) (make_MonteCarloSimulator 3 (Some 7))
      [lit (1/4), lit (1/2)] (lit 100) = Inr r"
    using reversing_run [of "Some 7"] by blast
  moreover have "\<forall>r \<in> set [lit (1/4), lit (1/2)]. 0 \<le> 1 + r" using growing_sample by (auto intro: less_imp_le_d)
  ultimately show ?thesis
    using mc_drawdown [of "\<lambda>g xs. (rev xs, g + 1)" "[lit (1/4), lit (1/2)]" 3 id 0 "Some 7" "lit 100" r]
    by (simp add: le_key key_lit_repr del: list.set)
qed

end
