(* ===== verification/Risk_Return.thy ===== *)
theory Risk_Return
  imports Monte_Carlo
begin

text \<open>
  \<^verbatim>\<open>metrics/\<close>: the risk and return metrics of a price series. \<^verbatim>\<open>std::pow\<close>, whose rounding C++ does not
  fix, is the argument \<open>pow\<close>.
\<close>

record ReturnMetrics =
  rm_cumulative_return :: double
  rm_cagr :: double
  rm_annualized_volatility :: double

record RiskMetrics =
  km_sharpe_ratio :: double
  km_sortino_ratio :: double
  km_max_drawdown :: double
  km_calmar_ratio :: double
  km_var_95 :: double
  km_cvar_95 :: double
  km_volatility :: double

definition kDefaultRiskFreeRate :: double where "kDefaultRiskFreeRate = lit (2/100)"
definition kTradingDaysPerYear :: double where "kTradingDaysPerYear = lit 252"
definition kVaRQuantile :: double where "kVaRQuantile = lit (5/100)"

definition ComputeReturns :: "double list \<Rightarrow> double list" where
  "ComputeReturns prices = map (\<lambda>i. prices ! i / prices ! (i - 1) - 1) [1..<length prices]"

definition CumulativeReturn :: "double list \<Rightarrow> double" where
  "CumulativeReturn returns = foldl (\<lambda>product r. product * (1 + r)) 1 returns - 1"

definition metrics_Mean :: "double list \<Rightarrow> double" where
  "metrics_Mean vs = (if vs = [] then quiet_NaN else foldl (+) 0 vs / of_size (length vs))"

definition AnnualizedVolatility :: "double list \<Rightarrow> double" where
  "AnnualizedVolatility returns =
     (if length returns < 2 then 0
      else let mean = metrics_Mean returns;
               sum_sq = foldl (\<lambda>s r. let d = r - mean in s + d * d) 0 returns;
               variance = sum_sq / of_size (length returns)
           in dsqrt variance * dsqrt kTradingDaysPerYear)"

definition SharpeRatio :: "double \<Rightarrow> double \<Rightarrow> double \<Rightarrow> double" where
  "SharpeRatio cagr volatility risk_free_rate =
     (if volatility \<le> 0 \<or> \<not> isfinite volatility then quiet_NaN else (cagr - risk_free_rate) / volatility)"

definition SortinoRatio :: "double list \<Rightarrow> double \<Rightarrow> double \<Rightarrow> double" where
  "SortinoRatio returns cagr risk_free_rate =
     (if returns = [] then quiet_NaN
      else let periodic_rf = risk_free_rate / kTradingDaysPerYear;
               downside_sum = foldl (\<lambda>s r. let d = r - periodic_rf in if d < 0 then s + d * d else s) 0 returns;
               downside_deviation = dsqrt (downside_sum / of_size (length returns)) * dsqrt kTradingDaysPerYear
           in if downside_deviation \<le> 0 \<or> \<not> isfinite downside_deviation then quiet_NaN
              else (cagr - risk_free_rate) / downside_deviation)"

definition metrics_drawdown_step :: "double \<times> double \<times> double \<Rightarrow> double \<Rightarrow> double \<times> double \<times> double" where
  "metrics_drawdown_step st r =
     (case st of (equity, peak, max_dd) \<Rightarrow>
       let equity' = equity * (1 + r);
           peak' = (if peak < equity' then equity' else peak);
           drawdown = (peak' - equity') / peak'
       in (equity', peak', if max_dd < drawdown then drawdown else max_dd))"

definition MaxDrawdown :: "double list \<Rightarrow> double" where
  "MaxDrawdown returns = - snd (snd (foldl metrics_drawdown_step (1, 1, 0) returns))"

text \<open>The conversion of the \<^verbatim>\<open>long\<close> to \<^verbatim>\<open>std::size_t\<close> is modulo \<open>2 ^ 64\<close>.\<close>

definition HistoricalVaR :: "double list \<Rightarrow> double \<Rightarrow> double result" where
  "HistoricalVaR returns quantile =
     (if returns = [] then Inr quiet_NaN
      else ebind (std_sort returns) (\<lambda>sorted.
           ebind (of_option (UndefinedBehaviour ''std::lround'') (lround (quantile * of_size (length sorted - 1))))
             (\<lambda>rank. let index = nat (rank mod 2 ^ 64); clamped_index = min index (length sorted - 1)
                in Inr (sorted ! clamped_index))))"

definition HistoricalCVaR :: "double list \<Rightarrow> double \<Rightarrow> double result" where
  "HistoricalCVaR returns quantile =
     ebind (HistoricalVaR returns quantile) (\<lambda>var_value.
       if \<not> isfinite var_value then Inr quiet_NaN
       else let (total, count) =
                  foldl (\<lambda>(s, c) r. if r \<le> var_value then (s + r, c + 1) else (s, c)) (0, 0 :: nat) returns
            in Inr (if count = 0 then quiet_NaN else total / of_size count))"

definition CalmarRatio :: "double \<Rightarrow> double \<Rightarrow> double" where
  "CalmarRatio cagr max_drawdown =
     (let dd = \<bar>max_drawdown\<bar> in if dd \<le> 0 then quiet_NaN else cagr / dd)"

fun check_prices :: "nat \<Rightarrow> double list \<Rightarrow> unit result" where
  "check_prices i [] = Inr ()"
| "check_prices i (p # ps) =
     (if p \<le> 0 \<or> \<not> isfinite p then
        Inl (InvalidPricesError [T ''price at index '', N i, T '' must be positive and finite (got '', D p, T '')''])
      else check_prices (i + 1) ps)"

definition ValidatePrices :: "double list \<Rightarrow> unit result" where
  "ValidatePrices prices =
     ebind (throw_if (length prices < 2)
         (InsufficientDataError [T ''at least two close prices required, got '', N (length prices)]))
       (\<lambda>_. check_prices 0 prices)"

definition cagr_of :: "(double \<Rightarrow> double \<Rightarrow> double) \<Rightarrow> double list \<Rightarrow> double" where
  "cagr_of pow returns =
     (let cumulative = CumulativeReturn returns; periods = of_size (length returns)
      in pow (1 + cumulative) (kTradingDaysPerYear / periods) - 1)"

definition CalculateReturnMetrics :: "(double \<Rightarrow> double \<Rightarrow> double) \<Rightarrow> double list \<Rightarrow> double \<Rightarrow> ReturnMetrics result" where
  "CalculateReturnMetrics pow series risk_free_rate =
     ebind (ValidatePrices series) (\<lambda>_.
       let returns = ComputeReturns series
       in Inr \<lparr>rm_cumulative_return = CumulativeReturn returns, rm_cagr = cagr_of pow returns,
            rm_annualized_volatility = AnnualizedVolatility returns\<rparr>)"

definition CalculateRiskMetrics :: "(double \<Rightarrow> double \<Rightarrow> double) \<Rightarrow> double list \<Rightarrow> double \<Rightarrow> RiskMetrics result" where
  "CalculateRiskMetrics pow series risk_free_rate =
     ebind (ValidatePrices series) (\<lambda>_.
       let returns = ComputeReturns series;
           cagr = cagr_of pow returns;
           vol = AnnualizedVolatility returns;
           max_dd = MaxDrawdown returns
       in ebind (HistoricalVaR returns kVaRQuantile) (\<lambda>var.
          ebind (HistoricalCVaR returns kVaRQuantile) (\<lambda>cvar.
            Inr \<lparr>km_sharpe_ratio = SharpeRatio cagr vol risk_free_rate,
              km_sortino_ratio = SortinoRatio returns cagr risk_free_rate,
              km_max_drawdown = max_dd, km_calmar_ratio = CalmarRatio cagr max_dd,
              km_var_95 = var, km_cvar_95 = cvar, km_volatility = vol\<rparr>)))"

section \<open>Valid prices\<close>

definition bad_price :: "double \<Rightarrow> bool" where
  "bad_price p \<longleftrightarrow> p \<le> 0 \<or> \<not> isfinite p"

declare bad_price_def [simp]

lemma check_prices_Inr: "check_prices i ps = Inr u \<longleftrightarrow> (\<forall>p \<in> set ps. \<not> bad_price p)"
  by (induction ps arbitrary: i) auto

lemma check_prices_Inl:
  "check_prices i ps = Inl e \<longleftrightarrow> (\<exists>k < length ps. bad_price (ps ! k) \<and> (\<forall>j < k. \<not> bad_price (ps ! j)) \<and>
     e = InvalidPricesError [T ''price at index '', N (i + k), T '' must be positive and finite (got '', D (ps ! k), T '')''])"
proof (induction ps arbitrary: i)
  case (Cons p ps)
  have ex: "(\<exists>k < length (p # ps). P k) \<longleftrightarrow> P 0 \<or> (\<exists>k < length ps. P (Suc k))" for P
    by (auto simp: less_Suc_eq_0_disj)
  have all: "(\<forall>j < Suc k. P j) \<longleftrightarrow> P 0 \<and> (\<forall>j < k. P (Suc j))" for P k
    by (auto simp: less_Suc_eq_0_disj)
  show ?case by (simp only: ex all) (auto simp: Cons.IH)
qed simp

definition valid_prices :: "double list \<Rightarrow> bool" where
  "valid_prices ps \<longleftrightarrow> 2 \<le> length ps \<and> (\<forall>p \<in> set ps. 0 < p \<and> isfinite p)"

lemma ValidatePrices_Inr: "ValidatePrices ps = Inr u \<longleftrightarrow> valid_prices ps"
  by (auto simp: ValidatePrices_def ebind_Inr_iff check_prices_Inr valid_prices_def le_key less_key not_less)

lemma inf_sub_add:
  assumes "isinf x" "isfinite y"
  shows "x - y = x" "y + x = x"
proof -
  show "x - y = x" using assms by transfer (auto simp: fp_add_def elim!: fp_neg.elims split: if_splits)
  show "y + x = x" using assms by transfer (auto simp: fp_add_def)
qed

lemma sub_one:
  assumes "\<not> isnan q" "0 \<le> key q"
  shows "\<not> isnan (q - 1)" "nn (1 + (q - 1))"
proof -
  have "\<not> isnan (q - 1) \<and> nn (1 + (q - 1))"
  proof (cases "isfinite q")
    case True
    then have k: "key (q - 1) = crnd (key q - 1)" "\<not> isnan (q - 1)" using sub_finite [of q 1] by simp_all
    have "crnd (- 1) \<le> key (q - 1)" "key (q - 1) \<le> key q"
      using k(1) assms(2) crnd_mono [of "- 1" "key q - 1"] crnd_mono [of "key q - 1" "key q"] by simp_all
    moreover have "crnd (- 1) = - 1" by (simp add: crnd_minus crnd_repr)
    ultimately have b: "- 1 \<le> key (q - 1)" "key (q - 1) < big" using True by (simp_all add: isfinite_key) linarith
    have "1 < big" by (simp add: big_def)
    then have f: "isfinite (q - 1)" using b k(2) by (simp add: isfinite_key abs_less_iff)
    have "key (1 + (q - 1)) = crnd (1 + key (q - 1))" "\<not> isnan (1 + (q - 1))" using add_finite [OF isfinite_1 f] by simp_all
    then show ?thesis using b k(2) by (simp add: nn_def le_key crnd_nonneg)
  next
    case False
    then have "isinf q" using assms(1) double_cases by blast
    then show ?thesis using assms by (simp add: inf_sub_add nn_def le_key)
  qed
  then show "\<not> isnan (q - 1)" "nn (1 + (q - 1))" by blast+
qed

lemma valid_returns:
  assumes "valid_prices ps" "r \<in> set (ComputeReturns ps)"
  shows "\<not> isnan r" "nn (1 + r)"
proof -
  from assms obtain i where i: "1 \<le> i" "i < length ps" "r = ps ! i / ps ! (i - 1) - 1"
    by (auto simp: ComputeReturns_def)
  then have p: "0 < ps ! i" "isfinite (ps ! i)" "0 < ps ! (i - 1)" "isfinite (ps ! (i - 1))"
    using assms(1) by (auto simp: valid_prices_def)
  let ?q = "ps ! i / ps ! (i - 1)"
  have q: "\<not> isnan ?q" "key ?q = crnd (key (ps ! i) / key (ps ! (i - 1)))"
    using div_finite [OF p(2,4)] p(3) by (auto simp: less_key)
  have q0: "0 \<le> key ?q" using p q by (simp add: less_key crnd_nonneg)
  show "\<not> isnan r" using sub_one [OF q(1) q0] i(3) by simp
  show "nn (1 + r)" using sub_one [OF q(1) q0] i(3) by simp
qed

lemma length_ComputeReturns [simp]: "length (ComputeReturns ps) = length ps - 1"
  by (simp add: ComputeReturns_def)

section \<open>Drawdown\<close>

text \<open>The drawdown is the one a Monte Carlo path with initial capital 1 computes.\<close>

lemma metrics_drawdown_step_eq:
  assumes "1 \<le> peak"
  shows "metrics_drawdown_step (e, peak, m) r = path_step (e, peak, m) r \<and> 1 \<le> fst (snd (path_step (e, peak, m) r))"
  using assms by (auto simp: metrics_drawdown_step_def path_step_def Let_def le_key less_key)

lemma foldl_metrics_drawdown:
  "1 \<le> peak \<Longrightarrow> foldl metrics_drawdown_step (e, peak, m) returns = foldl path_step (e, peak, m) returns"
proof (induction returns arbitrary: e peak m)
  case (Cons r returns)
  obtain e' p' m' where s: "path_step (e, peak, m) r = (e', p', m')" by (metis prod_cases3)
  then show ?case using metrics_drawdown_step_eq [OF Cons.prems, of e m r] Cons.IH [of p' e' m'] by simp
qed simp

lemma MaxDrawdown_path: "MaxDrawdown returns = snd (SimulatePath returns 1)"
  using foldl_metrics_drawdown [of 1 1 0 returns] by (simp add: MaxDrawdown_def SimulatePath_def le_key case_prod_beta)

section \<open>Value at risk\<close>

lemma VaR_rank:
  assumes "n < 2 ^ 53"
  shows "\<exists>k \<le> n. lround (kVaRQuantile * of_size n) = Some (int k)"
proof -
  have rn: "crnd (of_nat n) = of_nat n" using repr_of_int [of "int n"] assms by (simp add: crnd_repr)
  have kq: "0 \<le> crnd (5/100)" "crnd (5/100) \<le> 1"
    using crnd_mono [of 0 "5/100"] crnd_mono [of "5/100" 1] by (simp_all add: crnd_repr)
  then have fq: "isfinite kVaRQuantile" using isfinite_between [of "lit (5/100)" 1] by (simp add: le_key key_lit kVaRQuantile_def)
  have fn: "isfinite (of_size n)" using assms by (simp add: isfinite_of_size)
  let ?m = "kVaRQuantile * of_size n"
  have m: "key ?m = crnd (crnd (5/100) * of_nat n)" "\<not> isnan ?m"
    using mul_finite [OF fq fn] rn by (simp_all add: key_of_size key_lit kVaRQuantile_def)
  have "crnd (5/100) * of_nat n \<le> 1 * of_nat n" using kq by (intro mult_right_mono) auto
  then have km: "0 \<le> key ?m" "key ?m \<le> of_nat n"
    using kq crnd_mono [of "crnd (5/100) * of_nat n" "of_nat n"] rn m by (simp_all add: crnd_nonneg)
  have fm: "isfinite ?m" using isfinite_between [of ?m "of_size n"] km fn m(2) rn by (simp add: le_key key_of_size)
  let ?r = "\<lfloor>key ?m + 1/2\<rfloor>"
  have "0 \<le> ?r" using km by simp
  moreover have "?r \<le> int n" using km(2) by (simp add: floor_le_iff)
  moreover have "int n < 2 ^ 63" using assms by simp
  ultimately have "- (2 ^ 63) \<le> ?r \<and> ?r < 2 ^ 63" by linarith
  then have "lround ?m = Some ?r" using km(1) fm by (simp add: lround_def Let_def)
  then show ?thesis using \<open>0 \<le> ?r\<close> \<open>?r \<le> int n\<close> by (intro exI [of _ "nat ?r"]) simp
qed

lemma HistoricalVaR_member:
  assumes "returns \<noteq> []" "\<forall>r \<in> set returns. \<not> isnan r" "length returns < 2 ^ 53"
  shows "\<exists>v \<in> set returns. HistoricalVaR returns kVaRQuantile = Inr v"
proof -
  obtain ys where ys: "std_sort returns = Inr ys" using std_sort_ok assms(2) by blast
  then have l: "set ys = set returns" "length ys = length returns" using std_sort_Inr by blast+
  obtain k where k: "k \<le> length ys - 1" "lround (kVaRQuantile * of_size (length ys - 1)) = Some (int k)"
    using VaR_rank [of "length ys - 1"] assms(3) l(2) by (metis less_imp_diff_less)
  have kl: "k < length ys" using k(1) assms(1) l(2) by (cases ys) auto
  then have "int k mod 2 ^ 64 = int k" using l(2) assms(3) by simp
  then have "HistoricalVaR returns kVaRQuantile = Inr (ys ! k)"
    using assms(1) ys k kl by (simp add: HistoricalVaR_def min_absorb1)
  then show ?thesis using kl l nth_mem by metis
qed

lemma CVaR_count:
  "snd (foldl (\<lambda>(s, c) r. if r \<le> v then (s + r, c + 1) else (s, c)) (s0, c0 :: nat) returns) =
     c0 + length (filter (\<lambda>r. r \<le> v) returns)"
  by (induction returns arbitrary: s0 c0) auto

lemma HistoricalCVaR_ok: "HistoricalVaR returns q = Inr v \<Longrightarrow> \<exists>c. HistoricalCVaR returns q = Inr c"
  by (auto simp: HistoricalCVaR_def case_prod_beta)

section \<open>The metrics of valid prices\<close>

lemma CalculateRiskMetrics_valid:
  assumes "valid_prices ps" "length ps < 2 ^ 53"
  obtains m where "CalculateRiskMetrics pow ps rf = Inr m" "km_var_95 m \<in> set (ComputeReturns ps)"
    "km_max_drawdown m = MaxDrawdown (ComputeReturns ps)" "km_volatility m = AnnualizedVolatility (ComputeReturns ps)"
proof -
  let ?r = "ComputeReturns ps"
  have "?r \<noteq> []" using assms(1) length_ComputeReturns [of ps] by (auto simp: valid_prices_def simp del: length_ComputeReturns)
  moreover have "length ?r < 2 ^ 53" using assms(2) by simp
  ultimately obtain v where v: "v \<in> set ?r" "HistoricalVaR ?r kVaRQuantile = Inr v"
    using HistoricalVaR_member [of ?r] valid_returns(1) [OF assms(1)] by blast
  obtain c where c: "HistoricalCVaR ?r kVaRQuantile = Inr c" using HistoricalCVaR_ok [OF v(2)] by blast
  have "ValidatePrices ps = Inr ()" using assms(1) by (simp add: ValidatePrices_Inr)
  then show thesis using that v c by (simp add: CalculateRiskMetrics_def Let_def)
qed

lemma AnnualizedVolatility_nn: "nn (AnnualizedVolatility returns)"
  by (auto simp: AnnualizedVolatility_def Let_def)

section \<open>Properties\<close>

text \<open>A price series is refused when it has fewer than two prices, and otherwise exactly when a price
  is not positive or not finite; the error names the first such price.\<close>

theorem validate_prices:
  "ValidatePrices prices =
     (if length prices < 2 then
        Inl (InsufficientDataError [T ''at least two close prices required, got '', N (length prices)])
      else case List.find (\<lambda>i. bad_price (prices ! i)) [0..<length prices] of
          None \<Rightarrow> Inr ()
        | Some i \<Rightarrow> Inl (InvalidPricesError [T ''price at index '', N i,
            T '' must be positive and finite (got '', D (prices ! i), T '')'']))"
proof (cases "List.find (\<lambda>i. bad_price (prices ! i)) [0..<length prices]")
  case None
  then have "check_prices 0 prices = Inr ()" by (auto simp: check_prices_Inr find_None_iff in_set_conv_nth)
  then show ?thesis using None by (auto simp: ValidatePrices_def)
next
  case (Some i)
  then have "i < length prices \<and> bad_price (prices ! i) \<and> (\<forall>j < i. \<not> bad_price (prices ! j))"
    by (auto simp: find_Some_iff)
  then have "check_prices 0 prices = Inl (InvalidPricesError [T ''price at index '', N i,
      T '' must be positive and finite (got '', D (prices ! i), T '')''])"
    unfolding check_prices_Inl by auto
  then show ?thesis using Some by (auto simp: ValidatePrices_def)
qed

text \<open>C27: for at least two positive finite prices the risk metrics are always computed, with no undefined
  conversion or sort; the value at risk is one of the returns, the drawdown lies between -1 and 0, and the
  volatility is not negative. Any other series gives an error.\<close>

theorem risk_metrics:
  assumes "length prices < 2 ^ 53"
  shows "(valid_prices prices \<longrightarrow> (\<exists>m. CalculateRiskMetrics pow prices risk_free_rate = Inr m \<and>
      km_var_95 m \<in> set (ComputeReturns prices) \<and> - 1 \<le> km_max_drawdown m \<and> km_max_drawdown m \<le> 0 \<and>
      nn (km_volatility m))) \<and>
    (\<not> valid_prices prices \<longrightarrow> (\<exists>e. CalculateRiskMetrics pow prices risk_free_rate = Inl e))"
proof (cases "valid_prices prices")
  case True
  obtain m where m: "CalculateRiskMetrics pow prices risk_free_rate = Inr m" "km_var_95 m \<in> set (ComputeReturns prices)"
    "km_max_drawdown m = MaxDrawdown (ComputeReturns prices)" "km_volatility m = AnnualizedVolatility (ComputeReturns prices)"
    using CalculateRiskMetrics_valid [OF True assms] by blast
  have "- 1 \<le> km_max_drawdown m \<and> km_max_drawdown m \<le> 0"
    using SimulatePath_range(1) [of "ComputeReturns prices" 1] SimulatePath_range(2) [of 1 "ComputeReturns prices"] valid_returns(2) [OF True]
    by (simp add: m(3) MaxDrawdown_path nn_def le_key)
  then show ?thesis using True m AnnualizedVolatility_nn by auto
next
  case False
  then show ?thesis using ValidatePrices_Inr [of prices]
    by (cases "ValidatePrices prices") (auto simp: CalculateRiskMetrics_def)
qed

theorem risk_metrics_witness:
  "\<exists>m. CalculateRiskMetrics (\<lambda>x y. x) [lit 100, lit 110, lit 99] 0 = Inr m \<and> - 1 \<le> km_max_drawdown m"
proof -
  have "valid_prices [lit 100, lit 110, lit 99]"
    by (simp add: valid_prices_def less_key key_lit_repr isfinite_lit_repr)
  then show ?thesis using risk_metrics [of "[lit 100, lit 110, lit 99]" "\<lambda>x y. x" 0] by auto
qed

text \<open>The drawdown of a return series is the one a Monte Carlo path computes over the same returns
  from an initial capital of 1: dividing by the peak without the guard is safe, as the peak never falls below 1.\<close>

theorem drawdown_equivalence: "MaxDrawdown returns = snd (SimulatePath returns 1)"
  by (rule MaxDrawdown_path)

end
