(* ===== verification/Screener.thy ===== *)
theory Screener
  imports Core
begin

text \<open>
  \<^verbatim>\<open>screener/\<close>: fundamental data, the criteria with their optional bounds, the provider interface with
  the hardcoded provider, and \<^verbatim>\<open>Screener::Screen\<close>.
\<close>

record FundamentalData =
  fd_ticker :: string
  fd_market_cap :: double
  fd_pe_ratio :: double
  fd_pb_ratio :: double
  fd_dividend_yield :: double
  fd_eps_growth :: double
  fd_debt_to_equity :: double
  fd_roe :: double

record ScreenResult =
  sc_matches :: "FundamentalData list"
  sc_failed :: "string list"

record ScreenCriteria =
  pe_ratio_max :: "double option"
  pe_ratio_min :: "double option"
  pb_ratio_max :: "double option"
  pb_ratio_min :: "double option"
  market_cap_max :: "double option"
  market_cap_min :: "double option"
  dividend_yield_max :: "double option"
  dividend_yield_min :: "double option"
  eps_growth_max :: "double option"
  eps_growth_min :: "double option"
  debt_to_equity_max :: "double option"
  debt_to_equity_min :: "double option"
  roe_max :: "double option"
  roe_min :: "double option"

section \<open>Criteria\<close>

definition ApplyMax :: "double option \<Rightarrow> double \<Rightarrow> bool" where
  "ApplyMax limit value =
     (case limit of None \<Rightarrow> True | Some l \<Rightarrow> if \<not> isfinite value then False else value \<le> l)"

definition ApplyMin :: "double option \<Rightarrow> double \<Rightarrow> bool" where
  "ApplyMin limit value =
     (case limit of None \<Rightarrow> True | Some l \<Rightarrow> if \<not> isfinite value then False else l \<le> value)"

definition Apply :: "ScreenCriteria \<Rightarrow> FundamentalData \<Rightarrow> bool" where
  "Apply c data =
     (if \<not> ApplyMax (pe_ratio_max c) (fd_pe_ratio data) then False
      else if \<not> ApplyMin (pe_ratio_min c) (fd_pe_ratio data) then False
      else if \<not> ApplyMax (pb_ratio_max c) (fd_pb_ratio data) then False
      else if \<not> ApplyMin (pb_ratio_min c) (fd_pb_ratio data) then False
      else if \<not> ApplyMax (market_cap_max c) (fd_market_cap data) then False
      else if \<not> ApplyMin (market_cap_min c) (fd_market_cap data) then False
      else if \<not> ApplyMax (dividend_yield_max c) (fd_dividend_yield data) then False
      else if \<not> ApplyMin (dividend_yield_min c) (fd_dividend_yield data) then False
      else if \<not> ApplyMax (eps_growth_max c) (fd_eps_growth data) then False
      else if \<not> ApplyMin (eps_growth_min c) (fd_eps_growth data) then False
      else if \<not> ApplyMax (debt_to_equity_max c) (fd_debt_to_equity data) then False
      else if \<not> ApplyMin (debt_to_equity_min c) (fd_debt_to_equity data) then False
      else if \<not> ApplyMax (roe_max c) (fd_roe data) then False
      else if \<not> ApplyMin (roe_min c) (fd_roe data) then False
      else True)"

section \<open>The hardcoded provider\<close>

definition hardcoded_data :: "string \<rightharpoonup> FundamentalData" where
  "hardcoded_data = map_of
     [(''AAPL'', \<lparr>fd_ticker = ''AAPL'', fd_market_cap = lit 3400000000000, fd_pe_ratio = lit (285/10),
         fd_pb_ratio = lit (82/10), fd_dividend_yield = lit (5/1000), fd_eps_growth = lit (12/100),
         fd_debt_to_equity = lit (18/10), fd_roe = lit (45/100)\<rparr>),
      (''MSFT'', \<lparr>fd_ticker = ''MSFT'', fd_market_cap = lit 3100000000000, fd_pe_ratio = lit 32,
         fd_pb_ratio = lit 12, fd_dividend_yield = lit (7/1000), fd_eps_growth = lit (15/100),
         fd_debt_to_equity = lit (5/10), fd_roe = lit (40/100)\<rparr>),
      (''GOOGL'', \<lparr>fd_ticker = ''GOOGL'', fd_market_cap = lit 2100000000000, fd_pe_ratio = lit 24,
         fd_pb_ratio = lit (65/10), fd_dividend_yield = 0, fd_eps_growth = lit (18/100),
         fd_debt_to_equity = lit (1/10), fd_roe = lit (30/100)\<rparr>),
      (''AMZN'', \<lparr>fd_ticker = ''AMZN'', fd_market_cap = lit 1800000000000, fd_pe_ratio = lit 42,
         fd_pb_ratio = lit 8, fd_dividend_yield = 0, fd_eps_growth = lit (20/100),
         fd_debt_to_equity = lit (8/10), fd_roe = lit (12/100)\<rparr>),
      (''TSLA'', \<lparr>fd_ticker = ''TSLA'', fd_market_cap = lit 800000000000, fd_pe_ratio = lit 75,
         fd_pb_ratio = lit 15, fd_dividend_yield = 0, fd_eps_growth = lit (25/100),
         fd_debt_to_equity = lit (2/10), fd_roe = lit (20/100)\<rparr>)]"

definition Hardcoded_Fetch :: "string \<Rightarrow> FundamentalData result" where
  "Hardcoded_Fetch ticker = of_option NotFoundError (hardcoded_data ticker)"

section \<open>The service\<close>

definition kMaxScreenTickers :: nat where
  "kMaxScreenTickers = 500"

text \<open>The loop: \<^verbatim>\<open>NotFoundError\<close> is caught, every other exception of the provider leaves the loop.\<close>

fun screen_loop ::
    "(string \<Rightarrow> FundamentalData result) \<Rightarrow> ScreenCriteria \<Rightarrow> ScreenResult \<Rightarrow> string list \<Rightarrow> ScreenResult result" where
  "screen_loop Fetch criteria res [] = Inr res"
| "screen_loop Fetch criteria res (ticker # tickers) =
     (case Fetch ticker of
        Inr data \<Rightarrow>
          if Apply criteria data
          then screen_loop Fetch criteria (res\<lparr>sc_matches := sc_matches res @ [data]\<rparr>) tickers
          else screen_loop Fetch criteria (res\<lparr>sc_failed := sc_failed res @ [ticker]\<rparr>) tickers
      | Inl NotFoundError \<Rightarrow> screen_loop Fetch criteria (res\<lparr>sc_failed := sc_failed res @ [ticker]\<rparr>) tickers
      | Inl e \<Rightarrow> Inl e)"

definition Screen ::
    "(string \<Rightarrow> FundamentalData result) \<Rightarrow> string list \<Rightarrow> ScreenCriteria \<Rightarrow> ScreenResult result" where
  "Screen Fetch tickers criteria =
     ebind (throw_if (kMaxScreenTickers < length tickers)
         (InvalidCommandError [T ''ticker count '', N (length tickers), T '' exceeds maximum of '', N kMaxScreenTickers]))
       (\<lambda>_. screen_loop Fetch criteria \<lparr>sc_matches = [], sc_failed = []\<rparr> tickers)"

section \<open>The contract of a provider\<close>

text \<open>
  A provider returns data of the ticker it was asked for. One that fails with \<^verbatim>\<open>NotFoundError\<close> only
  cannot make a screening fail.
\<close>

locale fundamental_provider =
  fixes Fetch :: "string \<Rightarrow> FundamentalData result"
  assumes fetch_ticker: "Fetch t = Inr d \<Longrightarrow> fd_ticker d = t"
begin

definition passes :: "ScreenCriteria \<Rightarrow> string \<Rightarrow> bool" where
  "passes criteria t \<longleftrightarrow> (\<exists>d. Fetch t = Inr d \<and> Apply criteria d)"

definition found :: "ScreenCriteria \<Rightarrow> FundamentalData \<Rightarrow> bool" where
  "found criteria d \<longleftrightarrow> Fetch (fd_ticker d) = Inr d \<and> Apply criteria d"

lemma screen_loop_partition:
  "screen_loop Fetch criteria res tickers = Inr r \<Longrightarrow>
     map fd_ticker (sc_matches r) = map fd_ticker (sc_matches res) @ filter (passes criteria) tickers \<and>
     sc_failed r = sc_failed res @ filter (\<lambda>t. \<not> passes criteria t) tickers \<and>
     ((\<forall>d \<in> set (sc_matches res). found criteria d) \<longrightarrow> (\<forall>d \<in> set (sc_matches r). found criteria d))"
proof (induction tickers arbitrary: res)
  case (Cons t tickers)
  show ?case
  proof (cases "Fetch t")
    case (Inr d)
    have p: "passes criteria t \<longleftrightarrow> Apply criteria d" "found criteria d \<longleftrightarrow> Apply criteria d"
      using Inr fetch_ticker [OF Inr] by (simp_all add: passes_def found_def)
    show ?thesis
    proof (cases "Apply criteria d")
      case True
      then have "screen_loop Fetch criteria (res\<lparr>sc_matches := sc_matches res @ [d]\<rparr>) tickers = Inr r"
        using Cons.prems Inr by simp
      from Cons.IH [OF this] show ?thesis using True p fetch_ticker [OF Inr] by simp
    next
      case False
      then have "screen_loop Fetch criteria (res\<lparr>sc_failed := sc_failed res @ [t]\<rparr>) tickers = Inr r"
        using Cons.prems Inr by simp
      from Cons.IH [OF this] show ?thesis using False p by simp
    qed
  next
    case (Inl e)
    then have "e = NotFoundError" using Cons.prems by (cases e) auto
    then have "screen_loop Fetch criteria (res\<lparr>sc_failed := sc_failed res @ [t]\<rparr>) tickers = Inr r"
      using Cons.prems Inl by simp
    from Cons.IH [OF this] show ?thesis using Inl by (simp add: passes_def)
  qed
qed simp

text \<open>A screening that succeeds splits the tickers, in their order, into matches and failed.\<close>

lemma Screen_partition:
  assumes "Screen Fetch tickers criteria = Inr r"
  shows "map fd_ticker (sc_matches r) = filter (passes criteria) tickers"
    "sc_failed r = filter (\<lambda>t. \<not> passes criteria t) tickers"
    "\<forall>d \<in> set (sc_matches r). Fetch (fd_ticker d) = Inr d \<and> Apply criteria d"
proof -
  have "screen_loop Fetch criteria \<lparr>sc_matches = [], sc_failed = []\<rparr> tickers = Inr r"
    using assms by (auto simp: Screen_def ebind_Inr_iff)
  from screen_loop_partition [OF this]
  show "map fd_ticker (sc_matches r) = filter (passes criteria) tickers"
    "sc_failed r = filter (\<lambda>t. \<not> passes criteria t) tickers"
    "\<forall>d \<in> set (sc_matches r). Fetch (fd_ticker d) = Inr d \<and> Apply criteria d"
    by (simp_all add: found_def)
qed

end

locale total_provider = fundamental_provider +
  assumes fetch_error: "Fetch t = Inl e \<Longrightarrow> e = NotFoundError"
begin

lemma screen_loop_total: "\<exists>r. screen_loop Fetch criteria res tickers = Inr r"
proof (induction tickers arbitrary: res)
  case (Cons t tickers)
  then show ?case using fetch_error [of t] by (cases "Fetch t") auto
qed simp

lemma Screen_total: "length tickers \<le> kMaxScreenTickers \<Longrightarrow> \<exists>r. Screen Fetch tickers criteria = Inr r"
  using screen_loop_total by (simp add: Screen_def)

end

interpretation hardcoded: total_provider Hardcoded_Fetch
  by unfold_locales
    (auto simp: Hardcoded_Fetch_def hardcoded_data_def of_option_def split: option.splits if_splits)

section \<open>Criteria as a conjunction of bounds\<close>

definition in_bounds :: "double option \<Rightarrow> double option \<Rightarrow> double \<Rightarrow> bool" where
  "in_bounds hi lo x \<longleftrightarrow> (hi \<noteq> None \<or> lo \<noteq> None \<longrightarrow> isfinite x) \<and>
     (\<forall>l. hi = Some l \<longrightarrow> x \<le> l) \<and> (\<forall>l. lo = Some l \<longrightarrow> l \<le> x)"

lemma ApplyMaxMin: "ApplyMax hi x \<and> ApplyMin lo x \<longleftrightarrow> in_bounds hi lo x"
  by (auto simp: ApplyMax_def ApplyMin_def in_bounds_def split: option.splits)

lemma Apply_iff:
  "Apply c d \<longleftrightarrow>
     in_bounds (pe_ratio_max c) (pe_ratio_min c) (fd_pe_ratio d) \<and>
     in_bounds (pb_ratio_max c) (pb_ratio_min c) (fd_pb_ratio d) \<and>
     in_bounds (market_cap_max c) (market_cap_min c) (fd_market_cap d) \<and>
     in_bounds (dividend_yield_max c) (dividend_yield_min c) (fd_dividend_yield d) \<and>
     in_bounds (eps_growth_max c) (eps_growth_min c) (fd_eps_growth d) \<and>
     in_bounds (debt_to_equity_max c) (debt_to_equity_min c) (fd_debt_to_equity d) \<and>
     in_bounds (roe_max c) (roe_min c) (fd_roe d)"
  unfolding Apply_def ApplyMaxMin [symmetric] by (simp only: if_split_eq1 simp_thms) blast

section \<open>Properties\<close>

text \<open>Screening splits the tickers, in order and with repetitions, into those whose data the provider
  has and the criteria accept, and all the others; every match is the provider's data for its ticker.\<close>

theorem screen_partition:
  assumes "\<And>t d. Fetch t = Inr d \<Longrightarrow> fd_ticker d = t" "Screen Fetch tickers criteria = Inr r"
  defines "ok \<equiv> \<lambda>t. \<exists>d. Fetch t = Inr d \<and> Apply criteria d"
  shows "map fd_ticker (sc_matches r) = filter ok tickers \<and> sc_failed r = filter (\<lambda>t. \<not> ok t) tickers \<and>
    (\<forall>d \<in> set (sc_matches r). Fetch (fd_ticker d) = Inr d \<and> Apply criteria d)"
proof -
  have provider: "fundamental_provider Fetch" using assms(1) by unfold_locales
  show ?thesis using fundamental_provider.Screen_partition [OF provider assms(2)]
    by (simp add: ok_def fundamental_provider.passes_def [OF provider] fun_eq_iff [symmetric] cong: filter_cong)
qed

text \<open>With the built-in data the screening of at most 500 tickers always succeeds, and of more never does.\<close>

theorem screen_total: "(\<exists>r. Screen Hardcoded_Fetch tickers criteria = Inr r) \<longleftrightarrow> length tickers \<le> 500"
  using hardcoded.Screen_total [of tickers criteria]
  by (auto simp: Screen_def kMaxScreenTickers_def ebind_Inr_iff)

text \<open>Criteria accept a security exactly when each of the seven metrics lies within the bounds set for
  it, both inclusive; a metric that is NaN or infinite is refused when a bound is set for it, and only then.\<close>

theorem screen_criteria:
  "Apply c d \<longleftrightarrow>
     in_bounds (pe_ratio_max c) (pe_ratio_min c) (fd_pe_ratio d) \<and>
     in_bounds (pb_ratio_max c) (pb_ratio_min c) (fd_pb_ratio d) \<and>
     in_bounds (market_cap_max c) (market_cap_min c) (fd_market_cap d) \<and>
     in_bounds (dividend_yield_max c) (dividend_yield_min c) (fd_dividend_yield d) \<and>
     in_bounds (eps_growth_max c) (eps_growth_min c) (fd_eps_growth d) \<and>
     in_bounds (debt_to_equity_max c) (debt_to_equity_min c) (fd_debt_to_equity d) \<and>
     in_bounds (roe_max c) (roe_min c) (fd_roe d)"
  by (rule Apply_iff)

definition sample_criteria :: ScreenCriteria where
  "sample_criteria = \<lparr>pe_ratio_max = None, pe_ratio_min = None, pb_ratio_max = None, pb_ratio_min = None,
     market_cap_max = None, market_cap_min = None, dividend_yield_max = None, dividend_yield_min = None,
     eps_growth_max = None, eps_growth_min = None, debt_to_equity_max = None, debt_to_equity_min = None,
     roe_max = None, roe_min = None\<rparr>"

theorem screen_partition_witness:
  "\<exists>r. Screen Hardcoded_Fetch [''AAPL'', ''NONE''] sample_criteria = Inr r \<and>
     map fd_ticker (sc_matches r) = [''AAPL''] \<and> sc_failed r = [''NONE'']"
proof -
  obtain r where r: "Screen Hardcoded_Fetch [''AAPL'', ''NONE''] sample_criteria = Inr r"
    using hardcoded.Screen_total [of "[''AAPL'', ''NONE'']"] by (auto simp: kMaxScreenTickers_def)
  have a: "Apply sample_criteria d" for d by (simp add: Apply_iff sample_criteria_def in_bounds_def)
  have "\<exists>d. Hardcoded_Fetch ''AAPL'' = Inr d" "Hardcoded_Fetch ''NONE'' = Inl NotFoundError"
    by (simp_all add: Hardcoded_Fetch_def hardcoded_data_def)
  then show ?thesis using screen_partition [OF hardcoded.fetch_ticker r] r a by simp
qed

end
