(* ===== verification/Json_Serialization.thy ===== *)
theory Json_Serialization
  imports Json Walk_Forward Monte_Carlo Risk_Return Screener Portfolio_Optimizers Analysis
begin

text \<open>
  The conversions between values and JSON: \<^verbatim>\<open>core/json_serialization.hpp\<close> and the \<^verbatim>\<open>to_json\<close> of the
  result headers of every component. \<^verbatim>\<open>date::parse\<close> is outside the repository: the argument \<open>parse\<close>
  stands for it.
\<close>

section \<open>Dates\<close>

definition FormatDate :: "'j Json \<Rightarrow> Date \<Rightarrow> string" where
  "FormatDate J d = lib_format_date (js_lib J) d"

definition ParseDate :: "(string \<Rightarrow> Date option) \<Rightarrow> string \<Rightarrow> Date result" where
  "ParseDate parse s = of_option (InvalidCommandError [T ''invalid date '', T s]) (parse s)"

definition json_Date :: "'j Json \<Rightarrow> Date \<Rightarrow> 'j" where
  "json_Date J d = js_str J (FormatDate J d)"

definition Date_of_json :: "'j Json \<Rightarrow> (string \<Rightarrow> Date option) \<Rightarrow> 'j \<Rightarrow> Date result" where
  "Date_of_json J parse j = ebind (js_get_string J j) (ParseDate parse)"

section \<open>Value objects\<close>

definition json_OHLCV :: "'j Json \<Rightarrow> OHLCV \<Rightarrow> 'j" where
  "json_OHLCV J o' = js_object J
     [(''date'', json_Date J (bar_date o')),
      (''open'', js_number J (bar_open o')),
      (''high'', js_number J (bar_high o')),
      (''low'', js_number J (bar_low o')),
      (''close'', js_number J (bar_close o')),
      (''volume'', js_int J (bar_volume o'))]"

definition OHLCV_of_json :: "'j Json \<Rightarrow> (string \<Rightarrow> Date option) \<Rightarrow> 'j \<Rightarrow> OHLCV result" where
  "OHLCV_of_json J parse j =
     ebind (json_at J (Date_of_json J parse) j ''date'') (\<lambda>d.
     ebind (json_value J (js_get_double J) j ''open'' 0) (\<lambda>opn.
     ebind (json_value J (js_get_double J) j ''high'' 0) (\<lambda>high.
     ebind (json_value J (js_get_double J) j ''low'' 0) (\<lambda>low.
     ebind (json_value J (js_get_double J) j ''close'' 0) (\<lambda>cls.
     ebind (json_value J (js_get_int64 J) j ''volume'' 0) (\<lambda>volume.
       Inr \<lparr>bar_date = d, bar_open = opn, bar_high = high, bar_low = low, bar_close = cls, bar_volume = volume\<rparr>))))))"

definition json_TickerInfo :: "'j Json \<Rightarrow> TickerInfo \<Rightarrow> 'j" where
  "json_TickerInfo J t = js_object J
     [(''symbol'', js_str J (ti_symbol t)),
      (''name'', js_str J (ti_name t)),
      (''sector'', js_str J (ti_sector t)),
      (''industry'', js_str J (ti_industry t)),
      (''employees'', js_int J (ti_employees t)),
      (''city'', js_str J (ti_city t)),
      (''country'', js_str J (ti_country t)),
      (''website'', js_str J (ti_website t))]"

definition TickerInfo_of_json :: "'j Json \<Rightarrow> 'j \<Rightarrow> TickerInfo result" where
  "TickerInfo_of_json J j =
     ebind (json_at J (js_get_string J) j ''symbol'') (\<lambda>symbol.
     ebind (json_at J (js_get_string J) j ''name'') (\<lambda>name.
     ebind (json_at J (js_get_string J) j ''sector'') (\<lambda>sector.
     ebind (json_at J (js_get_string J) j ''industry'') (\<lambda>industry.
     ebind (json_at J (js_get_int64 J) j ''employees'') (\<lambda>employees.
     ebind (json_at J (js_get_string J) j ''city'') (\<lambda>city.
     ebind (json_at J (js_get_string J) j ''country'') (\<lambda>country.
     ebind (json_at J (js_get_string J) j ''website'') (\<lambda>website.
       Inr \<lparr>ti_symbol = symbol, ti_name = name, ti_sector = sector, ti_industry = industry,
         ti_employees = employees, ti_city = city, ti_country = country, ti_website = website\<rparr>))))))))"

definition json_FinancialRatios :: "'j Json \<Rightarrow> FinancialRatios \<Rightarrow> 'j" where
  "json_FinancialRatios J f = js_object J
     [(''symbol'', js_str J (fr_symbol f)),
      (''forward_pe'', js_str J (fr_forward_pe f)),
      (''trailing_pe'', js_str J (fr_trailing_pe f)),
      (''price_to_book'', js_str J (fr_price_to_book f)),
      (''debt_to_equity'', js_str J (fr_debt_to_equity f)),
      (''roe'', js_str J (fr_roe f)),
      (''profit_margins'', js_str J (fr_profit_margins f)),
      (''dividend_yield'', js_str J (fr_dividend_yield f)),
      (''market_cap'', js_int J (fr_market_cap f))]"

definition FinancialRatios_of_json :: "'j Json \<Rightarrow> 'j \<Rightarrow> FinancialRatios result" where
  "FinancialRatios_of_json J j =
     ebind (json_at J (js_get_string J) j ''symbol'') (\<lambda>symbol.
     ebind (json_at J (js_get_string J) j ''forward_pe'') (\<lambda>forward_pe.
     ebind (json_at J (js_get_string J) j ''trailing_pe'') (\<lambda>trailing_pe.
     ebind (json_at J (js_get_string J) j ''price_to_book'') (\<lambda>price_to_book.
     ebind (json_at J (js_get_string J) j ''debt_to_equity'') (\<lambda>debt_to_equity.
     ebind (json_at J (js_get_string J) j ''roe'') (\<lambda>roe.
     ebind (json_at J (js_get_string J) j ''profit_margins'') (\<lambda>profit_margins.
     ebind (json_at J (js_get_string J) j ''dividend_yield'') (\<lambda>dividend_yield.
     ebind (json_at J (js_get_int64 J) j ''market_cap'') (\<lambda>market_cap.
       Inr \<lparr>fr_symbol = symbol, fr_forward_pe = forward_pe, fr_trailing_pe = trailing_pe,
         fr_price_to_book = price_to_book, fr_debt_to_equity = debt_to_equity, fr_roe = roe,
         fr_profit_margins = profit_margins, fr_dividend_yield = dividend_yield, fr_market_cap = market_cap\<rparr>)))))))))"

definition json_DataSetMetadata :: "'j Json \<Rightarrow> DataSetMetadata \<Rightarrow> 'j" where
  "json_DataSetMetadata J m = js_object J
     [(''provider'', js_str J (md_provider m)),
      (''adjusted'', js_bool J (md_adjusted m)),
      (''survivorship_free'', js_bool J (md_survivorship_free m)),
      (''point_in_time'', js_bool J (md_point_in_time m)),
      (''frequency'', js_str J (md_frequency m)),
      (''timezone'', js_str J (md_timezone m)),
      (''retrieved_at'', json_Date J (md_retrieved_at m))]"

definition DataSetMetadata_of_json :: "'j Json \<Rightarrow> (string \<Rightarrow> Date option) \<Rightarrow> 'j \<Rightarrow> DataSetMetadata result" where
  "DataSetMetadata_of_json J parse j =
     ebind (json_at J (js_get_string J) j ''provider'') (\<lambda>provider.
     ebind (json_at J (js_get_bool J) j ''adjusted'') (\<lambda>adjusted.
     ebind (json_at J (js_get_bool J) j ''survivorship_free'') (\<lambda>survivorship_free.
     ebind (json_at J (js_get_bool J) j ''point_in_time'') (\<lambda>point_in_time.
     ebind (json_at J (js_get_string J) j ''frequency'') (\<lambda>frequency.
     ebind (json_at J (js_get_string J) j ''timezone'') (\<lambda>timezone.
     ebind (json_at J (Date_of_json J parse) j ''retrieved_at'') (\<lambda>retrieved_at.
       Inr \<lparr>md_provider = provider, md_adjusted = adjusted, md_survivorship_free = survivorship_free,
         md_point_in_time = point_in_time, md_frequency = frequency, md_timezone = timezone,
         md_retrieved_at = retrieved_at\<rparr>)))))))"

section \<open>Indicators and metrics\<close>

definition json_IndicatorValue :: "'j Json \<Rightarrow> IndicatorValue \<Rightarrow> 'j" where
  "json_IndicatorValue J iv = js_object J
     [(''date'', json_Date J (iv_date iv)), (''value'', json_optional J (iv_value iv))]"

definition json_IndicatorResult :: "'j Json \<Rightarrow> IndicatorResult \<Rightarrow> 'j" where
  "json_IndicatorResult J r = js_object J
     [(''name'', js_str J (ir_name r)),
      (''params'', json_params J (ir_params r)),
      (''values'', js_array J (map (json_IndicatorValue J) (ir_values r))),
      (''extra_series'', js_map J (map_option (\<lambda>vs. js_array J (map (json_IndicatorValue J) vs)) \<circ> ir_extra_series r))]"

definition json_ReturnMetrics :: "'j Json \<Rightarrow> ReturnMetrics \<Rightarrow> 'j" where
  "json_ReturnMetrics J m = js_object J
     [(''cumulative_return'', js_number J (rm_cumulative_return m)),
      (''cagr'', js_number J (rm_cagr m)),
      (''annualized_volatility'', js_number J (rm_annualized_volatility m))]"

definition json_RiskMetrics :: "'j Json \<Rightarrow> RiskMetrics \<Rightarrow> 'j" where
  "json_RiskMetrics J m = js_object J
     [(''sharpe_ratio'', js_number J (km_sharpe_ratio m)),
      (''sortino_ratio'', js_number J (km_sortino_ratio m)),
      (''max_drawdown'', js_number J (km_max_drawdown m)),
      (''calmar_ratio'', js_number J (km_calmar_ratio m)),
      (''var_95'', js_number J (km_var_95 m)),
      (''cvar_95'', js_number J (km_cvar_95 m)),
      (''volatility'', js_number J (km_volatility m))]"

section \<open>Backtests\<close>

definition json_EquityPoint :: "'j Json \<Rightarrow> EquityPoint \<Rightarrow> 'j" where
  "json_EquityPoint J p = js_object J
     [(''date'', json_Date J (ep_date p)), (''equity'', js_number J (ep_equity p))]"

definition json_Trade :: "'j Json \<Rightarrow> Trade \<Rightarrow> 'j" where
  "json_Trade J t = js_object J
     [(''entry_date'', json_Date J (tr_entry_date t)),
      (''exit_date'', json_Date J (tr_exit_date t)),
      (''entry_price'', js_number J (tr_entry_price t)),
      (''exit_price'', js_number J (tr_exit_price t)),
      (''quantity'', js_number J (tr_quantity t)),
      (''side'', js_str J (TradeSide_ToString (tr_side t))),
      (''pnl'', js_number J (tr_pnl t))]"

definition json_Metrics :: "'j Json \<Rightarrow> Metrics \<Rightarrow> 'j" where
  "json_Metrics J m = js_object J
     [(''max_drawdown'', js_number J (m_max_drawdown m)),
      (''sharpe'', json_optional J (m_sharpe m)),
      (''win_rate'', js_number J (m_win_rate m)),
      (''trade_count'', js_int J (int (m_trade_count m)))]"

definition json_BacktestResult :: "'j Json \<Rightarrow> BacktestResult \<Rightarrow> 'j" where
  "json_BacktestResult J r = js_object J
     [(''final_equity'', js_number J (br_final_equity r)),
      (''total_return'', js_number J (br_total_return r)),
      (''equity_curve'', js_array J (map (json_EquityPoint J) (br_equity_curve r))),
      (''trades'', js_array J (map (json_Trade J) (br_trades r))),
      (''metrics'', json_Metrics J (br_metrics r))]"

definition json_ConfidenceInterval :: "'j Json \<Rightarrow> ConfidenceInterval \<Rightarrow> 'j" where
  "json_ConfidenceInterval J ci = js_object J
     [(''lower'', js_number J (ci_lower ci)), (''upper'', js_number J (ci_upper ci))]"

definition json_MonteCarloResult :: "'j Json \<Rightarrow> MonteCarloResult \<Rightarrow> 'j" where
  "json_MonteCarloResult J r = js_object J
     [(''simulations'', js_int J (mc_simulations r)),
      (''final_equity_ci'', json_ConfidenceInterval J (mc_final_equity_ci r)),
      (''max_drawdown_ci'', json_ConfidenceInterval J (mc_max_drawdown_ci r)),
      (''initial_capital'', js_number J (mc_initial_capital r))]"

definition json_ParamWindow :: "'j Json \<Rightarrow> ParamWindow \<Rightarrow> 'j" where
  "json_ParamWindow J w = js_object J
     [(''start'', json_Date J (pw_start w)), (''params'', json_params J (pw_params w))]"

definition json_WalkForwardResult :: "'j Json \<Rightarrow> WalkForwardResult \<Rightarrow> 'j" where
  "json_WalkForwardResult J r = js_object J
     [(''equity_curve'', js_array J (map (json_EquityPoint J) (wr_equity_curve r))),
      (''trades'', js_array J (map (json_Trade J) (wr_trades r))),
      (''total_return'', js_number J (wr_total_return r)),
      (''max_drawdown'', js_number J (wr_max_drawdown r)),
      (''sharpe'', json_optional J (wr_sharpe r)),
      (''number_of_trades'', js_int J (int (wr_number_of_trades r))),
      (''win_rate'', js_number J (wr_win_rate r)),
      (''selected_params'', js_array J (map (json_ParamWindow J) (wr_selected_params r)))]"

section \<open>Portfolios\<close>

definition json_PortfolioResult :: "'j Json \<Rightarrow> PortfolioResult \<Rightarrow> 'j" where
  "json_PortfolioResult J r = js_object J
     [(''weights'', json_weights J (pr_weights r)),
      (''expected_return'', js_number J (pr_expected_return r)),
      (''volatility'', js_number J (pr_volatility r)),
      (''sharpe_ratio'', js_number J (pr_sharpe_ratio r))]"

definition json_BlackLittermanResult :: "'j Json \<Rightarrow> BlackLittermanResult \<Rightarrow> 'j" where
  "json_BlackLittermanResult J r = js_object J
     [(''portfolio'', json_PortfolioResult J (blr_portfolio r)),
      (''expected_returns'', json_weights J (blr_expected_returns r)),
      (''covariance'', json_matrix J (blr_covariance r))]"

section \<open>Screens\<close>

definition json_FundamentalData :: "'j Json \<Rightarrow> FundamentalData \<Rightarrow> 'j" where
  "json_FundamentalData J d = js_object J
     [(''ticker'', js_str J (fd_ticker d)),
      (''market_cap'', js_number J (fd_market_cap d)),
      (''pe_ratio'', js_number J (fd_pe_ratio d)),
      (''pb_ratio'', js_number J (fd_pb_ratio d)),
      (''dividend_yield'', js_number J (fd_dividend_yield d)),
      (''eps_growth'', js_number J (fd_eps_growth d)),
      (''debt_to_equity'', js_number J (fd_debt_to_equity d)),
      (''roe'', js_number J (fd_roe d))]"

definition json_ScreenResult :: "'j Json \<Rightarrow> ScreenResult \<Rightarrow> 'j" where
  "json_ScreenResult J r = js_object J
     [(''matches'', js_array J (map (json_FundamentalData J) (sc_matches r))),
      (''failed'', json_strings J (sc_failed r))]"

section \<open>Analyses\<close>

definition json_RegressionResult :: "'j Json \<Rightarrow> double RegressionResult \<Rightarrow> 'j" where
  "json_RegressionResult J r = js_object J
     [(''alpha'', js_number J (rg_alpha r)),
      (''beta'', js_number J (rg_beta r)),
      (''r_squared'', js_number J (rg_r_squared r)),
      (''residuals'', json_doubles J (rg_residuals r))]"

definition json_CointegrationResult :: "'j Json \<Rightarrow> CointegrationResult \<Rightarrow> 'j" where
  "json_CointegrationResult J r = js_object J
     [(''hedge_ratio'', js_number J (ci_hedge_ratio r)),
      (''adf_statistic'', js_number J (ci_adf_statistic r)),
      (''half_life'', js_number J (ci_half_life r)),
      (''current_z_score'', js_number J (ci_current_z_score r))]"

definition json_HurstResult :: "'j Json \<Rightarrow> HurstResult \<Rightarrow> 'j" where
  "json_HurstResult J r = js_object J
     [(''exponent'', js_number J (hu_exponent r)),
      (''interpretation'', js_str J (hu_interpretation r))]"

definition json_PCAResult :: "'j Json \<Rightarrow> PCAResult \<Rightarrow> 'j" where
  "json_PCAResult J r = js_object J
     [(''labels'', json_strings J (pc_labels r)),
      (''explained_variance_ratio'', json_doubles J (pc_explained_variance_ratio r)),
      (''loadings'', json_matrix J (pc_loadings r)),
      (''factor_returns'', json_matrix J (pc_factor_returns r))]"

definition json_CorrelationResult :: "'j Json \<Rightarrow> CorrelationResult \<Rightarrow> 'j" where
  "json_CorrelationResult J r = js_object J
     [(''labels'', json_strings J (co_labels r)),
      (''matrix'', json_matrix J (co_matrix r)),
      (''average'', js_number J (co_average r)),
      (''min'', js_number J (co_min r)),
      (''max'', js_number J (co_max r))]"

definition json_OptionPricingResult :: "'j Json \<Rightarrow> OptionPricingResult \<Rightarrow> 'j" where
  "json_OptionPricingResult J r = js_object J
     [(''price'', js_number J (op_price r)),
      (''delta'', js_number J (op_delta r)),
      (''gamma'', js_number J (op_gamma r)),
      (''vega'', js_number J (op_vega r)),
      (''theta'', js_number J (op_theta r)),
      (''rho'', js_number J (op_rho r))]"

definition json_AnalysisResult :: "'j Json \<Rightarrow> AnalysisResult \<Rightarrow> 'j" where
  "json_AnalysisResult J r =
     (case r of
        RegressionR v \<Rightarrow> json_RegressionResult J v
      | CointegrationR v \<Rightarrow> json_CointegrationResult J v
      | HurstR v \<Rightarrow> json_HurstResult J v
      | PcaR v \<Rightarrow> json_PCAResult J v
      | CorrelationR v \<Rightarrow> json_CorrelationResult J v
      | OptionsR v \<Rightarrow> json_OptionPricingResult J v)"

section \<open>Decision records\<close>

definition DecisionRecord_of_json :: "'j Json \<Rightarrow> (string \<Rightarrow> Date option) \<Rightarrow> 'j \<Rightarrow> 'j DecisionRecord result" where
  "DecisionRecord_of_json J parse j =
     ebind (json_at J (js_get_string J) j ''request_id'') (\<lambda>request_id.
     ebind (json_at J (Date_of_json J parse) j ''recorded_at'') (\<lambda>recorded_at.
     ebind (json_at J (js_get_string J) j ''tool_name'') (\<lambda>tool_name.
     ebind (json_at J Inr j ''input'') (\<lambda>input.
     ebind (json_at J (js_get_string J) j ''input_hash'') (\<lambda>input_hash.
     ebind (json_at J Inr j ''output'') (\<lambda>output.
     ebind (json_at J (js_get_string J) j ''output_hash'') (\<lambda>output_hash.
     ebind (json_at J (js_get_string J) j ''status'') (\<lambda>status.
     ebind (json_at J (js_get_string J) j ''error'') (\<lambda>error.
     ebind (json_at J (js_get_string J) j ''git_commit_sha'') (\<lambda>git_commit_sha.
     ebind (json_at J (js_get_string J) j ''package_version'') (\<lambda>package_version.
     ebind (json_at J (js_get_int64 J) j ''random_seed'') (\<lambda>random_seed.
     ebind (json_at J (js_get_string J) j ''prev_record_hash'') (\<lambda>prev_record_hash.
     ebind (json_at J (js_get_string J) j ''record_hash'') (\<lambda>record_hash.
       Inr \<lparr>dr_request_id = request_id, dr_recorded_at = recorded_at, dr_tool_name = tool_name, dr_input = input,
         dr_input_hash = input_hash, dr_output = output, dr_output_hash = output_hash, dr_status = status,
         dr_error = error, dr_git_commit_sha = git_commit_sha, dr_package_version = package_version,
         dr_random_seed = random_seed, dr_prev_record_hash = prev_record_hash,
         dr_record_hash = record_hash\<rparr>))))))))))))))"

section \<open>Properties\<close>

text \<open>The day of a time, at midnight, and the times whose day is in range too.\<close>

definition day_of :: "Date \<Rightarrow> Date" where
  "day_of d = d div ns_per_day * ns_per_day"

definition date_ok :: "Date \<Rightarrow> bool" where
  "date_ok d \<longleftrightarrow> int64 d \<and> int64 (day_of d)"

text \<open>The text of a time (\<^verbatim>\<open>%F\<close>) reads back as its day.\<close>

definition day_texts :: "'j Json \<Rightarrow> (string \<Rightarrow> Date option) \<Rightarrow> bool" where
  "day_texts J parse \<longleftrightarrow> (\<forall>d. date_ok d \<longrightarrow> parse (FormatDate J d) = Some (day_of d))"

lemma Date_round_trip:
  "json_scalars J \<Longrightarrow> day_texts J parse \<Longrightarrow> date_ok d \<Longrightarrow> Date_of_json J parse (json_Date J d) = Inr (day_of d)"
  by (simp add: Date_of_json_def json_Date_def json_scalar_simps ParseDate_def day_texts_def)

lemmas decode_simps = json_at_def json_value_def json_find json_at_object json_scalar_simps Date_round_trip

lemma OHLCV_round_trip:
  assumes "json_objects J" "json_scalars J" "day_texts J parse" "date_ok (bar_date b)" "int64 (bar_volume b)"
  shows "OHLCV_of_json J parse (json_OHLCV J b) = Inr (b\<lparr>bar_date := day_of (bar_date b)\<rparr>)"
  using assms by (simp add: OHLCV_of_json_def json_OHLCV_def decode_simps int64_def)

lemma TickerInfo_round_trip:
  assumes "json_objects J" "json_scalars J" "int64 (ti_employees t)"
  shows "TickerInfo_of_json J (json_TickerInfo J t) = Inr t"
  using assms by (simp add: TickerInfo_of_json_def json_TickerInfo_def decode_simps int64_def)

lemma FinancialRatios_round_trip:
  assumes "json_objects J" "json_scalars J" "int64 (fr_market_cap f)"
  shows "FinancialRatios_of_json J (json_FinancialRatios J f) = Inr f"
  using assms by (simp add: FinancialRatios_of_json_def json_FinancialRatios_def decode_simps int64_def)

lemma DataSetMetadata_round_trip:
  assumes "json_objects J" "json_scalars J" "day_texts J parse" "date_ok (md_retrieved_at m)"
  shows "DataSetMetadata_of_json J parse (json_DataSetMetadata J m) = Inr (m\<lparr>md_retrieved_at := day_of (md_retrieved_at m)\<rparr>)"
  using assms by (simp add: DataSetMetadata_of_json_def json_DataSetMetadata_def decode_simps)

lemma DecisionRecord_round_trip:
  assumes "json_objects J" "json_scalars J" "day_texts J parse" "date_ok (dr_recorded_at r)" "int64 (dr_random_seed r)"
  shows "DecisionRecord_of_json J parse (record_to_json (js_lib J) r) = Inr (r\<lparr>dr_recorded_at := day_of (dr_recorded_at r)\<rparr>)"
proof -
  have "lib_str (js_lib J) (lib_format_date (js_lib J) d) = json_Date J d" for d
    by (simp add: json_Date_def FormatDate_def)
  then show ?thesis using assms
    by (simp add: DecisionRecord_of_json_def record_to_json_def decode_simps int64_def)
qed

text \<open>C22: a bar, a ticker's information, its ratios, the metadata of a data set and a decision record are read
  back from their JSON value as they were, except that a date keeps its day and loses the time of day (the fields
  \<^verbatim>\<open>date\<close>, \<^verbatim>\<open>retrieved_at\<close> and \<^verbatim>\<open>recorded_at\<close> are written as \<^verbatim>\<open>%F\<close>): for a JSON library that finds
  the members of an object and reads scalars back, a date library whose \<^verbatim>\<open>%F\<close> text reads as the day, and integers
  of 64 bits.\<close>

theorem json_round_trip:
  assumes "json_objects J" "json_scalars J" "day_texts J parse"
    and "date_ok (bar_date b)" "date_ok (md_retrieved_at m)" "date_ok (dr_recorded_at r)"
    and "int64 (bar_volume b)" "int64 (ti_employees t)" "int64 (fr_market_cap f)" "int64 (dr_random_seed r)"
  shows "OHLCV_of_json J parse (json_OHLCV J b) = Inr (b\<lparr>bar_date := day_of (bar_date b)\<rparr>) \<and>
    TickerInfo_of_json J (json_TickerInfo J t) = Inr t \<and>
    FinancialRatios_of_json J (json_FinancialRatios J f) = Inr f \<and>
    DataSetMetadata_of_json J parse (json_DataSetMetadata J m) = Inr (m\<lparr>md_retrieved_at := day_of (md_retrieved_at m)\<rparr>) \<and>
    DecisionRecord_of_json J parse (record_to_json (js_lib J) r) = Inr (r\<lparr>dr_recorded_at := day_of (dr_recorded_at r)\<rparr>)"
  using assms by (simp add: OHLCV_round_trip TickerInfo_round_trip FinancialRatios_round_trip
      DataSetMetadata_round_trip DecisionRecord_round_trip)

definition timed_bar :: OHLCV where
  "timed_bar = \<lparr>bar_date = 3 * ns_per_day + 5, bar_open = 1, bar_high = 1, bar_low = 0, bar_close = 1, bar_volume = 7\<rparr>"

lemma sample_day_texts: "day_texts (tree_json p) sample_parse"
  by (simp add: day_texts_def FormatDate_def tree_json_def sample_parse_dates day_of_def)

theorem json_round_trip_witness:
  "OHLCV_of_json (tree_json (\<lambda>s. None)) sample_parse (json_OHLCV (tree_json (\<lambda>s. None)) timed_bar) =
     Inr (timed_bar\<lparr>bar_date := 3 * ns_per_day\<rparr>)"
proof -
  let ?J = "tree_json (\<lambda>s. None)"
  obtain t :: TickerInfo where t: "int64 (ti_employees t)" by (rule that [of "\<lparr>ti_symbol = [], ti_name = [], ti_sector = [],
    ti_industry = [], ti_employees = 5, ti_city = [], ti_country = [], ti_website = []\<rparr>"]) (simp add: int64_def)
  obtain f :: FinancialRatios where f: "int64 (fr_market_cap f)" by (rule that [of "\<lparr>fr_symbol = [], fr_forward_pe = [],
    fr_trailing_pe = [], fr_price_to_book = [], fr_debt_to_equity = [], fr_roe = [], fr_profit_margins = [],
    fr_dividend_yield = [], fr_market_cap = 5\<rparr>"]) (simp add: int64_def)
  obtain m :: DataSetMetadata where m: "md_retrieved_at m = 0" by (rule that [of "\<lparr>md_provider = [], md_adjusted = False,
    md_survivorship_free = False, md_point_in_time = False, md_frequency = [], md_timezone = [], md_retrieved_at = 0\<rparr>"]) simp
  obtain r :: "tree DecisionRecord" where r: "dr_recorded_at r = 0" "int64 (dr_random_seed r)"
    by (rule that [of "audit_record [] [] [] 5 [] [] TNull TNull None"]) (simp_all add: audit_record_def int64_def)
  have d: "date_ok 0" "date_ok (bar_date timed_bar)" "day_of (bar_date timed_bar) = 3 * ns_per_day" "int64 (bar_volume timed_bar)"
    by (simp_all add: date_ok_def day_of_def int64_def ns_per_day_def timed_bar_def)
  show ?thesis
    using json_round_trip [of ?J sample_parse timed_bar m r t f] t f m r d
    by (simp add: tree_json_objects tree_json_scalars sample_day_texts)
qed

end
