(* ===== verification/Tools.thy ===== *)
theory Tools
  imports Json_Serialization
begin

text \<open>
  \<^verbatim>\<open>agent/tool.hpp\<close>, \<^verbatim>\<open>agent/tool.cpp\<close>: the tools the agent offers. The parameter schemas, literals the
  source parses, are written as the values they denote.
\<close>

record 'j ToolDefinition =
  td_name :: string
  td_description :: string
  td_parameters :: 'j

record 'j ToolResult =
  to_output :: 'j

definition json_ToolDefinition :: "'j Json \<Rightarrow> 'j ToolDefinition \<Rightarrow> 'j" where
  "json_ToolDefinition J t = js_object J
     [(''name'', js_str J (td_name t)),
      (''description'', js_str J (td_description t)),
      (''parameters'', td_parameters t)]"

definition ToolDefinition_of_json :: "'j Json \<Rightarrow> 'j \<Rightarrow> 'j ToolDefinition result" where
  "ToolDefinition_of_json J j =
     ebind (json_at J (js_get_string J) j ''name'') (\<lambda>name.
     ebind (json_at J (js_get_string J) j ''description'') (\<lambda>description.
     ebind (json_at J Inr j ''parameters'') (\<lambda>parameters.
       Inr \<lparr>td_name = name, td_description = description, td_parameters = parameters\<rparr>)))"

definition OkResult :: "'j \<Rightarrow> 'j ToolResult" where
  "OkResult output = \<lparr>to_output = output\<rparr>"

definition ErrorResult :: "'j Json \<Rightarrow> string \<Rightarrow> 'j ToolResult" where
  "ErrorResult J message = \<lparr>to_output = js_object J [(''error'', js_str J message)]\<rparr>"

section \<open>Names\<close>

definition ToolHealth :: string where "ToolHealth = ''health''"
definition ToolListTools :: string where "ToolListTools = ''list_tools''"
definition ToolFetchOhlcv :: string where "ToolFetchOhlcv = ''fetch_ohlcv''"
definition ToolCalculateIndicator :: string where "ToolCalculateIndicator = ''calculate_indicator''"
definition ToolCalculateReturnMetrics :: string where "ToolCalculateReturnMetrics = ''calculate_return_metrics''"
definition ToolCalculateRiskMetrics :: string where "ToolCalculateRiskMetrics = ''calculate_risk_metrics''"
definition ToolRunAnalysis :: string where "ToolRunAnalysis = ''run_analysis''"
definition ToolRunBacktest :: string where "ToolRunBacktest = ''run_backtest''"
definition ToolOptimizePortfolio :: string where "ToolOptimizePortfolio = ''optimize_portfolio''"
definition ToolRiskParityPortfolio :: string where "ToolRiskParityPortfolio = ''risk_parity''"
definition ToolBlackLittermanPortfolio :: string where "ToolBlackLittermanPortfolio = ''black_litterman''"
definition ToolScreenStocks :: string where "ToolScreenStocks = ''screen_stocks''"

lemmas tool_names =
  ToolHealth_def ToolListTools_def ToolFetchOhlcv_def ToolCalculateIndicator_def ToolCalculateReturnMetrics_def
  ToolCalculateRiskMetrics_def ToolRunAnalysis_def ToolRunBacktest_def ToolOptimizePortfolio_def
  ToolRiskParityPortfolio_def ToolBlackLittermanPortfolio_def ToolScreenStocks_def

section \<open>Schemas\<close>

definition schema_type :: "'j Json \<Rightarrow> string \<Rightarrow> 'j" where
  "schema_type J t = js_object J [(''type'', js_str J t)]"

definition schema_date :: "'j Json \<Rightarrow> 'j" where
  "schema_date J = js_object J [(''type'', js_str J ''string''), (''format'', js_str J ''date'')]"

definition schema_enum :: "'j Json \<Rightarrow> string list \<Rightarrow> 'j" where
  "schema_enum J vs = js_object J [(''type'', js_str J ''string''), (''enum'', json_strings J vs)]"

definition schema_object :: "'j Json \<Rightarrow> (string \<times> 'j) list \<Rightarrow> string list \<Rightarrow> 'j" where
  "schema_object J properties required = js_object J
     [(''type'', js_str J ''object''), (''properties'', js_object J properties),
      (''required'', json_strings J required)]"

definition schema_empty :: "'j Json \<Rightarrow> 'j" where
  "schema_empty J = js_object J [(''type'', js_str J ''object''), (''properties'', js_object J [])]"

text \<open>The entries of a request for a series, and the interval.\<close>

definition schema_series :: "'j Json \<Rightarrow> (string \<times> 'j) list" where
  "schema_series J =
     [(''ticker'', schema_type J ''string''), (''start'', schema_date J), (''end'', schema_date J),
      (''interval'', schema_enum J [''daily'', ''weekly'', ''monthly''])]"

definition ListTools :: "'j Json \<Rightarrow> 'j ToolDefinition list" where
  "ListTools J =
     [\<lparr>td_name = ToolHealth, td_description = ''Return agent health status.'', td_parameters = schema_empty J\<rparr>,
      \<lparr>td_name = ToolListTools, td_description = ''List all registered tool names.'', td_parameters = schema_empty J\<rparr>,
      \<lparr>td_name = ToolFetchOhlcv, td_description = ''Fetch OHLCV bars for a single ticker.'',
       td_parameters = schema_object J (schema_series J @ [(''provider'', schema_type J ''string'')])
         [''ticker'', ''start'', ''end'']\<rparr>,
      \<lparr>td_name = ToolCalculateIndicator, td_description = ''Calculate a technical indicator for a ticker.'',
       td_parameters = schema_object J
         ((''indicator'', schema_type J ''string'') # schema_series J @ [(''params'', schema_type J ''object'')])
         [''indicator'', ''ticker'', ''start'', ''end'']\<rparr>,
      \<lparr>td_name = ToolCalculateReturnMetrics,
       td_description = ''Calculate return metrics for a ticker's close prices.'',
       td_parameters = schema_object J (schema_series J @ [(''risk_free_rate'', schema_type J ''number'')])
         [''ticker'', ''start'', ''end'']\<rparr>,
      \<lparr>td_name = ToolCalculateRiskMetrics,
       td_description = ''Calculate risk metrics for a ticker's close prices.'',
       td_parameters = schema_object J (schema_series J @ [(''risk_free_rate'', schema_type J ''number'')])
         [''ticker'', ''start'', ''end'']\<rparr>,
      \<lparr>td_name = ToolRunAnalysis,
       td_description =
         ''Run an analysis operation (regression, cointegration, hurst, pca, correlation, options).'',
       td_parameters = schema_object J
         [(''operation'', schema_enum J [''regression'', ''cointegration'', ''hurst'', ''pca'', ''correlation'', ''options'']),
          (''request'', schema_type J ''object'')]
         [''operation'', ''request'']\<rparr>,
      \<lparr>td_name = ToolRunBacktest, td_description = ''Run a backtest strategy over a ticker.'',
       td_parameters = schema_object J
         ((''strategy'', schema_type J ''string'') # schema_series J @
          [(''params'', schema_type J ''object''), (''config'', schema_type J ''object'')])
         [''strategy'', ''ticker'', ''start'', ''end'']\<rparr>,
      \<lparr>td_name = ToolOptimizePortfolio, td_description = ''Run mean-variance portfolio optimization.'',
       td_parameters = schema_object J [(''request'', schema_type J ''object'')] [''request'']\<rparr>,
      \<lparr>td_name = ToolRiskParityPortfolio,
       td_description = ''Run risk-parity portfolio allocation with equal per-asset risk contributions.'',
       td_parameters = schema_object J [(''request'', schema_type J ''object'')] [''request'']\<rparr>,
      \<lparr>td_name = ToolBlackLittermanPortfolio,
       td_description = ''Run simplified Black-Litterman portfolio optimization.'',
       td_parameters = schema_object J [(''request'', schema_type J ''object'')] [''request'']\<rparr>,
      \<lparr>td_name = ToolScreenStocks, td_description = ''Screen a universe of tickers by fundamental criteria.'',
       td_parameters = schema_object J
         [(''tickers'', js_object J [(''type'', js_str J ''array''), (''items'', schema_type J ''string'')]),
          (''criteria'', schema_type J ''object'')]
         [''tickers'']\<rparr>]"

definition FindTool :: "'j Json \<Rightarrow> string \<Rightarrow> 'j ToolDefinition option" where
  "FindTool J name = find (\<lambda>t. td_name t = name) (ListTools J)"

section \<open>Facts\<close>

lemma tool_list: "map td_name (ListTools J) =
    [''health'', ''list_tools'', ''fetch_ohlcv'', ''calculate_indicator'', ''calculate_return_metrics'',
     ''calculate_risk_metrics'', ''run_analysis'', ''run_backtest'', ''optimize_portfolio'', ''risk_parity'',
     ''black_litterman'', ''screen_stocks'']"
  by (simp add: ListTools_def tool_names)

lemma FindTool_None: "FindTool J name = None \<longleftrightarrow> name \<notin> td_name ` set (ListTools J)"
  by (auto simp: FindTool_def find_None_iff)

lemma FindTool_Some: "FindTool J name = Some t \<Longrightarrow> td_name t = name \<and> t \<in> set (ListTools J)"
  by (auto simp: FindTool_def find_Some_iff)

lemma ToolDefinition_round_trip:
  assumes "json_objects J" "json_scalars J"
  shows "ToolDefinition_of_json J (json_ToolDefinition J t) = Inr t"
  using assms by (simp add: ToolDefinition_of_json_def json_ToolDefinition_def decode_simps)

end
