(* ===== verification/Steps.thy ===== *)
theory Steps
  imports Walk_Forward
begin

text \<open>
  Handlers as steps: a computation that may throw and that changes a state, kept when it throws. The
  combinators are the sequencing and the \<^verbatim>\<open>try\<close> of the handlers; a relation between states that
  every part of a handler respects is respected by the handler.
\<close>

named_theorems uniform_intros \<open>steps that respect a relation between states\<close>

type_synonym ('a, 's) step = "'s \<Rightarrow> 'a result \<times> 's"

definition no_state :: "'a result \<Rightarrow> ('a, 's) step" where
  "no_state r s = (r, s)"

text \<open>A computation that leaves the state alone, before a step and after it; two steps in sequence.\<close>

definition first_do :: "'a result \<Rightarrow> ('a \<Rightarrow> ('b, 's) step) \<Rightarrow> ('b, 's) step" where
  "first_do m k s = (case m of Inl e \<Rightarrow> (Inl e, s) | Inr x \<Rightarrow> k x s)"

definition then_do :: "('a, 's) step \<Rightarrow> ('a \<Rightarrow> 'b result) \<Rightarrow> ('b, 's) step" where
  "then_do m k s = (case m s of (r, s') \<Rightarrow> (ebind r k, s'))"

definition step_bind :: "('a, 's) step \<Rightarrow> ('a \<Rightarrow> ('b, 's) step) \<Rightarrow> ('b, 's) step" where
  "step_bind m k s = (case m s of (Inl e, s') \<Rightarrow> (Inl e, s') | (Inr x, s') \<Rightarrow> k x s')"

text \<open>\<^verbatim>\<open>try { m } catch (const std::exception& e) { h }\<close>: undefined behaviour is not caught.\<close>

definition step_catch :: "('a, 's) step \<Rightarrow> (exn \<Rightarrow> ('a, 's) step) \<Rightarrow> ('a, 's) step" where
  "step_catch m h s =
     (case m s of
        (Inr x, s') \<Rightarrow> (Inr x, s')
      | (Inl e, s') \<Rightarrow> if catchable e then h e s' else (Inl e, s'))"

lemma step_simps [simp]:
  "no_state r s = (r, s)"
  "first_do (Inl e) k s = (Inl e, s)" "first_do (Inr x) k s = k x s"
  by (simp_all add: no_state_def first_do_def)

text \<open>The step of a part of the state, lifted to the whole of it.\<close>

definition lift_step :: "('t \<Rightarrow> 's) \<Rightarrow> ('s \<Rightarrow> 't \<Rightarrow> 't) \<Rightarrow> ('a, 's) step \<Rightarrow> ('a, 't) step" where
  "lift_step get put m t = (case m (get t) of (r, s') \<Rightarrow> (r, put s' t))"

section \<open>Steps that respect a relation\<close>

definition uniform :: "('s \<Rightarrow> 's \<Rightarrow> bool) \<Rightarrow> ('a, 's) step \<Rightarrow> bool" where
  "uniform R m \<longleftrightarrow> (\<forall>s t. R s t \<longrightarrow> fst (m s) = fst (m t) \<and> R (snd (m s)) (snd (m t)))"

lemma uniformI: "(\<And>s t. R s t \<Longrightarrow> fst (m s) = fst (m t) \<and> R (snd (m s)) (snd (m t))) \<Longrightarrow> uniform R m"
  by (simp add: uniform_def)

lemma uniformD: "uniform R m \<Longrightarrow> R s t \<Longrightarrow> fst (m s) = fst (m t) \<and> R (snd (m s)) (snd (m t))"
  by (simp add: uniform_def)

lemma uniform_return [uniform_intros]: "uniform R (no_state r)"
  by (simp add: uniform_def)

lemma uniform_first_do: "(\<And>a. m = Inr a \<Longrightarrow> uniform R (k a)) \<Longrightarrow> uniform R (first_do m k)"
  by (cases m) (auto simp: uniform_def first_do_def)

lemma uniform_first_do_all [uniform_intros]: "(\<And>a. uniform R (k a)) \<Longrightarrow> uniform R (first_do m k)"
  by (rule uniform_first_do)

lemma uniform_then_do [uniform_intros]: "uniform R m \<Longrightarrow> uniform R (then_do m k)"
  by (fastforce simp: uniform_def then_do_def split: prod.splits)

lemma uniform_bind [uniform_intros]:
  assumes "uniform R m" "\<And>a. uniform R (k a)"
  shows "uniform R (step_bind m k)"
proof (rule uniformI)
  fix s t assume r: "R s t"
  obtain p s' q t' where e: "m s = (p, s')" "m t = (q, t')" by fastforce
  then have "p = q" "R s' t'" using uniformD [OF assms(1) r] by simp_all
  then show "fst (step_bind m k s) = fst (step_bind m k t) \<and> R (snd (step_bind m k s)) (snd (step_bind m k t))"
    using assms(2) by (cases q) (auto simp: step_bind_def e dest: uniformD)
qed

lemma uniform_catch [uniform_intros]:
  assumes "uniform R m" "\<And>e. uniform R (h e)"
  shows "uniform R (step_catch m h)"
proof (rule uniformI)
  fix s t assume r: "R s t"
  obtain p s' q t' where e: "m s = (p, s')" "m t = (q, t')" by fastforce
  then have "p = q" "R s' t'" using uniformD [OF assms(1) r] by simp_all
  then show "fst (step_catch m h s) = fst (step_catch m h t) \<and> R (snd (step_catch m h s)) (snd (step_catch m h t))"
    using assms(2) by (cases q) (auto simp: step_catch_def e dest: uniformD)
qed

lemma uniform_if [uniform_intros]: "uniform R m \<Longrightarrow> uniform R n \<Longrightarrow> uniform R (if c then m else n)"
  by simp

lemma uniform_lift:
  assumes "uniform R m" "\<And>s t. Q s t \<Longrightarrow> R (get s) (get t)"
    and "\<And>s t s' t'. Q s t \<Longrightarrow> R s' t' \<Longrightarrow> Q (put s' s) (put t' t)"
  shows "uniform Q (lift_step get put m)"
proof (rule uniformI)
  fix s t assume q: "Q s t"
  obtain a s' b t' where e: "m (get s) = (a, s')" "m (get t) = (b, t')" by fastforce
  then have "a = b" "R s' t'" using uniformD [OF assms(1) assms(2) [OF q]] by simp_all
  then show "fst (lift_step get put m s) = fst (lift_step get put m t) \<and>
      Q (snd (lift_step get put m s)) (snd (lift_step get put m t))"
    using assms(3) [OF q] by (simp add: lift_step_def e)
qed

section \<open>Steps that keep an invariant\<close>

named_theorems keeps_intros \<open>steps that keep an invariant of the state\<close>

definition keeps :: "('s \<Rightarrow> bool) \<Rightarrow> ('a, 's) step \<Rightarrow> bool" where
  "keeps P m \<longleftrightarrow> (\<forall>s. P s \<longrightarrow> P (snd (m s)))"

lemma keepsI: "(\<And>s. P s \<Longrightarrow> P (snd (m s))) \<Longrightarrow> keeps P m"
  by (simp add: keeps_def)

lemma keepsD: "keeps P m \<Longrightarrow> P s \<Longrightarrow> P (snd (m s))"
  by (simp add: keeps_def)

lemma keeps_return [keeps_intros]: "keeps P (no_state r)"
  by (simp add: keeps_def)

lemma keeps_first_do [keeps_intros]: "(\<And>a. keeps P (k a)) \<Longrightarrow> keeps P (first_do m k)"
  by (cases m) (auto simp: keeps_def first_do_def)

lemma keeps_then_do [keeps_intros]: "keeps P m \<Longrightarrow> keeps P (then_do m k)"
  by (fastforce simp: keeps_def then_do_def split: prod.splits)

lemma keeps_bind [keeps_intros]: "keeps P m \<Longrightarrow> (\<And>a. keeps P (k a)) \<Longrightarrow> keeps P (step_bind m k)"
  by (fastforce simp: keeps_def step_bind_def split: prod.splits sum.splits)

lemma keeps_catch [keeps_intros]: "keeps P m \<Longrightarrow> (\<And>e. keeps P (h e)) \<Longrightarrow> keeps P (step_catch m h)"
  by (fastforce simp: keeps_def step_catch_def split: prod.splits sum.splits)

lemma keeps_if [keeps_intros]: "keeps P m \<Longrightarrow> keeps P n \<Longrightarrow> keeps P (if c then m else n)"
  by simp

end
