(* ===== verification/Dispatcher.thy ===== *)
theory Dispatcher
  imports Tools Steps
begin

text \<open>
  \<^verbatim>\<open>agent/dispatcher.cpp\<close>: from the arguments of a tool call to the component that answers it. What is
  outside the repository is in \<open>Externals\<close>: the JSON and the date libraries, the cache and the
  fundamental data behind their interfaces, the mathematical functions, sorting with a comparison,
  and the text a stream makes of the pieces of a message. The tools that fetch thread the state of
  the market-data service. A computation that makes no progress is undefined behaviour.
\<close>

record ('j, 'c) Externals =
  ex_json :: "'j Json"
  ex_parse_date :: "string \<Rightarrow> Date option"
  ex_get :: "'c \<Rightarrow> string \<Rightarrow> OHLCV list option"
  ex_put :: "'c \<Rightarrow> string \<Rightarrow> OHLCV list \<Rightarrow> 'c"
  ex_fundamentals :: "string \<Rightarrow> FundamentalData result"
  ex_pow :: "double \<Rightarrow> double \<Rightarrow> double"
  ex_log :: "double \<Rightarrow> double"
  ex_exp :: "double \<Rightarrow> double"
  ex_sort :: "(nat \<Rightarrow> nat \<Rightarrow> bool) \<Rightarrow> nat list \<Rightarrow> nat list"
  ex_text :: "msg \<Rightarrow> string"

section \<open>Arguments\<close>

definition ParseDateParam :: "('j, 'c) Externals \<Rightarrow> string \<Rightarrow> 'j \<Rightarrow> Date result" where
  "ParseDateParam x name args =
     (let J = ex_json x in
      if \<not> js_contains J args name \<or> \<not> js_is_string J (js_field J args name)
      then Inl (InvalidCommandError [T name, T '' date is required''])
      else ebind (js_get_string J (js_field J args name)) (ParseDate (ex_parse_date x)))"

definition fetch_series :: "('j, 'c) Externals \<Rightarrow> Ticker \<Rightarrow> BarInterval \<Rightarrow> DateRange \<Rightarrow> string \<Rightarrow>
    (OHLCV list, 'c Service) step" where
  "fetch_series x ticker interval rng provider svc =
     Service_Fetch (FormatDate (ex_json x)) (ex_get x) (ex_put x) svc ticker interval rng provider"

definition FetchSeries :: "('j, 'c) Externals \<Rightarrow> 'j \<Rightarrow> string \<Rightarrow> (OHLCV list, 'c Service) step" where
  "FetchSeries x args ticker_field =
     (let J = ex_json x in
      first_do (ebind (json_value J (js_get_string J) args ticker_field []) make_Ticker) (\<lambda>ticker.
      first_do (ParseDateParam x ''start'' args) (\<lambda>start.
      first_do (ParseDateParam x ''end'' args) (\<lambda>stop.
      first_do (make_DateRange start stop) (\<lambda>rng.
      first_do (ebind (json_value J (js_get_string J) args ''interval'' ''daily'') ParseBarInterval) (\<lambda>interval.
      first_do (json_value J (js_get_string J) args ''provider'' []) (\<lambda>provider.
        fetch_series x ticker interval rng provider)))))))"

definition ExtractCloses :: "OHLCV list \<Rightarrow> double list" where
  "ExtractCloses series = map bar_close series"

fun add_params :: "'j Json \<Rightarrow> params \<Rightarrow> (string \<times> 'j) list \<Rightarrow> params result" where
  "add_params J p [] = Inr p"
| "add_params J p ((k, v) # kvs) =
     (if js_is_number J v then ebind (js_get_double J v) (\<lambda>d. add_params J (p(k \<mapsto> d)) kvs)
      else add_params J p kvs)"

definition ParseParams :: "'j Json \<Rightarrow> 'j \<Rightarrow> params result" where
  "ParseParams J obj =
     (if \<not> js_is_object J obj then Inr Map.empty else add_params J Map.empty (js_items J obj))"

text \<open>The bars per year go through an \<^verbatim>\<open>int\<close>: a negative number becomes a large \<^verbatim>\<open>std::size_t\<close>.\<close>

definition ParseBacktestConfig :: "'j Json \<Rightarrow> 'j \<Rightarrow> BacktestConfig result" where
  "ParseBacktestConfig J obj =
     (let config = default_BacktestConfig in
      if \<not> js_is_object J obj then Inr config
      else
        ebind (json_value J (js_get_double J) obj ''initial_capital'' (bc_initial_capital config)) (\<lambda>initial_capital.
        ebind (json_value J (js_get_double J) obj ''commission_rate'' (bc_commission_rate config)) (\<lambda>commission_rate.
        ebind (json_value J (js_get_int J) obj ''periods_per_year'' (int (bc_periods_per_year config))) (\<lambda>periods_per_year.
        ebind (json_value J (js_get_double J) obj ''risk_free_rate'' (bc_risk_free_rate config)) (\<lambda>risk_free_rate.
          Inr \<lparr>bc_initial_capital = initial_capital, bc_commission_rate = commission_rate,
            bc_periods_per_year = nat (periods_per_year mod 2 ^ 64), bc_risk_free_rate = risk_free_rate\<rparr>)))))"

definition ParseOptimizationMetric :: "string \<Rightarrow> OptimizationMetric" where
  "ParseOptimizationMetric name =
     (if name = ''sharpe'' then Sharpe else if name = ''win_rate'' then WinRate else TotalReturn)"

definition default_Request :: "string \<Rightarrow> Request" where
  "default_Request operation =
     \<lparr>rq_operation = operation, rq_asset_returns = [], rq_benchmark_returns = [], rq_a_closes = [], rq_b_closes = [],
      rq_prices = [], rq_max_lag = None, rq_returns_matrix = [], rq_n_components = 1, rq_returns_map = [],
      rq_black_scholes = None\<rparr>"

definition ParseBlackScholesParams :: "'j Json \<Rightarrow> 'j \<Rightarrow> BlackScholesParams result" where
  "ParseBlackScholesParams J body =
     ebind (json_value J (js_get_double J) body ''spot'' 0) (\<lambda>spot.
     ebind (json_value J (js_get_double J) body ''strike'' 0) (\<lambda>strike.
     ebind (json_value J (js_get_double J) body ''risk_free_rate'' 0) (\<lambda>risk_free_rate.
     ebind (json_value J (js_get_double J) body ''volatility'' 0) (\<lambda>volatility.
     ebind (json_value J (js_get_double J) body ''time_to_maturity'' 0) (\<lambda>time_to_maturity.
     ebind (json_value J (js_get_string J) body ''option_type'' ''call'') (\<lambda>type.
       Inr \<lparr>bs_spot = spot, bs_strike = strike, bs_risk_free_rate = risk_free_rate, bs_volatility = volatility,
         bs_time_to_maturity = time_to_maturity,
         bs_option_type = (if type = ''put'' then OptionType.Put else OptionType.Call)\<rparr>))))))"

definition ParseAnalysisRequest :: "'j Json \<Rightarrow> string \<Rightarrow> 'j \<Rightarrow> Request result" where
  "ParseAnalysisRequest J operation body =
     (let req = default_Request operation in
      if operation = ''regression'' then
        ebind (json_if_present J (js_get_doubles J) body ''asset_returns'' []) (\<lambda>asset.
        ebind (json_if_present J (js_get_doubles J) body ''benchmark_returns'' []) (\<lambda>benchmark.
          Inr (req\<lparr>rq_asset_returns := asset, rq_benchmark_returns := benchmark\<rparr>)))
      else if operation = ''cointegration'' then
        ebind (json_if_present J (js_get_doubles J) body ''a_closes'' []) (\<lambda>a.
        ebind (json_if_present J (js_get_doubles J) body ''b_closes'' []) (\<lambda>b.
          Inr (req\<lparr>rq_a_closes := a, rq_b_closes := b\<rparr>)))
      else if operation = ''hurst'' then
        ebind (json_if_present J (js_get_doubles J) body ''prices'' []) (\<lambda>prices.
        ebind (json_if_present J (\<lambda>v. ebind (js_get_int J v) (\<lambda>i. Inr (Some i))) body ''max_lag'' None) (\<lambda>max_lag.
          Inr (req\<lparr>rq_prices := prices, rq_max_lag := max_lag\<rparr>)))
      else if operation = ''pca'' then
        ebind (json_if_present J (js_get_matrix J) body ''returns_matrix'' []) (\<lambda>m.
        ebind (json_value J (js_get_int J) body ''n_components'' (rq_n_components req)) (\<lambda>n.
          Inr (req\<lparr>rq_returns_matrix := m, rq_n_components := n\<rparr>)))
      else if operation = ''correlation'' then
        ebind (json_if_present J (js_get_doubles_map J) body ''returns_map'' []) (\<lambda>m.
          Inr (req\<lparr>rq_returns_map := m\<rparr>))
      else if operation = ''options'' then
        ebind (ParseBlackScholesParams J body) (\<lambda>p. Inr (req\<lparr>rq_black_scholes := Some p\<rparr>))
      else Inr req)"

definition optional_double :: "'j Json \<Rightarrow> 'j \<Rightarrow> string \<Rightarrow> double option result" where
  "optional_double J body k =
     json_if_present J (\<lambda>v. ebind (js_get_double J v) (\<lambda>d. Inr (Some d))) body k None"

definition ParseMeanVarianceRequest :: "'j Json \<Rightarrow> 'j \<Rightarrow> MeanVarianceRequest result" where
  "ParseMeanVarianceRequest J body =
     ebind (json_value J (js_get_matrix J) body ''returns'' []) (\<lambda>returns.
     ebind (json_value J (js_get_strings J) body ''labels'' []) (\<lambda>labels.
     ebind (json_value J (js_get_double J) body ''risk_free_rate'' 0) (\<lambda>risk_free_rate.
     ebind (json_value J (js_get_string J) body ''objective'' ''max_sharpe'') (\<lambda>objective.
     ebind (optional_double J body ''target_return'') (\<lambda>target_return.
     ebind (optional_double J body ''target_volatility'') (\<lambda>target_volatility.
       Inr \<lparr>mv_returns = returns, mv_labels = labels, mv_risk_free_rate = risk_free_rate,
         mv_objective = objective, mv_target_return = target_return,
         mv_target_volatility = target_volatility\<rparr>))))))"

definition ParseRiskParityRequest :: "'j Json \<Rightarrow> 'j \<Rightarrow> RiskParityRequest result" where
  "ParseRiskParityRequest J body =
     ebind (json_value J (js_get_matrix J) body ''returns'' []) (\<lambda>returns.
     ebind (json_value J (js_get_strings J) body ''labels'' []) (\<lambda>labels.
       Inr \<lparr>rp_returns = returns, rp_labels = labels\<rparr>))"

definition ParseBlackLittermanRequest :: "'j Json \<Rightarrow> 'j \<Rightarrow> BlackLittermanSimplifiedRequest result" where
  "ParseBlackLittermanRequest J body =
     ebind (json_value J (js_get_matrix J) body ''returns'' []) (\<lambda>returns.
     ebind (json_value J (js_get_strings J) body ''labels'' []) (\<lambda>labels.
     ebind (json_if_present J (js_get_double_map J) body ''market_caps'' []) (\<lambda>market_caps.
     ebind (json_if_present J (js_get_double_map J) body ''views'' []) (\<lambda>views.
     ebind (json_value J (js_get_double J) body ''tau'' (lit (5/100))) (\<lambda>tau.
     ebind (json_value J (js_get_double J) body ''risk_aversion'' (lit (5/2))) (\<lambda>risk_aversion.
       Inr \<lparr>bs_returns = returns, bs_labels = labels, bs_market_caps = market_caps, bs_views = views,
         bs_tau = tau, bs_risk_aversion = risk_aversion\<rparr>))))))"

definition criterion :: "'j Json \<Rightarrow> 'j \<Rightarrow> string \<Rightarrow> double option result" where
  "criterion J j k =
     (if \<not> js_contains J j k \<or> \<not> js_is_number J (js_field J j k) then Inr None
      else ebind (js_get_double J (js_field J j k)) (\<lambda>d. Inr (Some d)))"

definition no_criteria :: ScreenCriteria where
  "no_criteria =
     \<lparr>pe_ratio_max = None, pe_ratio_min = None, pb_ratio_max = None, pb_ratio_min = None,
      market_cap_max = None, market_cap_min = None, dividend_yield_max = None, dividend_yield_min = None,
      eps_growth_max = None, eps_growth_min = None, debt_to_equity_max = None, debt_to_equity_min = None,
      roe_max = None, roe_min = None\<rparr>"

definition ParseScreenCriteria :: "'j Json \<Rightarrow> 'j \<Rightarrow> ScreenCriteria result" where
  "ParseScreenCriteria J obj =
     (if \<not> js_is_object J obj then Inr no_criteria
      else
        ebind (criterion J obj ''pe_ratio_max'') (\<lambda>c1.
        ebind (criterion J obj ''pe_ratio_min'') (\<lambda>c2.
        ebind (criterion J obj ''pb_ratio_max'') (\<lambda>c3.
        ebind (criterion J obj ''pb_ratio_min'') (\<lambda>c4.
        ebind (criterion J obj ''market_cap_max'') (\<lambda>c5.
        ebind (criterion J obj ''market_cap_min'') (\<lambda>c6.
        ebind (criterion J obj ''dividend_yield_max'') (\<lambda>c7.
        ebind (criterion J obj ''dividend_yield_min'') (\<lambda>c8.
        ebind (criterion J obj ''eps_growth_max'') (\<lambda>c9.
        ebind (criterion J obj ''eps_growth_min'') (\<lambda>c10.
        ebind (criterion J obj ''debt_to_equity_max'') (\<lambda>c11.
        ebind (criterion J obj ''debt_to_equity_min'') (\<lambda>c12.
        ebind (criterion J obj ''roe_max'') (\<lambda>c13.
        ebind (criterion J obj ''roe_min'') (\<lambda>c14.
          Inr \<lparr>pe_ratio_max = c1, pe_ratio_min = c2, pb_ratio_max = c3, pb_ratio_min = c4,
            market_cap_max = c5, market_cap_min = c6, dividend_yield_max = c7, dividend_yield_min = c8,
            eps_growth_max = c9, eps_growth_min = c10, debt_to_equity_max = c11, debt_to_equity_min = c12,
            roe_max = c13, roe_min = c14\<rparr>)))))))))))))))"

section \<open>The tools\<close>

text \<open>\<^verbatim>\<open>args.value(key, json::object())\<close>.\<close>

definition object_value :: "'j Json \<Rightarrow> 'j \<Rightarrow> string \<Rightarrow> 'j result" where
  "object_value J args k = json_value J Inr args k (js_object J [])"

definition required_string :: "'j Json \<Rightarrow> 'j \<Rightarrow> string \<Rightarrow> string result" where
  "required_string J args name =
     ebind (json_value J (js_get_string J) args name []) (\<lambda>s.
     ebind (throw_if (s = []) (InvalidCommandError [T name, T '' is required''])) (\<lambda>_. Inr s))"

definition FetchOhlcv :: "('j, 'c) Externals \<Rightarrow> 'j \<Rightarrow> ('j ToolResult, 'c Service) step" where
  "FetchOhlcv x args =
     (let J = ex_json x in
      then_do (FetchSeries x args ''ticker'') (\<lambda>series. Inr (OkResult (js_array J (map (json_OHLCV J) series)))))"

definition CalculateIndicator :: "('j, 'c) Externals \<Rightarrow> 'j \<Rightarrow> ('j ToolResult, 'c Service) step" where
  "CalculateIndicator x args =
     (let J = ex_json x in
      first_do (required_string J args ''indicator'') (\<lambda>indicator.
      then_do (FetchSeries x args ''ticker'') (\<lambda>series.
        ebind (ebind (object_value J args ''params'') (ParseParams J)) (\<lambda>params.
        ebind (Calculate indicator series params) (\<lambda>res. Inr (OkResult (json_IndicatorResult J res)))))))"

definition CalculateReturnMetrics_tool :: "('j, 'c) Externals \<Rightarrow> 'j \<Rightarrow> ('j ToolResult, 'c Service) step" where
  "CalculateReturnMetrics_tool x args =
     (let J = ex_json x in
      then_do (FetchSeries x args ''ticker'') (\<lambda>series.
        ebind (json_value J (js_get_double J) args ''risk_free_rate'' kDefaultRiskFreeRate) (\<lambda>risk_free_rate.
        ebind (CalculateReturnMetrics (ex_pow x) (ExtractCloses series) risk_free_rate) (\<lambda>res.
          Inr (OkResult (json_ReturnMetrics J res))))))"

definition CalculateRiskMetrics_tool :: "('j, 'c) Externals \<Rightarrow> 'j \<Rightarrow> ('j ToolResult, 'c Service) step" where
  "CalculateRiskMetrics_tool x args =
     (let J = ex_json x in
      then_do (FetchSeries x args ''ticker'') (\<lambda>series.
        ebind (json_value J (js_get_double J) args ''risk_free_rate'' kDefaultRiskFreeRate) (\<lambda>risk_free_rate.
        ebind (CalculateRiskMetrics (ex_pow x) (ExtractCloses series) risk_free_rate) (\<lambda>res.
          Inr (OkResult (json_RiskMetrics J res))))))"

definition run_analysis :: "('j, 'c) Externals \<Rightarrow> Request \<Rightarrow> AnalysisResult result" where
  "run_analysis x request =
     (case AnalysisCalculate (ex_log x) (ex_exp x) (ex_sort x) request of
        None \<Rightarrow> Inl (UndefinedBehaviour ''no progress'')
      | Some r \<Rightarrow> r)"

definition RunAnalysis :: "('j, 'c) Externals \<Rightarrow> 'j \<Rightarrow> 'j ToolResult result" where
  "RunAnalysis x args =
     (let J = ex_json x in
      ebind (required_string J args ''operation'') (\<lambda>operation.
      ebind (ebind (object_value J args ''request'') (ParseAnalysisRequest J operation)) (\<lambda>request.
      ebind (run_analysis x request) (\<lambda>res. Inr (OkResult (json_AnalysisResult J res))))))"

definition RunBacktest :: "('j, 'c) Externals \<Rightarrow> 'j \<Rightarrow> ('j ToolResult, 'c Service) step" where
  "RunBacktest x args =
     (let J = ex_json x in
      first_do (required_string J args ''strategy'') (\<lambda>strategy.
      then_do (FetchSeries x args ''ticker'') (\<lambda>series.
        ebind (ebind (object_value J args ''params'') (ParseParams J)) (\<lambda>params.
        ebind (ebind (object_value J args ''config'') (ParseBacktestConfig J)) (\<lambda>config.
        ebind (backtest strategy config series params) (\<lambda>res. Inr (OkResult (json_BacktestResult J res))))))))"

definition OptimizePortfolio :: "('j, 'c) Externals \<Rightarrow> 'j \<Rightarrow> 'j ToolResult result" where
  "OptimizePortfolio x args =
     (let J = ex_json x in
      ebind (ebind (object_value J args ''request'') (ParseMeanVarianceRequest J)) (\<lambda>request.
      ebind (MeanVariance request) (\<lambda>res. Inr (OkResult (json_PortfolioResult J res)))))"

definition RiskParityPortfolio :: "('j, 'c) Externals \<Rightarrow> 'j \<Rightarrow> 'j ToolResult result" where
  "RiskParityPortfolio x args =
     (let J = ex_json x in
      ebind (ebind (object_value J args ''request'') (ParseRiskParityRequest J)) (\<lambda>request.
      ebind (RiskParity request) (\<lambda>res. Inr (OkResult (json_PortfolioResult J res)))))"

definition BlackLittermanPortfolio :: "('j, 'c) Externals \<Rightarrow> 'j \<Rightarrow> 'j ToolResult result" where
  "BlackLittermanPortfolio x args =
     (let J = ex_json x in
      ebind (ebind (object_value J args ''request'') (ParseBlackLittermanRequest J)) (\<lambda>request.
      ebind (BlackLittermanSimplified request) (\<lambda>res. Inr (OkResult (json_BlackLittermanResult J res)))))"

definition screen_tickers :: "'j Json \<Rightarrow> 'j \<Rightarrow> string list result" where
  "screen_tickers J args =
     (if js_contains J args ''tickers'' \<and> js_is_array J (js_field J args ''tickers'')
      then js_get_strings J (js_field J args ''tickers'') else Inr [])"

definition ScreenStocks :: "('j, 'c) Externals \<Rightarrow> 'j \<Rightarrow> 'j ToolResult result" where
  "ScreenStocks x args =
     (let J = ex_json x in
      ebind (screen_tickers J args) (\<lambda>tickers.
      ebind (ebind (object_value J args ''criteria'') (ParseScreenCriteria J)) (\<lambda>criteria.
      ebind (Screen (ex_fundamentals x) tickers criteria) (\<lambda>res. Inr (OkResult (json_ScreenResult J res))))))"

definition unknown_tool :: "string \<Rightarrow> exn" where
  "unknown_tool name = InvalidCommandError [T ''unknown tool '', T name]"

definition Dispatch :: "('j, 'c) Externals \<Rightarrow> 'j ToolCall \<Rightarrow> ('j ToolResult, 'c Service) step" where
  "Dispatch x call svc =
     (let J = ex_json x; name = tc_name call; args = tc_arguments call in
      if FindTool J name = None then (Inl (unknown_tool name), svc)
      else if name = ToolHealth then (Inr (OkResult (js_object J [(''status'', js_str J ''ok'')])), svc)
      else if name = ToolListTools then (Inr (OkResult (json_strings J (map td_name (ListTools J)))), svc)
      else if name = ToolFetchOhlcv then FetchOhlcv x args svc
      else if name = ToolCalculateIndicator then CalculateIndicator x args svc
      else if name = ToolCalculateReturnMetrics then CalculateReturnMetrics_tool x args svc
      else if name = ToolCalculateRiskMetrics then CalculateRiskMetrics_tool x args svc
      else if name = ToolRunAnalysis then (RunAnalysis x args, svc)
      else if name = ToolRunBacktest then RunBacktest x args svc
      else if name = ToolOptimizePortfolio then (OptimizePortfolio x args, svc)
      else if name = ToolRiskParityPortfolio then (RiskParityPortfolio x args, svc)
      else if name = ToolBlackLittermanPortfolio then (BlackLittermanPortfolio x args, svc)
      else if name = ToolScreenStocks then (ScreenStocks x args, svc)
      else (Inl (unknown_tool name), svc))"

end
