(* ===== verification/Routes.thy ===== *)
theory Routes
  imports Dispatcher
begin

text \<open>
  \<^verbatim>\<open>api/\<close>: the handlers of the routes of \<^verbatim>\<open>rest.cpp\<close>, \<^verbatim>\<open>mcp.cpp\<close> and \<^verbatim>\<open>a2a.cpp\<close>, with the helpers of
  \<^verbatim>\<open>helpers.hpp\<close>. A handler is a step of the application state: the market-data service and the
  storage behind the audit writer. \<open>Server\<close> adds to \<open>Externals\<close> what the handlers use from outside:
  the storage interface, the number of the hash of a body as text, \<^verbatim>\<open>std::stod\<close> (no value when it
  throws) and the random number generator; a request carries the clock and the random bytes drawn
  while it is handled. Requests are handled one after the other.
\<close>

record ('c, 's) AppState =
  as_market_data :: "'c Service"
  as_audit_writer :: "'s option"

record ('j, 'c, 's, 'g) Server =
  srv_ext :: "('j, 'c) Externals"
  srv_latest :: "'s \<Rightarrow> 'j DecisionRecord result"
  srv_append :: "'s \<Rightarrow> 'j DecisionRecord \<Rightarrow> 's result"
  srv_commit :: string
  srv_version :: string
  srv_random_seed :: int
  srv_body_hash :: "string \<Rightarrow> string"
  srv_stod :: "string \<Rightarrow> double option"
  srv_seed_rng :: "64 word \<Rightarrow> 'g"
  srv_shuffle :: "'g \<Rightarrow> double list \<Rightarrow> double list \<times> 'g"

record 'g HttpRequest =
  hq_url :: string
  hq_body :: string
  hq_param :: "string \<Rightarrow> string option"
  hq_header :: "string \<Rightarrow> string"
  hq_now :: Date
  hq_random :: "8 word list"
  hq_entropy :: 'g

record Response =
  rs_code :: nat
  rs_content_type :: string
  rs_body :: string

abbreviation srv_json :: "('j, 'c, 's, 'g) Server \<Rightarrow> 'j Json" where
  "srv_json S \<equiv> ex_json (srv_ext S)"

section \<open>Helpers\<close>

definition exn_text :: "('j, 'c, 's, 'g) Server \<Rightarrow> exn \<Rightarrow> string" where
  "exn_text S e = ex_text (srv_ext S) (exn_what e)"

definition JsonResponse :: "'j Json \<Rightarrow> nat \<Rightarrow> 'j \<Rightarrow> Response result" where
  "JsonResponse J status body =
     ebind (js_dump J body) (\<lambda>s. Inr \<lparr>rs_code = status, rs_content_type = ''application/json'', rs_body = s\<rparr>)"

definition ErrorResponse :: "'j Json \<Rightarrow> nat \<Rightarrow> string \<Rightarrow> Response result" where
  "ErrorResponse J status message =
     JsonResponse J status (js_object J [(''error'', js_str J message), (''code'', js_int J (int status))])"

definition DecodeToolCall :: "'j Json \<Rightarrow> string \<Rightarrow> 'j ToolCallRequest result" where
  "DecodeToolCall J raw =
     (case js_parse J raw of
        None \<Rightarrow> Inl (RuntimeError [T ''invalid JSON body''])
      | Some body \<Rightarrow>
          ebind (json_if_present J (js_get_string J) body ''tool'' []) (\<lambda>tool.
          ebind (json_if_present J (js_get_string J) body ''name'' []) (\<lambda>name.
            Inr \<lparr>tcr_tool = tool, tcr_name = name,
              tcr_arguments =
                (if js_contains J body ''arguments'' \<and> \<not> js_is_null J (js_field J body ''arguments'')
                 then js_field J body ''arguments'' else js_object J [])\<rparr>)))"

text \<open>The dispatcher and the audit writer as steps of the application state.\<close>

definition dispatch_step ::
    "('j, 'c, 's, 'g) Server \<Rightarrow> 'j ToolCall \<Rightarrow> ('j ToolResult, ('c, 's) AppState) step" where
  "dispatch_step S call = lift_step as_market_data (\<lambda>m st. st\<lparr>as_market_data := m\<rparr>) (Dispatch (srv_ext S) call)"

definition record_audit ::
    "('j, 'c, 's, 'g) Server \<Rightarrow> 'g HttpRequest \<Rightarrow> string \<Rightarrow> string \<Rightarrow> 'j \<Rightarrow> 'j \<Rightarrow> string option \<Rightarrow>
     (unit, ('c, 's) AppState) step" where
  "record_audit S req request_id tool_name input output error st =
     (case RecordAudit (js_lib (srv_json S)) (srv_latest S) (srv_append S) (hq_now req) (as_audit_writer st)
         (audit_record (srv_commit S) (srv_version S) (GenerateUuid (hq_random req)) (srv_random_seed S)
            request_id tool_name input output error) of
        Inl e \<Rightarrow> (Inl e, st)
      | Inr w \<Rightarrow> (Inr (), st\<lparr>as_audit_writer := w\<rparr>))"

section \<open>MCP\<close>

definition text_content :: "'j Json \<Rightarrow> string \<Rightarrow> 'j" where
  "text_content J text = js_object J
     [(''content'', js_array J [js_object J [(''type'', js_str J ''text''), (''text'', js_str J text)]])]"

definition mcp_capabilities :: "('j, 'c, 's, 'g) Server \<Rightarrow> Response result" where
  "mcp_capabilities S =
     (let J = srv_json S in
      JsonResponse J 200 (js_object J
        [(''protocolVersion'', js_str J ''2024-11-05''),
         (''capabilities'', js_object J [(''tools'', js_object J [])]),
         (''serverInfo'', js_object J
            [(''name'', js_str J ''standard-tools-cpp''), (''version'', js_str J ''0.1.0'')])]))"

definition mcp_tools_list :: "('j, 'c, 's, 'g) Server \<Rightarrow> Response result" where
  "mcp_tools_list S =
     (let J = srv_json S in
      JsonResponse J 200 (js_object J [(''tools'', js_array J (map (json_ToolDefinition J) (ListTools J)))]))"

definition mcp_tools_call ::
    "('j, 'c, 's, 'g) Server \<Rightarrow> 'g HttpRequest \<Rightarrow> (Response, ('c, 's) AppState) step" where
  "mcp_tools_call S req =
     (let J = srv_json S in
      step_catch
        (first_do (DecodeToolCall J (hq_body req)) (\<lambda>tcr.
           let name = (if tcr_name tcr = [] then tcr_tool tcr else tcr_name tcr) in
           if name = [] then no_state (ErrorResponse J 400 ''name is required'')
           else
             step_bind (dispatch_step S (ToolCallFromRequest tcr)) (\<lambda>result.
             step_bind (record_audit S req [] name (tcr_arguments tcr) (to_output result) None) (\<lambda>_.
               no_state (ebind (js_dump J (to_output result)) (\<lambda>text. JsonResponse J 200 (text_content J text)))))))
        (\<lambda>e. no_state (JsonResponse J 200 (text_content J (''error: '' @ exn_text S e)))))"

section \<open>A2A\<close>

definition RequestScheme :: "'g HttpRequest \<Rightarrow> string" where
  "RequestScheme req =
     (let forwarded = hq_header req ''X-Forwarded-Proto'' in if forwarded \<noteq> [] then forwarded else ''http'')"

definition a2a_agent_card :: "('j, 'c, 's, 'g) Server \<Rightarrow> 'g HttpRequest \<Rightarrow> Response result" where
  "a2a_agent_card S req =
     (let J = srv_json S in
      JsonResponse J 200 (js_object J
        [(''name'', js_str J ''standard-tools-cpp''),
         (''description'', js_str J ''Quantitative finance toolkit agent''),
         (''version'', js_str J ''0.1.0''),
         (''url'', js_str J (RequestScheme req @ ''://'' @ hq_header req ''Host'' @ ''/a2a'')),
         (''capabilities'', js_object J [(''streaming'', js_bool J False), (''pushNotifications'', js_bool J False)]),
         (''skills'', js_array J [])]))"

definition a2a_task_id :: "('j, 'c, 's, 'g) Server \<Rightarrow> 'g HttpRequest \<Rightarrow> string" where
  "a2a_task_id S req = ''task-'' @ srv_body_hash S (hq_body req)"

text \<open>What the \<^verbatim>\<open>catch\<close> sees of the call: the value it had before the body was decoded, if that failed.\<close>

definition a2a_call :: "'j Json \<Rightarrow> string \<Rightarrow> 'j ToolCallRequest" where
  "a2a_call J raw =
     (case DecodeToolCall J raw of
        Inr tcr \<Rightarrow> tcr
      | Inl e \<Rightarrow> \<lparr>tcr_tool = [], tcr_name = [], tcr_arguments = js_null J\<rparr>)"

definition requested_tool :: "'j ToolCallRequest \<Rightarrow> string" where
  "requested_tool tcr = (if tcr_tool tcr = [] then tcr_name tcr else tcr_tool tcr)"

definition a2a_response :: "'j Json \<Rightarrow> string \<Rightarrow> string \<Rightarrow> 'j \<Rightarrow> 'j \<Rightarrow> Response result" where
  "a2a_response J task_id status output error =
     JsonResponse J 200 (js_object J
       [(''id'', js_str J task_id), (''status'', js_str J status),
        (''result'', js_object J [(''output'', output), (''error'', error)])])"

definition a2a_tasks ::
    "('j, 'c, 's, 'g) Server \<Rightarrow> 'g HttpRequest \<Rightarrow> (Response, ('c, 's) AppState) step" where
  "a2a_tasks S req =
     (let J = srv_json S; task_id = a2a_task_id S req; seen = a2a_call J (hq_body req) in
      step_catch
        (first_do (DecodeToolCall J (hq_body req)) (\<lambda>tcr.
           if tcr_tool tcr = [] \<and> tcr_name tcr = [] then no_state (ErrorResponse J 400 ''tool or name is required'')
           else
             step_bind (dispatch_step S (ToolCallFromRequest tcr)) (\<lambda>result.
             step_bind (record_audit S req task_id (requested_tool tcr) (tcr_arguments tcr) (to_output result) None) (\<lambda>_.
               no_state (a2a_response J task_id ''completed'' (to_output result) (js_null J))))))
        (\<lambda>e. step_bind (record_audit S req task_id (requested_tool seen) (tcr_arguments seen) (js_null J) (Some (exn_text S e))) (\<lambda>_.
           no_state (a2a_response J task_id ''failed'' (js_null J) (js_str J (exn_text S e))))))"

section \<open>REST: queries\<close>

definition ParseQueryDate :: "('j, 'c, 's, 'g) Server \<Rightarrow> 'g HttpRequest \<Rightarrow> string \<Rightarrow> Date result" where
  "ParseQueryDate S req name =
     (case hq_param req name of
        None \<Rightarrow> Inl (InvalidCommandError [T name, T '' date is required''])
      | Some v \<Rightarrow> ParseDate (ex_parse_date (srv_ext S)) v)"

definition ParseQueryString :: "'g HttpRequest \<Rightarrow> string \<Rightarrow> string \<Rightarrow> string" where
  "ParseQueryString req name default_value = (case hq_param req name of None \<Rightarrow> default_value | Some v \<Rightarrow> v)"

definition market_fetch ::
    "('j, 'c, 's, 'g) Server \<Rightarrow> Ticker \<Rightarrow> BarInterval \<Rightarrow> DateRange \<Rightarrow> string \<Rightarrow> (OHLCV list, ('c, 's) AppState) step" where
  "market_fetch S ticker interval rng provider =
     lift_step as_market_data (\<lambda>m st. st\<lparr>as_market_data := m\<rparr>) (fetch_series (srv_ext S) ticker interval rng provider)"

definition FetchSeriesFromQuery ::
    "('j, 'c, 's, 'g) Server \<Rightarrow> 'g HttpRequest \<Rightarrow> string \<Rightarrow> (OHLCV list, ('c, 's) AppState) step" where
  "FetchSeriesFromQuery S req ticker =
     first_do (ParseQueryDate S req ''start'') (\<lambda>start.
     first_do (ParseQueryDate S req ''end'') (\<lambda>stop.
     first_do (make_DateRange start stop) (\<lambda>rng.
     first_do (ParseBarInterval (ParseQueryString req ''interval'' ''daily'')) (\<lambda>interval.
     first_do (make_Ticker ticker) (\<lambda>t.
       market_fetch S t interval rng (ParseQueryString req ''provider'' []))))))"

fun query_params :: "('j, 'c, 's, 'g) Server \<Rightarrow> 'g HttpRequest \<Rightarrow> params \<Rightarrow> string list \<Rightarrow> params result" where
  "query_params S req p [] = Inr p"
| "query_params S req p (k # ks) =
     (case hq_param req k of
        None \<Rightarrow> query_params S req p ks
      | Some v \<Rightarrow>
          (case srv_stod S v of
             None \<Rightarrow> Inl (InvalidCommandError [T ''invalid numeric value for '', T k])
           | Some d \<Rightarrow> query_params S req (p(k \<mapsto> d)) ks))"

definition ParseIndicatorParams :: "('j, 'c, 's, 'g) Server \<Rightarrow> 'g HttpRequest \<Rightarrow> params result" where
  "ParseIndicatorParams S req =
     query_params S req Map.empty [''period'', ''fast'', ''slow'', ''signal'', ''std_dev'']"

definition query_risk_free_rate :: "('j, 'c, 's, 'g) Server \<Rightarrow> 'g HttpRequest \<Rightarrow> double result" where
  "query_risk_free_rate S req =
     (case hq_param req ''risk_free_rate'' of
        None \<Rightarrow> Inr (lit (2/100))
      | Some v \<Rightarrow> of_option (InvalidCommandError [T ''invalid risk_free_rate'']) (srv_stod S v))"

section \<open>REST: bodies\<close>

text \<open>The parsers of \<^verbatim>\<open>rest.cpp\<close> repeat those of the dispatcher on the member \<^verbatim>\<open>request\<close> of the body, if it is an object.\<close>

definition request_inputs :: "'j Json \<Rightarrow> 'j \<Rightarrow> 'j" where
  "request_inputs J body =
     (if js_contains J body ''request'' \<and> js_is_object J (js_field J body ''request'')
      then js_field J body ''request'' else body)"

text \<open>\<^verbatim>\<open>rest.cpp\<close> has helpers of its own with the text of those of \<^verbatim>\<open>dispatcher.cpp\<close>.\<close>

abbreviation (input) Rest_ExtractCloses :: "OHLCV list \<Rightarrow> double list" where
  "Rest_ExtractCloses \<equiv> ExtractCloses"

abbreviation (input) Rest_ParseParams :: "'j Json \<Rightarrow> 'j \<Rightarrow> params result" where
  "Rest_ParseParams \<equiv> ParseParams"

abbreviation (input) Rest_ParseOptimizationMetric :: "string \<Rightarrow> OptimizationMetric" where
  "Rest_ParseOptimizationMetric \<equiv> ParseOptimizationMetric"

abbreviation (input) Rest_ParseScreenCriteria :: "'j Json \<Rightarrow> 'j \<Rightarrow> ScreenCriteria result" where
  "Rest_ParseScreenCriteria \<equiv> ParseScreenCriteria"

definition Rest_ParseBacktestConfig :: "'j Json \<Rightarrow> 'j \<Rightarrow> BacktestConfig result" where
  "Rest_ParseBacktestConfig J obj =
     (let config = default_BacktestConfig in
      if \<not> js_is_object J obj then Inr config
      else
        ebind (json_value J (js_get_double J) obj ''initial_capital'' (bc_initial_capital config)) (\<lambda>initial_capital.
        ebind (json_value J (js_get_double J) obj ''commission_rate'' (bc_commission_rate config)) (\<lambda>commission_rate.
        ebind (json_value J (js_get_size J) obj ''periods_per_year'' (bc_periods_per_year config)) (\<lambda>periods_per_year.
        ebind (json_value J (js_get_double J) obj ''risk_free_rate'' (bc_risk_free_rate config)) (\<lambda>risk_free_rate.
          Inr \<lparr>bc_initial_capital = initial_capital, bc_commission_rate = commission_rate,
            bc_periods_per_year = periods_per_year, bc_risk_free_rate = risk_free_rate\<rparr>)))))"

definition Rest_ParseAnalysisRequest :: "'j Json \<Rightarrow> string \<Rightarrow> 'j \<Rightarrow> Request result" where
  "Rest_ParseAnalysisRequest J operation body = ParseAnalysisRequest J operation (request_inputs J body)"

definition Rest_ParseMeanVarianceRequest :: "'j Json \<Rightarrow> 'j \<Rightarrow> MeanVarianceRequest result" where
  "Rest_ParseMeanVarianceRequest J body = ParseMeanVarianceRequest J (request_inputs J body)"

definition Rest_ParseRiskParityRequest :: "'j Json \<Rightarrow> 'j \<Rightarrow> RiskParityRequest result" where
  "Rest_ParseRiskParityRequest J body = ParseRiskParityRequest J (request_inputs J body)"

definition Rest_ParseBlackLittermanRequest :: "'j Json \<Rightarrow> 'j \<Rightarrow> BlackLittermanSimplifiedRequest result" where
  "Rest_ParseBlackLittermanRequest J body = ParseBlackLittermanRequest J (request_inputs J body)"

definition ParseOptionalSeed :: "'j Json \<Rightarrow> 'j \<Rightarrow> 64 word option result" where
  "ParseOptionalSeed J body =
     (if \<not> js_contains J body ''seed'' \<or> js_is_null J (js_field J body ''seed'') then Inr None
      else ebind (js_get_seed J (js_field J body ''seed'')) (\<lambda>s. Inr (Some s)))"

definition parse_body :: "'j Json \<Rightarrow> string \<Rightarrow> 'j result" where
  "parse_body J raw = of_option (InvalidCommandError [T ''invalid JSON body'']) (js_parse J raw)"

section \<open>REST: the handlers\<close>

text \<open>\<^verbatim>\<open>catch (const std::exception& e)\<close> of the handlers: the error with its status.\<close>

definition rest_try ::
    "('j, 'c, 's, 'g) Server \<Rightarrow> (Response, ('c, 's) AppState) step \<Rightarrow> (Response, ('c, 's) AppState) step" where
  "rest_try S m = step_catch m (\<lambda>e. no_state (ErrorResponse (srv_json S) (DomainErrorStatus e) (exn_text S e)))"

definition rest_health :: "('j, 'c, 's, 'g) Server \<Rightarrow> Response result" where
  "rest_health S = (let J = srv_json S in JsonResponse J 200 (js_object J [(''status'', js_str J ''ok'')]))"

definition rest_agent_tools :: "('j, 'c, 's, 'g) Server \<Rightarrow> Response result" where
  "rest_agent_tools S =
     (let J = srv_json S in JsonResponse J 200 (js_array J (map (json_ToolDefinition J) (ListTools J))))"

definition rest_agent_dispatch ::
    "('j, 'c, 's, 'g) Server \<Rightarrow> 'g HttpRequest \<Rightarrow> (Response, ('c, 's) AppState) step" where
  "rest_agent_dispatch S req =
     (let J = srv_json S in
      rest_try S
        (first_do (DecodeToolCall J (hq_body req)) (\<lambda>tcr.
           if tcr_tool tcr = [] \<and> tcr_name tcr = [] then no_state (ErrorResponse J 400 ''tool or name is required'')
           else
             step_bind (dispatch_step S (ToolCallFromRequest tcr)) (\<lambda>result.
             step_bind (record_audit S req [] (requested_tool tcr) (tcr_arguments tcr) (to_output result) None) (\<lambda>_.
               no_state (JsonResponse J 200 (js_object J [(''output'', to_output result)])))))))"

definition rest_market_data ::
    "('j, 'c, 's, 'g) Server \<Rightarrow> 'g HttpRequest \<Rightarrow> string \<Rightarrow> (Response, ('c, 's) AppState) step" where
  "rest_market_data S req ticker_str =
     (let J = srv_json S; parse = ex_parse_date (srv_ext S) in
      rest_try S
        (first_do (make_Ticker ticker_str) (\<lambda>ticker.
         first_do (ParseDate parse (ParseQueryString req ''start'' [])) (\<lambda>start.
         first_do (ParseDate parse (ParseQueryString req ''end'' [])) (\<lambda>stop.
         first_do (make_DateRange start stop) (\<lambda>rng.
         first_do (ParseBarInterval (ParseQueryString req ''interval'' ''daily'')) (\<lambda>interval.
         then_do (market_fetch S ticker interval rng (ParseQueryString req ''provider'' [])) (\<lambda>series.
           JsonResponse J 200 (js_array J (map (json_OHLCV J) series))))))))))"

text \<open>The handlers that need a ticker of the query answer 400 without one.\<close>

definition query_series ::
    "('j, 'c, 's, 'g) Server \<Rightarrow> 'g HttpRequest \<Rightarrow> (OHLCV list \<Rightarrow> Response result) \<Rightarrow>
     (Response, ('c, 's) AppState) step" where
  "query_series S req answer =
     (let ticker = ParseQueryString req ''ticker'' [] in
      if ticker = [] then no_state (ErrorResponse (srv_json S) 400 ''ticker is required'')
      else then_do (FetchSeriesFromQuery S req ticker) answer)"

definition rest_indicator ::
    "('j, 'c, 's, 'g) Server \<Rightarrow> 'g HttpRequest \<Rightarrow> string \<Rightarrow> (Response, ('c, 's) AppState) step" where
  "rest_indicator S req indicator =
     (let J = srv_json S in
      rest_try S (query_series S req (\<lambda>series.
        ebind (ParseIndicatorParams S req) (\<lambda>params.
        ebind (Calculate indicator series params) (\<lambda>res. JsonResponse J 200 (json_IndicatorResult J res))))))"

definition rest_risk_metrics ::
    "('j, 'c, 's, 'g) Server \<Rightarrow> 'g HttpRequest \<Rightarrow> (Response, ('c, 's) AppState) step" where
  "rest_risk_metrics S req =
     (let J = srv_json S in
      rest_try S (query_series S req (\<lambda>series.
        ebind (query_risk_free_rate S req) (\<lambda>risk_free_rate.
        ebind (CalculateRiskMetrics (ex_pow (srv_ext S)) (Rest_ExtractCloses series) risk_free_rate) (\<lambda>res.
          JsonResponse J 200 (json_RiskMetrics J res))))))"

definition rest_return_metrics ::
    "('j, 'c, 's, 'g) Server \<Rightarrow> 'g HttpRequest \<Rightarrow> (Response, ('c, 's) AppState) step" where
  "rest_return_metrics S req =
     (let J = srv_json S in
      rest_try S (query_series S req (\<lambda>series.
        ebind (query_risk_free_rate S req) (\<lambda>risk_free_rate.
        ebind (CalculateReturnMetrics (ex_pow (srv_ext S)) (Rest_ExtractCloses series) risk_free_rate) (\<lambda>res.
          JsonResponse J 200 (json_ReturnMetrics J res))))))"

definition rest_analysis ::
    "('j, 'c, 's, 'g) Server \<Rightarrow> 'g HttpRequest \<Rightarrow> string \<Rightarrow> (Response, ('c, 's) AppState) step" where
  "rest_analysis S req operation =
     (let J = srv_json S in
      rest_try S (no_state
        (ebind (parse_body J (hq_body req)) (\<lambda>body.
         ebind (Rest_ParseAnalysisRequest J operation body) (\<lambda>request.
         ebind (run_analysis (srv_ext S) request) (\<lambda>res. JsonResponse J 200 (json_AnalysisResult J res)))))))"

text \<open>The series of the three backtest handlers, fetched as their bodies ask.\<close>

definition body_series ::
    "('j, 'c, 's, 'g) Server \<Rightarrow> 'j \<Rightarrow> (OHLCV list \<Rightarrow> Response result) \<Rightarrow> (Response, ('c, 's) AppState) step" where
  "body_series S body answer =
     (let J = srv_json S; parse = ex_parse_date (srv_ext S) in
      first_do (json_value J (js_get_string J) body ''ticker'' []) (\<lambda>ticker.
        if ticker = [] then no_state (ErrorResponse J 400 ''ticker is required'')
        else
          first_do (ebind (json_value J (js_get_string J) body ''start'' []) (ParseDate parse)) (\<lambda>start.
          first_do (ebind (json_value J (js_get_string J) body ''end'' []) (ParseDate parse)) (\<lambda>stop.
          first_do (make_DateRange start stop) (\<lambda>rng.
          first_do (ebind (json_value J (js_get_string J) body ''interval'' ''daily'') ParseBarInterval) (\<lambda>interval.
          first_do (json_value J (js_get_string J) body ''provider'' []) (\<lambda>provider.
          first_do (make_Ticker ticker) (\<lambda>t.
            then_do (market_fetch S t interval rng provider) answer))))))))"

definition rest_backtest ::
    "('j, 'c, 's, 'g) Server \<Rightarrow> 'g HttpRequest \<Rightarrow> string \<Rightarrow> (Response, ('c, 's) AppState) step" where
  "rest_backtest S req strategy =
     (let J = srv_json S in
      rest_try S (first_do (parse_body J (hq_body req)) (\<lambda>body.
        body_series S body (\<lambda>series.
          ebind (ebind (object_value J body ''params'') (Rest_ParseParams J)) (\<lambda>params.
          ebind (ebind (object_value J body ''config'') (Rest_ParseBacktestConfig J)) (\<lambda>config.
          ebind (backtest strategy config series params) (\<lambda>res. JsonResponse J 200 (json_BacktestResult J res))))))))"

fun grid_entries :: "'j Json \<Rightarrow> (string \<times> 'j) list \<Rightarrow> (string \<times> double list) list result" where
  "grid_entries J [] = Inr []"
| "grid_entries J ((k, v) # kvs) =
     (if js_is_array J v
      then ebind (js_get_doubles J v) (\<lambda>vs. ebind (grid_entries J kvs) (\<lambda>grid. Inr ((k, vs) # grid)))
      else grid_entries J kvs)"

definition param_grid :: "'j Json \<Rightarrow> 'j \<Rightarrow> (string \<times> double list) list result" where
  "param_grid J body =
     (if js_contains J body ''param_grid'' \<and> js_is_object J (js_field J body ''param_grid'')
      then grid_entries J (js_items J (js_field J body ''param_grid'')) else Inr [])"

definition run_walk_forward :: "WalkForwardRequest \<Rightarrow> WalkForwardResult result" where
  "run_walk_forward request =
     ebind (make_WalkForwardOptimizer request) (\<lambda>wfr.
       case WalkForward_Run wfr of None \<Rightarrow> Inl (UndefinedBehaviour ''no progress'') | Some r \<Rightarrow> r)"

definition rest_walk_forward ::
    "('j, 'c, 's, 'g) Server \<Rightarrow> 'g HttpRequest \<Rightarrow> (Response, ('c, 's) AppState) step" where
  "rest_walk_forward S req =
     (let J = srv_json S in
      rest_try S (first_do (parse_body J (hq_body req)) (\<lambda>body.
        body_series S body (\<lambda>series.
          ebind (json_value J (js_get_string J) body ''strategy'' []) (\<lambda>strategy.
          ebind (param_grid J body) (\<lambda>grid.
          ebind (json_value J (js_get_size J) body ''train_size'' 0) (\<lambda>train_size.
          ebind (json_value J (js_get_size J) body ''test_size'' 0) (\<lambda>test_size.
          ebind (json_value J (js_get_string J) body ''metric'' ''total_return'') (\<lambda>metric.
          ebind (ebind (object_value J body ''config'') (Rest_ParseBacktestConfig J)) (\<lambda>config.
          ebind (run_walk_forward \<lparr>wf_strategy = strategy, wf_series = series, wf_param_grid = grid,
              wf_train_size = train_size, wf_test_size = test_size, wf_metric = Rest_ParseOptimizationMetric metric,
              wf_config = config\<rparr>) (\<lambda>res.
            JsonResponse J 200 (json_WalkForwardResult J res))))))))))))"

definition rest_monte_carlo ::
    "('j, 'c, 's, 'g) Server \<Rightarrow> 'g HttpRequest \<Rightarrow> (Response, ('c, 's) AppState) step" where
  "rest_monte_carlo S req =
     (let J = srv_json S in
      rest_try S (first_do (parse_body J (hq_body req)) (\<lambda>body.
        body_series S body (\<lambda>series.
          ebind (json_value J (js_get_string J) body ''strategy'' ''buy_and_hold'') (\<lambda>strategy.
          ebind (ebind (object_value J body ''params'') (Rest_ParseParams J)) (\<lambda>params.
          ebind (ebind (object_value J body ''config'') (Rest_ParseBacktestConfig J)) (\<lambda>config.
          ebind (backtest strategy config series params) (\<lambda>bt_result.
          ebind (json_value J (js_get_int J) body ''simulations'' 100) (\<lambda>simulations.
          ebind (ParseOptionalSeed J body) (\<lambda>seed.
          ebind (FromTrades (srv_seed_rng S) (hq_entropy req) (srv_shuffle S)
              (make_MonteCarloSimulator simulations seed) (br_trades bt_result) (bc_initial_capital config)) (\<lambda>mc_result.
            JsonResponse J 200 (json_MonteCarloResult J mc_result))))))))))))"

definition rest_optimize ::
    "('j, 'c, 's, 'g) Server \<Rightarrow> 'g HttpRequest \<Rightarrow> (Response, ('c, 's) AppState) step" where
  "rest_optimize S req =
     (let J = srv_json S in
      rest_try S (no_state
        (ebind (ebind (parse_body J (hq_body req)) (Rest_ParseMeanVarianceRequest J)) (\<lambda>request.
         ebind (MeanVariance request) (\<lambda>res. JsonResponse J 200 (json_PortfolioResult J res))))))"

definition rest_risk_parity ::
    "('j, 'c, 's, 'g) Server \<Rightarrow> 'g HttpRequest \<Rightarrow> (Response, ('c, 's) AppState) step" where
  "rest_risk_parity S req =
     (let J = srv_json S in
      rest_try S (no_state
        (ebind (ebind (parse_body J (hq_body req)) (Rest_ParseRiskParityRequest J)) (\<lambda>request.
         ebind (RiskParity request) (\<lambda>res. JsonResponse J 200 (json_PortfolioResult J res))))))"

definition rest_black_litterman ::
    "('j, 'c, 's, 'g) Server \<Rightarrow> 'g HttpRequest \<Rightarrow> (Response, ('c, 's) AppState) step" where
  "rest_black_litterman S req =
     (let J = srv_json S in
      rest_try S (no_state
        (ebind (ebind (parse_body J (hq_body req)) (Rest_ParseBlackLittermanRequest J)) (\<lambda>request.
         ebind (BlackLittermanSimplified request) (\<lambda>res. JsonResponse J 200 (json_BlackLittermanResult J res))))))"

definition rest_screen ::
    "('j, 'c, 's, 'g) Server \<Rightarrow> 'g HttpRequest \<Rightarrow> (Response, ('c, 's) AppState) step" where
  "rest_screen S req =
     (let J = srv_json S in
      rest_try S (no_state
        (ebind (parse_body J (hq_body req)) (\<lambda>body.
         ebind (screen_tickers J body) (\<lambda>tickers.
         ebind (ebind (object_value J body ''criteria'') (Rest_ParseScreenCriteria J)) (\<lambda>criteria.
         ebind (Screen (ex_fundamentals (srv_ext S)) tickers criteria) (\<lambda>res.
           JsonResponse J 200 (json_ScreenResult J res))))))))"

section \<open>The server\<close>

text \<open>The routes, with the arguments their patterns bind, and what handles each.\<close>

datatype Route =
    Health | AgentTools | AgentDispatch | MarketData string | IndicatorOf string | MetricsRisk | MetricsReturn
  | AnalysisOf string | BacktestOf string | BacktestWalkForward | BacktestMonteCarlo
  | PortfolioOptimize | PortfolioRiskParity | PortfolioBlackLitterman | ScreenRoute
  | McpCapabilities | McpToolsList | McpToolsCall | A2aAgentCard | A2aTasks

fun handle ::
    "('j, 'c, 's, 'g) Server \<Rightarrow> Route \<Rightarrow> 'g HttpRequest \<Rightarrow> (Response, ('c, 's) AppState) step" where
  "handle S Health req = no_state (rest_health S)"
| "handle S AgentTools req = no_state (rest_agent_tools S)"
| "handle S AgentDispatch req = rest_agent_dispatch S req"
| "handle S (MarketData ticker) req = rest_market_data S req ticker"
| "handle S (IndicatorOf indicator) req = rest_indicator S req indicator"
| "handle S MetricsRisk req = rest_risk_metrics S req"
| "handle S MetricsReturn req = rest_return_metrics S req"
| "handle S (AnalysisOf operation) req = rest_analysis S req operation"
| "handle S (BacktestOf strategy) req = rest_backtest S req strategy"
| "handle S BacktestWalkForward req = rest_walk_forward S req"
| "handle S BacktestMonteCarlo req = rest_monte_carlo S req"
| "handle S PortfolioOptimize req = rest_optimize S req"
| "handle S PortfolioRiskParity req = rest_risk_parity S req"
| "handle S PortfolioBlackLitterman req = rest_black_litterman S req"
| "handle S ScreenRoute req = rest_screen S req"
| "handle S McpCapabilities req = no_state (mcp_capabilities S)"
| "handle S McpToolsList req = no_state (mcp_tools_list S)"
| "handle S McpToolsCall req = mcp_tools_call S req"
| "handle S A2aAgentCard req = no_state (a2a_agent_card S req)"
| "handle S A2aTasks req = a2a_tasks S req"

text \<open>The middleware answers a refused request itself.\<close>

definition refusal :: "'j Json \<Rightarrow> nat \<Rightarrow> Response result" where
  "refusal J code = JsonResponse J code (js_object J
     (if code = 401 then [(''error'', js_str J ''unauthorized''), (''code'', js_int J 401)]
      else [(''error'', js_str J ''request body too large''), (''code'', js_int J 413),
        (''max_bytes'', js_int J (int kMaxBodySize))]))"

definition serve ::
    "AuthConfig \<Rightarrow> ('j, 'c, 's, 'g) Server \<Rightarrow> Route \<Rightarrow> 'g HttpRequest \<Rightarrow> (Response, ('c, 's) AppState) step" where
  "serve cfg S route req =
     (case middleware cfg (hq_url req) (hq_header req ''X-API-Key'') (hq_body req) of
        Some code \<Rightarrow> no_state (refusal (srv_json S) code)
      | None \<Rightarrow> handle S route req)"

fun serve_all ::
    "AuthConfig \<Rightarrow> ('j, 'c, 's, 'g) Server \<Rightarrow> ('c, 's) AppState \<Rightarrow> (Route \<times> 'g HttpRequest) list \<Rightarrow>
     Response result list \<times> ('c, 's) AppState" where
  "serve_all cfg S st [] = ([], st)"
| "serve_all cfg S st ((route, req) # reqs) =
     (case serve cfg S route req st of
        (r, st') \<Rightarrow> (case serve_all cfg S st' reqs of (rs, st'') \<Rightarrow> (r # rs, st'')))"

end
