(* ===== verification/Dispatcher_Facts.thy ===== *)
theory Dispatcher_Facts
  imports Dispatcher Market_Data_Facts
begin

text \<open>
  The dispatcher is a table of the listed tools, and its answers do not depend on what the cache of
  the market-data service holds.
\<close>

section \<open>Services that differ in their cache only\<close>

text \<open>What is used of \<^verbatim>\<open>date::parse\<close> with \<^verbatim>\<open>%F\<close>: it gives a day.\<close>

definition day_dates :: "(string \<Rightarrow> Date option) \<Rightarrow> bool" where
  "day_dates parse \<longleftrightarrow> (\<forall>s d. parse s = Some d \<longrightarrow> ns_per_day dvd d)"

definition in_memory :: "('j, InMemoryCache) Externals \<Rightarrow> bool" where
  "in_memory x \<longleftrightarrow> ex_get x = InMemoryCache_Get \<and> ex_put x = InMemoryCache_Put"

definition same_providers :: "(Date \<Rightarrow> string) \<Rightarrow> InMemoryCache Service \<Rightarrow> InMemoryCache Service \<Rightarrow> bool" where
  "same_providers fd s t \<longleftrightarrow> sv_providers s = sv_providers t \<and> sv_default_provider s = sv_default_provider t \<and>
     (\<forall>n \<in> dom (sv_providers s). CHR '':'' \<notin> set n) \<and>
     cache_sound InMemoryCache_Get fd s \<and> cache_sound InMemoryCache_Get fd t"

lemma Service_Fetch_same:
  assumes "iso_dates fd" "same_providers fd s t" "day_request k r"
  shows "fst (Service_Fetch fd InMemoryCache_Get InMemoryCache_Put s k i r n) =
      fst (Service_Fetch fd InMemoryCache_Get InMemoryCache_Put t k i r n) \<and>
    same_providers fd (snd (Service_Fetch fd InMemoryCache_Get InMemoryCache_Put s k i r n))
      (snd (Service_Fetch fd InMemoryCache_Get InMemoryCache_Put t k i r n))"
proof -
  obtain u s' v t' where f: "Service_Fetch fd InMemoryCache_Get InMemoryCache_Put s k i r n = (u, s')"
    "Service_Fetch fd InMemoryCache_Get InMemoryCache_Put t k i r n = (v, t')" by fastforce
  have p: "\<forall>n \<in> dom (sv_providers s). CHR '':'' \<notin> set n" "\<forall>n \<in> dom (sv_providers t). CHR '':'' \<notin> set n"
    "cache_sound InMemoryCache_Get fd s" "cache_sound InMemoryCache_Get fd t"
    "sv_providers s = sv_providers t" "sv_default_provider s = sv_default_provider t"
    using assms(2) by (auto simp: same_providers_def)
  have "ResolveProvider s (provider_or_default s n) = ResolveProvider t (provider_or_default t n)"
    using p by (simp add: ResolveProvider_def provider_or_default_def)
  then have "u = v" "cache_sound InMemoryCache_Get fd s'" "cache_sound InMemoryCache_Get fd t'"
    using in_memory.fetch_sound [OF assms(1) p(1,3) assms(3) f(1)]
      in_memory.fetch_sound [OF assms(1) p(2,4) assms(3) f(2)] by auto
  then show ?thesis using p f in_memory.fetch_frame [OF f(1)] in_memory.fetch_frame [OF f(2)]
    by (auto simp: same_providers_def)
qed

lemma uniform_fetch:
  assumes "in_memory x" "iso_dates (FormatDate (ex_json x))" "day_request k r"
  shows "uniform (same_providers (FormatDate (ex_json x))) (fetch_series x k i r n)"
  using assms Service_Fetch_same by (intro uniformI) (simp add: fetch_series_def in_memory_def)

lemma ParseDate_day: "day_dates parse \<Longrightarrow> ParseDate parse s = Inr d \<Longrightarrow> ns_per_day dvd d"
  by (auto simp: ParseDate_def day_dates_def)

lemma ParseDateParam_day: "day_dates (ex_parse_date x) \<Longrightarrow> ParseDateParam x n args = Inr d \<Longrightarrow> ns_per_day dvd d"
  by (auto simp: ParseDateParam_def Let_def ebind_Inr_iff ParseDate_day split: if_splits)

lemma uniform_FetchSeries:
  assumes "in_memory x" "iso_dates (FormatDate (ex_json x))" "day_dates (ex_parse_date x)"
  shows "uniform (same_providers (FormatDate (ex_json x))) (FetchSeries x args f)"
  using assms unfolding FetchSeries_def Let_def
  by (intro uniform_first_do uniform_fetch)
    (auto simp: ebind_Inr_iff make_Ticker_Inr make_DateRange_Inr day_request_def dest: ParseDateParam_day)

section \<open>The table of the tools\<close>

text \<open>The registry as a table from names to handlers, in the order of \<^verbatim>\<open>ListTools\<close>.\<close>

definition tool_table :: "('j, 'c) Externals \<Rightarrow> (string \<times> ('j \<Rightarrow> ('j ToolResult, 'c Service) step)) list" where
  "tool_table x =
     [(''health'', \<lambda>args. no_state (Inr \<lparr>to_output = js_object (ex_json x) [(''status'', js_str (ex_json x) ''ok'')]\<rparr>)),
      (''list_tools'', \<lambda>args. no_state (Inr \<lparr>to_output = json_strings (ex_json x) (map td_name (ListTools (ex_json x)))\<rparr>)),
      (''fetch_ohlcv'', FetchOhlcv x),
      (''calculate_indicator'', CalculateIndicator x),
      (''calculate_return_metrics'', CalculateReturnMetrics_tool x),
      (''calculate_risk_metrics'', CalculateRiskMetrics_tool x),
      (''run_analysis'', \<lambda>args. no_state (RunAnalysis x args)),
      (''run_backtest'', RunBacktest x),
      (''optimize_portfolio'', \<lambda>args. no_state (OptimizePortfolio x args)),
      (''risk_parity'', \<lambda>args. no_state (RiskParityPortfolio x args)),
      (''black_litterman'', \<lambda>args. no_state (BlackLittermanPortfolio x args)),
      (''screen_stocks'', \<lambda>args. no_state (ScreenStocks x args))]"

lemma tool_table_names: "map fst (tool_table x) = map td_name (ListTools J)"
  by (simp add: tool_table_def tool_list)

lemma td_names: "td_name ` set (ListTools J) = set (map td_name (ListTools J))"
  by simp

lemma Dispatch_table:
  "Dispatch x call svc = (case map_of (tool_table x) (tc_name call) of
     None \<Rightarrow> (Inl (unknown_tool (tc_name call)), svc)
   | Some handler \<Rightarrow> handler (tc_arguments call) svc)"
  by (simp add: Dispatch_def FindTool_None td_names tool_list tool_table_def Let_def OkResult_def tool_names
      del: set_map)

lemma tool_table_uniform:
  assumes "in_memory x" "iso_dates (FormatDate (ex_json x))" "day_dates (ex_parse_date x)"
    and "(name, handler) \<in> set (tool_table x)"
  shows "uniform (same_providers (FormatDate (ex_json x))) (handler args)"
proof -
  note fetch = uniform_FetchSeries [OF assms(1-3)]
  have "uniform (same_providers (FormatDate (ex_json x))) (FetchOhlcv x args)"
    "uniform (same_providers (FormatDate (ex_json x))) (CalculateIndicator x args)"
    "uniform (same_providers (FormatDate (ex_json x))) (CalculateReturnMetrics_tool x args)"
    "uniform (same_providers (FormatDate (ex_json x))) (CalculateRiskMetrics_tool x args)"
    "uniform (same_providers (FormatDate (ex_json x))) (RunBacktest x args)"
    unfolding FetchOhlcv_def CalculateIndicator_def CalculateReturnMetrics_tool_def CalculateRiskMetrics_tool_def
      RunBacktest_def Let_def by (intro uniform_intros fetch)+
  then show ?thesis using assms(4) by (auto simp: tool_table_def uniform_return)
qed

lemma Dispatch_uniform:
  assumes "in_memory x" "iso_dates (FormatDate (ex_json x))" "day_dates (ex_parse_date x)"
  shows "uniform (same_providers (FormatDate (ex_json x))) (Dispatch x call)"
proof (cases "map_of (tool_table x) (tc_name call)")
  case None
  then have "Dispatch x call = no_state (Inl (unknown_tool (tc_name call)))"
    by (simp add: Dispatch_table fun_eq_iff)
  then show ?thesis by (simp add: uniform_return)
next
  case (Some handler)
  then have "Dispatch x call = handler (tc_arguments call)" by (simp add: Dispatch_table fun_eq_iff)
  then show ?thesis using tool_table_uniform [OF assms map_of_SomeD [OF Some]] by simp
qed

section \<open>Properties\<close>

text \<open>C9: the dispatcher answers exactly the listed tools: its chain of comparisons is the lookup in a table
  whose names are those of the registry, each once, and any other name is an unknown-tool error.\<close>

theorem dispatch_table:
  "map fst (tool_table x) = map td_name (ListTools (ex_json x)) \<and> distinct (map td_name (ListTools (ex_json x))) \<and>
   Dispatch x call svc = (case map_of (tool_table x) (tc_name call) of
     None \<Rightarrow> (Inl (InvalidCommandError [T ''unknown tool '', T (tc_name call)]), svc)
   | Some handler \<Rightarrow> handler (tc_arguments call) svc)"
  unfolding Dispatch_table unknown_tool_def
  by (intro conjI tool_table_names) (simp_all add: tool_list)

text \<open>What the cache holds cannot be observed: two services with the same providers, whose caches hold only
  providers' own answers, give the same result for any tool call, and go on being such services.\<close>

theorem dispatch_cache:
  assumes "in_memory x" "iso_dates (FormatDate (ex_json x))" "day_dates (ex_parse_date x)"
    and "same_providers (FormatDate (ex_json x)) s t"
  shows "fst (Dispatch x call s) = fst (Dispatch x call t) \<and>
    same_providers (FormatDate (ex_json x)) (snd (Dispatch x call s)) (snd (Dispatch x call t))"
  by (rule uniformD [OF Dispatch_uniform [OF assms(1-3)] assms(4)])


text \<open>A sample of what is outside, and of a service whose cache has been used.\<close>

definition sample_externals :: "(string \<Rightarrow> tree option) \<Rightarrow> (tree, InMemoryCache) Externals" where
  "sample_externals parse =
     \<lparr>ex_json = tree_json parse, ex_parse_date = sample_parse, ex_get = InMemoryCache_Get, ex_put = InMemoryCache_Put,
      ex_fundamentals = (\<lambda>t. Inl NotFoundError), ex_pow = (\<lambda>a b. a), ex_log = (\<lambda>a. a), ex_exp = (\<lambda>a. a),
      ex_sort = (\<lambda>c is. is), ex_text = (\<lambda>m. ''error'')\<rparr>"

lemma sample_format: "FormatDate (ex_json (sample_externals p)) = sample_dates"
  by (simp add: fun_eq_iff FormatDate_def sample_externals_def tree_json_def)

lemma sample_externals_ok:
  "in_memory (sample_externals p)" "iso_dates (FormatDate (ex_json (sample_externals p)))"
  "day_dates (ex_parse_date (sample_externals p))"
  using sample_dates_iso by (auto simp: in_memory_def sample_format day_dates_def)
    (auto simp: sample_externals_def dest: sample_parse_day)

definition warm_service :: "InMemoryCache Service" where
  "warm_service = snd (Service_Fetch sample_dates InMemoryCache_Get InMemoryCache_Put sample_service
     \<lparr>tk_symbol = ''AAPL'', tk_exchange = []\<rparr> Daily sample_range [])"

lemma warm_same: "same_providers sample_dates sample_service warm_service"
proof -
  let ?t = "\<lparr>tk_symbol = ''AAPL'', tk_exchange = []\<rparr>"
  obtain u s' where f: "Service_Fetch sample_dates InMemoryCache_Get InMemoryCache_Put sample_service ?t Daily
    sample_range [] = (u, s')" by fastforce
  have n: "\<forall>n \<in> dom (sv_providers sample_service). CHR '':'' \<notin> set n" by (simp add: sample_service_facts)
  show ?thesis
    using in_memory.fetch_sound [OF sample_dates_iso n sample_service_facts(3) sample_day_request f]
      in_memory.fetch_frame [OF f] sample_service_facts(3) n f by (simp add: same_providers_def warm_service_def)
qed

definition sample_call :: "tree ToolCall" where
  "sample_call = \<lparr>tc_name = ''fetch_ohlcv'', tc_arguments = TObj [(''ticker'', TStr ''AAPL''),
     (''start'', TStr ''+''), (''end'', TStr ''+xx'')]\<rparr>"

theorem dispatch_cache_witness:
  "sv_cache warm_service \<noteq> sv_cache sample_service \<and>
   fst (Dispatch (sample_externals (\<lambda>s. None)) sample_call sample_service) =
   fst (Dispatch (sample_externals (\<lambda>s. None)) sample_call warm_service)"
proof -
  let ?x = "sample_externals (\<lambda>s. None)"
  have "sv_cache warm_service \<noteq> sv_cache sample_service"
  proof -
    have "\<exists>bars. SyntheticProvider_Fetch \<lparr>tk_symbol = ''AAPL'', tk_exchange = []\<rparr> Daily sample_range = Inr bars"
      by (subst SyntheticProvider_Fetch_days) (simp_all add: sample_range_def ns_per_day_def)
    then obtain bars where b: "pv_fetch (SyntheticProvider 0) \<lparr>tk_symbol = ''AAPL'', tk_exchange = []\<rparr> Daily sample_range = Inr bars"
      by (auto simp: SyntheticProvider_def)
    have e: "sv_cache sample_service = Map.empty" by (simp add: sample_service_def Register_def make_Service_def)
    show ?thesis unfolding warm_service_def Service_Fetch_def Let_def ResolveProvider_def
      by (simp add: sample_service_facts b e InMemoryCache_Get_def InMemoryCache_Put_def)
  qed
  moreover have "fst (Dispatch ?x sample_call sample_service) = fst (Dispatch ?x sample_call warm_service)"
    using dispatch_cache [OF sample_externals_ok, where s = sample_service and t = warm_service] warm_same
    by (simp add: sample_format)
  ultimately show ?thesis ..
qed

end
