(* ===== verification/Routes_Facts.thy ===== *)
theory Routes_Facts
  imports Routes Dispatcher_Facts
begin

text \<open>
  What the handlers keep: the audit log in memory verifies after any requests, the cache cannot be
  seen in the responses, and errors become responses.
\<close>

section \<open>The cache cannot be seen\<close>

definition same_state ::
    "(Date \<Rightarrow> string) \<Rightarrow> (InMemoryCache, 's) AppState \<Rightarrow> (InMemoryCache, 's) AppState \<Rightarrow> bool" where
  "same_state fd s t \<longleftrightarrow> same_providers fd (as_market_data s) (as_market_data t) \<and> as_audit_writer s = as_audit_writer t"

definition day_server :: "('j, InMemoryCache, 's, 'g) Server \<Rightarrow> bool" where
  "day_server S \<longleftrightarrow> in_memory (srv_ext S) \<and> iso_dates (FormatDate (srv_json S)) \<and> day_dates (ex_parse_date (srv_ext S))"

abbreviation same_for :: "('j, InMemoryCache, 's, 'g) Server \<Rightarrow> (InMemoryCache, 's) AppState \<Rightarrow>
    (InMemoryCache, 's) AppState \<Rightarrow> bool" where
  "same_for S \<equiv> same_state (FormatDate (srv_json S))"

lemma uniform_service:
  assumes "uniform (same_providers (FormatDate (srv_json S))) m"
  shows "uniform (same_for S) (lift_step as_market_data (\<lambda>m st. st\<lparr>as_market_data := m\<rparr>) m)"
  by (rule uniform_lift [OF assms]) (auto simp: same_state_def)

lemma uniform_dispatch_step: "day_server S \<Longrightarrow> uniform (same_for S) (dispatch_step S call)"
  unfolding dispatch_step_def by (intro uniform_service Dispatch_uniform) (auto simp: day_server_def)

lemma uniform_market_fetch: "day_server S \<Longrightarrow> day_request t r \<Longrightarrow> uniform (same_for S) (market_fetch S t i r p)"
  unfolding market_fetch_def by (intro uniform_service uniform_fetch) (auto simp: day_server_def)

lemma uniform_record_audit [uniform_intros]: "uniform (same_state fd) (record_audit S req i t x y e)"
  by (intro uniformI) (auto simp: record_audit_def same_state_def split: sum.splits)

text \<open>The fetches of the handlers ask for whole days.\<close>

lemma day_ranges:
  "day_server S \<Longrightarrow> ParseDate (ex_parse_date (srv_ext S)) s = Inr d \<Longrightarrow> ns_per_day dvd d"
  "day_server S \<Longrightarrow> ParseQueryDate S req n = Inr d \<Longrightarrow> ns_per_day dvd d"
  by (auto simp: day_server_def ParseDate_day ParseQueryDate_def split: option.splits)

lemma day_requestI:
  "make_Ticker s = Inr t \<Longrightarrow> make_DateRange a b = Inr r \<Longrightarrow> ns_per_day dvd a \<Longrightarrow> ns_per_day dvd b \<Longrightarrow> day_request t r"
  by (auto simp: make_Ticker_Inr make_DateRange_Inr day_request_def)

lemma uniform_query_series [uniform_intros]:
  assumes "day_server S"
  shows "uniform (same_for S) (query_series S req k)"
  unfolding query_series_def Let_def FetchSeriesFromQuery_def
  by (intro uniform_if uniform_return uniform_then_do uniform_first_do uniform_market_fetch [OF assms])
    (auto intro: day_requestI dest: day_ranges [OF assms])

lemma uniform_body_series [uniform_intros]:
  assumes "day_server S"
  shows "uniform (same_for S) (body_series S body k)"
  unfolding body_series_def Let_def
  by (intro uniform_if uniform_return uniform_then_do uniform_first_do uniform_market_fetch [OF assms])
    (auto intro: day_requestI dest: day_ranges [OF assms] simp: ebind_Inr_iff)

lemma uniform_rest_market_data [uniform_intros]:
  assumes "day_server S"
  shows "uniform (same_for S) (rest_market_data S req t)"
  unfolding rest_market_data_def rest_try_def Let_def
  by (intro uniform_catch uniform_return uniform_then_do uniform_first_do uniform_market_fetch [OF assms])
    (auto intro: day_requestI dest: day_ranges [OF assms])

lemmas handler_defs =
  rest_agent_dispatch_def rest_indicator_def rest_risk_metrics_def rest_return_metrics_def rest_analysis_def
  rest_backtest_def rest_walk_forward_def rest_monte_carlo_def rest_optimize_def rest_risk_parity_def
  rest_black_litterman_def rest_screen_def mcp_tools_call_def a2a_tasks_def rest_try_def Let_def

lemma uniform_handle:
  assumes "day_server S"
  shows "uniform (same_for S) (handle S route req)"
  by (cases route) (simp_all only: handle.simps handler_defs,
      (intro uniform_intros uniform_dispatch_step [OF assms] uniform_rest_market_data [OF assms]
        uniform_query_series [OF assms] uniform_body_series [OF assms])+)

lemma uniform_serve: "day_server S \<Longrightarrow> uniform (same_for S) (serve cfg S route req)"
  unfolding serve_def by (auto intro: uniform_handle uniform_return split: option.split)

section \<open>The audit log\<close>

definition memory_server :: "('j, 'c, 'j MemoryStorage, 'g) Server \<Rightarrow> bool" where
  "memory_server S \<longleftrightarrow> srv_latest S = Memory_Latest \<and> srv_append S = Memory_Append"

text \<open>What every write keeps of the storage is kept by every route.\<close>

definition writes_keep :: "('j, 'c, 's, 'g) Server \<Rightarrow> ('s \<Rightarrow> bool) \<Rightarrow> bool" where
  "writes_keep S good \<longleftrightarrow> (\<forall>now s r s'. good s \<longrightarrow>
     Write (js_lib (srv_json S)) (srv_latest S) (srv_append S) now s r = Inr s' \<longrightarrow> good s')"

definition log_ok :: "('s \<Rightarrow> bool) \<Rightarrow> ('c, 's) AppState \<Rightarrow> bool" where
  "log_ok good st \<longleftrightarrow> (\<exists>s. as_audit_writer st = Some s \<and> good s)"

lemma keeps_record_audit: "writes_keep S good \<Longrightarrow> keeps (log_ok good) (record_audit S req i t x y e)"
  by (intro keepsI) (auto simp: record_audit_def RecordAudit_def log_ok_def writes_keep_def ebind_def
      split: sum.splits option.splits)

lemma keeps_service [keeps_intros]:
  "keeps (log_ok good) (lift_step as_market_data (\<lambda>m st. st\<lparr>as_market_data := m\<rparr>) m)"
  by (intro keepsI) (auto simp: lift_step_def log_ok_def split: prod.splits)

lemma keeps_handle: "writes_keep S good \<Longrightarrow> keeps (log_ok good) (handle S route req)"
  by (cases route) (simp_all only: handle.simps handler_defs rest_market_data_def query_series_def body_series_def
      FetchSeriesFromQuery_def market_fetch_def dispatch_step_def,
      (intro keeps_intros keeps_record_audit, assumption?)+)

lemma keeps_serve: "writes_keep S good \<Longrightarrow> keeps (log_ok good) (serve cfg S route req)"
  unfolding serve_def by (auto intro: keeps_handle keeps_return split: option.split)

lemma keeps_serve_all:
  assumes "writes_keep S good"
  shows "log_ok good st \<Longrightarrow> log_ok good (snd (serve_all cfg S st reqs))"
proof (induction reqs arbitrary: st)
  case (Cons q reqs)
  then show ?case using keepsD [OF keeps_serve [OF assms], of st cfg "fst q" "snd q"]
    by (cases q) (auto split: prod.splits, metis snd_conv)
qed simp

lemma memory_writes_keep:
  "memory_server S \<Longrightarrow> (\<And>s. lib_sha256 (js_lib (srv_json S)) s \<noteq> []) \<Longrightarrow> writes_keep S (chain_ok (js_lib (srv_json S)))"
  using memory.Write_chain by (fastforce simp: writes_keep_def memory_server_def Memory_All_def)

section \<open>Errors are answered\<close>

text \<open>Codes of the responses a result or a step can give.\<close>

definition codes :: "nat set \<Rightarrow> Response result \<Rightarrow> bool" where
  "codes C r \<longleftrightarrow> (\<forall>x. r = Inr x \<longrightarrow> rs_code x \<in> C \<and> rs_content_type x = ''application/json'')"

definition step_codes :: "nat set \<Rightarrow> (Response, 's) step \<Rightarrow> bool" where
  "step_codes C m \<longleftrightarrow> (\<forall>s. codes C (fst (m s)))"

named_theorems codes_intros \<open>codes of responses\<close>

lemma codes_json [codes_intros]: "n \<in> C \<Longrightarrow> codes C (JsonResponse J n b)"
  by (auto simp: codes_def JsonResponse_def ebind_Inr_iff)

lemma codes_error [codes_intros]: "n \<in> C \<Longrightarrow> codes C (ErrorResponse J n b)"
  unfolding ErrorResponse_def by (rule codes_json)

lemma codes_ebind [codes_intros]: "(\<And>a. codes C (k a)) \<Longrightarrow> codes C (ebind m k)"
  by (auto simp: codes_def ebind_Inr_iff)

lemma step_codes_return [codes_intros]: "codes C r \<Longrightarrow> step_codes C (no_state r)"
  by (simp add: step_codes_def)

lemma step_codes_first_do [codes_intros]: "(\<And>a. step_codes C (k a)) \<Longrightarrow> step_codes C (first_do m k)"
  by (cases m) (auto simp: step_codes_def codes_def)

lemma step_codes_then_do [codes_intros]: "(\<And>a. codes C (k a)) \<Longrightarrow> step_codes C (then_do m k)"
  by (auto simp: step_codes_def then_do_def codes_def ebind_Inr_iff split: prod.splits)

lemma step_codes_bind [codes_intros]: "(\<And>a. step_codes C (k a)) \<Longrightarrow> step_codes C (step_bind m k)"
  by (auto simp: step_codes_def step_bind_def codes_def split: prod.splits sum.splits)

lemma step_codes_catch [codes_intros]:
  assumes "step_codes C m" "\<And>e. step_codes C (h e)"
  shows "step_codes C (step_catch m h)"
  unfolding step_codes_def
proof
  fix s
  obtain r s' where m: "m s = (r, s')" by fastforce
  have "codes C r" using assms(1) m unfolding step_codes_def by (metis fst_conv)
  moreover have "codes C (fst (h e s'))" for e using assms(2) by (simp add: step_codes_def)
  ultimately show "codes C (fst (step_catch m h s))" by (cases r) (simp_all add: step_catch_def m codes_def)
qed

lemma step_codes_if [codes_intros]: "step_codes C m \<Longrightarrow> step_codes C n \<Longrightarrow> step_codes C (if c then m else n)"
  by simp

lemma DomainErrorStatus_codes: "DomainErrorStatus e \<in> {200, 400, 404, 500, 502, 503}"
  by (simp add: DomainErrorStatus_def split: exn.split)

lemma step_codes_handle: "step_codes {200, 400, 404, 500, 502, 503} (handle S route req)"
proof -
  have c: "200 \<in> {200, 400, 404, 500, 502, 503 :: nat}" "400 \<in> {200, 400, 404, 500, 502, 503 :: nat}" by simp_all
  show ?thesis
    by (cases route) (simp_all only: handle.simps handler_defs rest_market_data_def query_series_def body_series_def
        rest_health_def rest_agent_tools_def mcp_capabilities_def mcp_tools_list_def a2a_agent_card_def a2a_response_def,
        (intro codes_intros DomainErrorStatus_codes c)+)
qed

text \<open>What escapes a handler: undefined behaviour, or what the writing of the response throws.\<close>

definition escapes :: "'j Json \<Rightarrow> exn \<Rightarrow> bool" where
  "escapes J e \<longleftrightarrow> \<not> catchable e \<or> (\<exists>v. js_dump J v = Inl e)"

lemma JsonResponse_escapes: "JsonResponse J n b = Inl e \<Longrightarrow> escapes J e"
  by (auto simp: JsonResponse_def ebind_Inl_iff escapes_def)

lemma rest_try_escapes: "fst (rest_try S m st) = Inl e \<Longrightarrow> escapes (srv_json S) e"
  by (auto simp: rest_try_def step_catch_def ErrorResponse_def dest: JsonResponse_escapes
      split: prod.splits sum.splits if_splits) (simp add: escapes_def)

lemma mcp_escapes: "fst (mcp_tools_call S req st) = Inl e \<Longrightarrow> escapes (srv_json S) e"
  unfolding mcp_tools_call_def Let_def
  by (auto simp: step_catch_def dest: JsonResponse_escapes split: prod.splits sum.splits if_splits)
    (simp add: escapes_def)

lemma handle_escapes:
  "fst (handle S route req st) = Inl e \<Longrightarrow> route \<noteq> A2aTasks \<Longrightarrow> escapes (srv_json S) e"
  by (cases route) (auto dest!: rest_try_escapes mcp_escapes JsonResponse_escapes
      simp: rest_agent_dispatch_def rest_indicator_def rest_risk_metrics_def rest_return_metrics_def rest_analysis_def
      rest_backtest_def rest_walk_forward_def rest_monte_carlo_def rest_optimize_def rest_risk_parity_def
      rest_black_litterman_def rest_screen_def rest_market_data_def rest_health_def rest_agent_tools_def
      mcp_capabilities_def mcp_tools_list_def a2a_agent_card_def Let_def)


section \<open>One record per task\<close>

lemma Write_memory:
  assumes "\<And>v. \<exists>s. lib_dump lib v = Inr s"
  obtains w where "Write lib Memory_Latest Memory_Append now rs r = Inr (rs @ [w])"
    "dr_request_id w = dr_request_id r" "dr_tool_name w = dr_tool_name r" "dr_input w = dr_input r"
    "dr_output w = dr_output r" "dr_status w = dr_status r" "dr_error w = dr_error r"
proof -
  have h: "\<exists>s. HashJson lib v = Inr s" for v using assms [of v] by (auto simp: HashJson_def)
  then have hr: "\<exists>s. HashRecord lib q = Inr s" for q by (simp add: HashRecord_def)
  have p: "\<exists>q. prev_hash_of Memory_Latest rs g = Inr q" for g by (simp add: prev_hash_of_def Memory_Latest_def)
  have "\<exists>st'. Write lib Memory_Latest Memory_Append now rs r = Inr st'"
  proof -
    obtain a b where "HashJson lib (dr_input r) = Inr a" "HashJson lib (dr_output r) = Inr b" using h by blast
    moreover obtain q where "prev_hash_of Memory_Latest rs (dr_prev_record_hash r) = Inr q" using p by blast
    moreover obtain c d where "\<forall>z. HashRecord lib z = Inr (c z)" using hr by metis
    ultimately show ?thesis
      by (cases "dr_recorded_at r = 0") (simp_all add: Write_def canonical Memory_Append_def Let_def)
  qed
  then obtain st' where w: "Write lib Memory_Latest Memory_Append now rs r = Inr st'" by blast
  show thesis
    by (rule memory.Write_record [OF w]) (use that w in \<open>auto simp: Memory_All_def\<close>)
qed

text \<open>The digits of a hash are ASCII, so a hash is a text that can be written.\<close>

lemma ToHex_ascii: "ascii (ToHex bs)"
proof (induction bs)
  case (Cons b bs)
  have hex: "of_char (hex_digit n) < (128 :: nat)" if "n < 16" for n
  proof -
    have "\<forall>c \<in> set ''0123456789abcdef''. of_char c < (128 :: nat)" by simp
    moreover have "hex_digit n \<in> set ''0123456789abcdef''" unfolding hex_digit_def using that by (intro nth_mem) simp
    ultimately show ?thesis by blast
  qed
  have "unat b < 256" using unsigned_less [of b] by simp
  then show ?case using Cons hex [of "unat b div 16"] hex [of "unat b mod 16"] by (simp add: ascii_def ToHex_Cons)
qed (simp add: ascii_def)

lemma HashJson_writable: "(\<exists>h. HashJson lib v = Inr h) \<longleftrightarrow> writable lib v"
  by (auto simp: HashJson_def writable_def ebind_Inr_iff)

lemma HashJson_text: "json_texts lib \<Longrightarrow> HashJson lib v = Inr h \<Longrightarrow> writable lib (lib_str lib h)"
  by (auto simp: HashJson_def HashBytes_def ebind_Inr_iff intro: json_textsD(3) ToHex_ascii)

lemma ebind_returns: "(\<exists>y. ebind m f = Inr y) \<longleftrightarrow> (\<exists>x. m = Inr x \<and> (\<exists>y. f x = Inr y))"
  by (cases m) auto

text \<open>The hash before, for a record that brings none.\<close>

definition head_hash :: "'j DecisionRecord list \<Rightarrow> string" where
  "head_hash rs = (if rs = [] then [] else dr_record_hash (last rs))"

lemma prev_hash_memory: "prev_hash_of Memory_Latest rs [] = Inr (head_hash rs)"
  by (simp add: prev_hash_of_def Memory_Latest_def head_hash_def)

definition hashed_record :: "Date \<Rightarrow> 'j DecisionRecord list \<Rightarrow> 'j DecisionRecord \<Rightarrow> string \<Rightarrow> string \<Rightarrow> 'j DecisionRecord" where
  "hashed_record now rs r ih oh = (if dr_recorded_at r = 0 then r\<lparr>dr_recorded_at := now\<rparr> else r)
     \<lparr>dr_prev_record_hash := head_hash rs, dr_input := dr_input r, dr_input_hash := ih,
      dr_output := dr_output r, dr_output_hash := oh\<rparr>"

lemma Write_memory_eq:
  assumes "dr_prev_record_hash r = []"
  shows "Write lib Memory_Latest Memory_Append now rs r = ebind (HashJson lib (dr_input r)) (\<lambda>ih. ebind (HashJson lib (dr_output r)) (\<lambda>oh.
    ebind (HashRecord lib (hashed_record now rs r ih oh)) (\<lambda>h. Inr (rs @ [(hashed_record now rs r ih oh)\<lparr>dr_record_hash := h\<rparr>]))))"
  using assms by (simp add: Write_def Let_def canonical prev_hash_memory Memory_Append_def ebind_def hashed_record_def split: sum.split)

text \<open>
  A write to the log in memory succeeds exactly when everything in the record has a text; when only the output has
  none, it fails with its error.
\<close>

lemma Write_texts:
  assumes "json_texts lib" "dr_prev_record_hash r = []"
  shows "(\<exists>st. Write lib Memory_Latest Memory_Append now rs r = Inr st) \<longleftrightarrow>
    list_all (writable lib) [lib_str lib (dr_request_id r),
      lib_str lib (lib_format_date lib (if dr_recorded_at r = 0 then now else dr_recorded_at r)), lib_str lib (dr_tool_name r),
      dr_input r, dr_output r, lib_str lib (dr_status r), lib_str lib (dr_error r), lib_str lib (dr_git_commit_sha r),
      lib_str lib (dr_package_version r), lib_int lib (dr_random_seed r), lib_str lib (head_hash rs)]" (is "_ \<longleftrightarrow> ?all")
proof -
  let ?r2 = "hashed_record now rs r"
  let ?texts = "\<lambda>ih oh. list_all (writable lib) [lib_str lib (dr_request_id r),
      lib_str lib (lib_format_date lib (if dr_recorded_at r = 0 then now else dr_recorded_at r)), lib_str lib (dr_tool_name r),
      dr_input r, lib_str lib ih, dr_output r, lib_str lib oh, lib_str lib (dr_status r), lib_str lib (dr_error r),
      lib_str lib (dr_git_commit_sha r), lib_str lib (dr_package_version r), lib_int lib (dr_random_seed r), lib_str lib (head_hash rs)]"
  have "writable lib (lib_str lib [])" using json_textsD(3) [OF assms(1)] by (simp add: ascii_def)
  then have hash: "(\<exists>h. HashRecord lib (?r2 ih oh) = Inr h) \<longleftrightarrow> ?texts ih oh" for ih oh
    unfolding HashRecord_def HashJson_writable same_text_refl [symmetric] record_text [OF assms(1)]
    by (simp add: same_text_refl hashed_record_def)
  have "(\<exists>st. Write lib Memory_Latest Memory_Append now rs r = Inr st) \<longleftrightarrow>
      (\<exists>ih oh. HashJson lib (dr_input r) = Inr ih \<and> HashJson lib (dr_output r) = Inr oh \<and> (\<exists>h. HashRecord lib (?r2 ih oh) = Inr h))"
    unfolding Write_memory_eq [OF assms(2)] by (simp only: ebind_returns) blast
  also have "\<dots> \<longleftrightarrow> (\<exists>ih oh. HashJson lib (dr_input r) = Inr ih \<and> HashJson lib (dr_output r) = Inr oh \<and> ?texts ih oh)"
    unfolding hash ..
  finally have iff: "(\<exists>st. Write lib Memory_Latest Memory_Append now rs r = Inr st) \<longleftrightarrow>
      (\<exists>ih oh. HashJson lib (dr_input r) = Inr ih \<and> HashJson lib (dr_output r) = Inr oh \<and> ?texts ih oh)" .
  show ?thesis
  proof
    assume "\<exists>st. Write lib Memory_Latest Memory_Append now rs r = Inr st"
    then show "?all" unfolding iff by auto
  next
    assume all: ?all
    then have "writable lib (dr_input r)" "writable lib (dr_output r)" by simp_all
    then obtain ih oh where h: "HashJson lib (dr_input r) = Inr ih" "HashJson lib (dr_output r) = Inr oh"
      using HashJson_writable [of lib "dr_input r"] HashJson_writable [of lib "dr_output r"] by blast
    then have "?texts ih oh" using all HashJson_text [OF assms(1)] by simp
    then show "\<exists>st. Write lib Memory_Latest Memory_Append now rs r = Inr st" unfolding iff using h by blast
  qed
qed

lemma Write_output_error:
  assumes "dr_prev_record_hash r = []" "writable lib (dr_input r)" "lib_dump lib (dr_output r) = Inl e"
  shows "Write lib Memory_Latest Memory_Append now rs r = Inl e"
proof -
  obtain h where "HashJson lib (dr_input r) = Inr h" using assms(2) HashJson_writable [of lib "dr_input r"] by blast
  moreover have "HashJson lib (dr_output r) = Inl e" using assms(3) by (simp add: HashJson_def)
  ultimately show ?thesis by (simp add: Write_memory_eq [OF assms(1)])
qed

text \<open>What is in the record of a call, but for its outcome, has texts.\<close>

definition record_texts ::
    "('j, 'c, 's, 'g) Server \<Rightarrow> 'g HttpRequest \<Rightarrow> 'j DecisionRecord list \<Rightarrow> string \<Rightarrow> string \<Rightarrow> 'j \<Rightarrow> bool" where
  "record_texts S req rs i t x \<longleftrightarrow> (let lib = js_lib (srv_json S) in
     list_all (writable lib) [lib_str lib (if i = [] then GenerateUuid (hq_random req) else i),
       lib_str lib (lib_format_date lib (hq_now req)), lib_str lib t, x, lib_str lib (srv_commit S),
       lib_str lib (srv_version S), lib_int lib (srv_random_seed S), lib_str lib (head_hash rs)])"

text \<open>A call is recorded whole or not at all.\<close>

lemma record_audit_memory:
  assumes "memory_server S" "json_texts (js_lib (srv_json S))" "as_audit_writer st = Some rs"
  obtains (fails) e' where "record_audit S req i t x y e st = (Inl e', st)"
    "record_texts S req rs i t x \<Longrightarrow> (case e of None \<Rightarrow> js_dump (srv_json S) y = Inl e'
       | Some m \<Rightarrow> y = js_null (srv_json S) \<longrightarrow> \<not> writable (js_lib (srv_json S)) (js_str (srv_json S) m))"
  | (written) w where "record_audit S req i t x y e st = (Inr (), st\<lparr>as_audit_writer := Some (rs @ [w])\<rparr>)"
    "record_texts S req rs i t x" "writable (js_lib (srv_json S)) y"
    "writable (js_lib (srv_json S)) (js_str (srv_json S) (case e of Some m \<Rightarrow> m | None \<Rightarrow> []))"
    "dr_request_id w = (if i = [] then GenerateUuid (hq_random req) else i)"
    "dr_tool_name w = t" "dr_input w = x" "dr_output w = y"
    "dr_status w = (case e of Some _ \<Rightarrow> ''error'' | None \<Rightarrow> ''ok'')" "dr_error w = (case e of Some m \<Rightarrow> m | None \<Rightarrow> [])"
proof -
  let ?lib = "js_lib (srv_json S)"
  let ?r = "audit_record (srv_commit S) (srv_version S) (GenerateUuid (hq_random req)) (srv_random_seed S) i t x y e"
  let ?w = "Write ?lib Memory_Latest Memory_Append (hq_now req) rs ?r"
  have audit: "record_audit S req i t x y e st = (case ?w of Inl e \<Rightarrow> (Inl e, st) | Inr l \<Rightarrow> (Inr (), st\<lparr>as_audit_writer := Some l\<rparr>))"
    using assms(1,3) by (simp add: record_audit_def RecordAudit_def memory_server_def ebind_def split: sum.split)
  have short: "writable ?lib (lib_str ?lib [])" "writable ?lib (lib_str ?lib ''ok'')" "writable ?lib (lib_str ?lib ''error'')"
    using json_textsD(3) [OF assms(2)] by (simp_all add: ascii_def)
  have "(\<exists>l. ?w = Inr l) \<longleftrightarrow> record_texts S req rs i t x \<and> writable ?lib y \<and>
      writable ?lib (lib_str ?lib (case e of Some m \<Rightarrow> m | None \<Rightarrow> []))"
    using short by (subst Write_texts [OF assms(2)]) (auto simp: audit_record_def record_texts_def Let_def split: option.split)
  note iff = this
  show thesis
  proof (cases ?w)
    case (Inl e')
    show thesis
    proof (rule fails)
      show "record_audit S req i t x y e st = (Inl e', st)" by (simp add: audit Inl)
      assume texts: "record_texts S req rs i t x"
      show "case e of None \<Rightarrow> js_dump (srv_json S) y = Inl e'
         | Some m \<Rightarrow> y = js_null (srv_json S) \<longrightarrow> \<not> writable ?lib (js_str (srv_json S) m)"
      proof (cases e)
        case None
        then have "\<not> writable ?lib y" using iff texts Inl short by auto
        then obtain e'' where d: "lib_dump ?lib y = Inl e''" by (cases "lib_dump ?lib y") (auto simp: writable_def)
        have "writable ?lib x" using texts by (simp add: record_texts_def Let_def)
        then have "?w = Inl e''" using d by (intro Write_output_error) (simp_all add: audit_record_def)
        then show ?thesis using d Inl None by simp
      next
        case (Some m)
        then show ?thesis using iff texts Inl json_textsD(5) [OF assms(2)] by auto
      qed
    qed
  next
    case (Inr l)
    show thesis
    proof (rule memory.Write_record [OF Inr, of rs])
      fix w assume w: "Memory_All l = Inr (rs @ [w])" "dr_request_id w = dr_request_id ?r" "dr_tool_name w = dr_tool_name ?r"
        "dr_input w = dr_input ?r" "dr_output w = dr_output ?r" "dr_status w = dr_status ?r" "dr_error w = dr_error ?r"
      show thesis
        by (rule written [of w]) (use iff Inr w in \<open>auto simp: audit audit_record_def Memory_All_def\<close>)
    qed (simp add: Memory_All_def)
  qed
qed

lemma dispatch_step_eq:
  "Dispatch (srv_ext S) call (as_market_data st) = (r, svc) \<Longrightarrow>
   dispatch_step S call st = (r, st\<lparr>as_market_data := svc\<rparr>)"
  by (simp add: dispatch_step_def lift_step_def)

lemma response_ok:
  "(\<And>v. \<exists>s. js_dump J v = Inr s) \<Longrightarrow> \<exists>resp. JsonResponse J n b = Inr resp"
  by (metis JsonResponse_def ebind_simps(2))

text \<open>The response of a task has a text when its parts have.\<close>

lemma a2a_response_ok:
  assumes "json_texts (js_lib J)" "writable (js_lib J) (js_str J i)" "ascii s" "writable (js_lib J) y" "writable (js_lib J) z"
  obtains resp where "a2a_response J i s y z = Inr resp"
proof -
  have "writable (js_lib J) (js_object J [(''output'', y), (''error'', z)])"
    using assms by (subst object_writable [OF assms(1)]) (simp_all add: ascii_def)
  moreover have "writable (js_lib J) (js_str J s)" using json_textsD(3) [OF assms(1,3)] .
  ultimately have "writable (js_lib J) (js_object J [(''id'', js_str J i), (''status'', js_str J s),
      (''result'', js_object J [(''output'', y), (''error'', z)])])"
    using assms by (subst object_writable [OF assms(1)]) (simp_all add: ascii_def)
  then show thesis using that by (auto simp: a2a_response_def JsonResponse_def writable_def)
qed

text \<open>The error a task fails with: the tool's, or that of an output that has no text.\<close>

definition task_fails :: "('j, 'c, 's, 'g) Server \<Rightarrow> 'j ToolResult result \<Rightarrow> exn \<Rightarrow> bool" where
  "task_fails S r e \<longleftrightarrow> r = Inl e \<or> (\<exists>result. r = Inr result \<and> js_dump (srv_json S) (to_output result) = Inl e)"

text \<open>The outcome of a task whose tool gave \<open>r\<close>: answered and recorded, or neither.\<close>

definition task_outcome ::
    "('j, 'c, 's, 'g) Server \<Rightarrow> 'g HttpRequest \<Rightarrow> 'j ToolCallRequest \<Rightarrow> 'j DecisionRecord list \<Rightarrow>
     'j ToolResult result \<Rightarrow> Response result \<times> 'j DecisionRecord list option \<Rightarrow> bool" where
  "task_outcome S req tcr rs r out = (let J = srv_json S; i = a2a_task_id S req; t = tc_name (ToolCallFromRequest tcr) in
     (case out of
        (Inr resp, logged) \<Rightarrow> \<exists>w. logged = Some (rs @ [w]) \<and> dr_request_id w = i \<and> dr_tool_name w = t \<and>
          dr_input w = tcr_arguments tcr \<and>
          ((\<exists>result. r = Inr result \<and> dr_status w = ''ok'' \<and> dr_output w = to_output result \<and>
              a2a_response J i ''completed'' (to_output result) (js_null J) = Inr resp) \<or>
           (\<exists>e. task_fails S r e \<and> dr_status w = ''error'' \<and> dr_error w = exn_text S e \<and>
              a2a_response J i ''failed'' (js_null J) (js_str J (exn_text S e)) = Inr resp))
      | (Inl e', logged) \<Rightarrow> logged = Some rs \<and>
          (record_texts S req rs i t (tcr_arguments tcr) \<longrightarrow>
             (\<exists>e. task_fails S r e \<and> (\<not> catchable e \<or> \<not> writable (js_lib J) (js_str J (exn_text S e)))))))"

text \<open>The handler of an error: the failure is recorded and answered, or neither.\<close>

lemma task_failed:
  assumes "memory_server S" "json_texts (js_lib (srv_json S))" "as_audit_writer st = Some rs"
    and "record_texts S req rs (a2a_task_id S req) (tc_name (ToolCallFromRequest tcr)) (tcr_arguments tcr) \<Longrightarrow> task_fails S r e"
    and "step_bind (record_audit S req (a2a_task_id S req) (tc_name (ToolCallFromRequest tcr)) (tcr_arguments tcr) (js_null (srv_json S))
        (Some (exn_text S e)))
      (\<lambda>_. no_state (a2a_response (srv_json S) (a2a_task_id S req) ''failed'' (js_null (srv_json S)) (js_str (srv_json S) (exn_text S e)))) st =
      (x, st')"
  shows "as_market_data st' = as_market_data st \<and> task_outcome S req tcr rs r (x, as_audit_writer st')"
proof -
  let ?J = "srv_json S" and ?i = "a2a_task_id S req" and ?t = "tc_name (ToolCallFromRequest tcr)"
  from assms(1-3) show ?thesis
  proof (cases rule: record_audit_memory [of S _ rs req ?i ?t "tcr_arguments tcr" "js_null ?J" "Some (exn_text S e)"])
    case (fails e')
    then have "x = Inl e'" "st' = st" using assms(5) by (simp_all add: step_bind_def)
    then show ?thesis using fails(2) assms(3,4) by (auto simp: task_outcome_def Let_def)
  next
    case (written w)
    have "writable (js_lib ?J) (js_str ?J ?i)" using written(2) by (simp add: record_texts_def Let_def a2a_task_id_def)
    then obtain resp where resp: "a2a_response ?J ?i ''failed'' (js_null ?J) (js_str ?J (exn_text S e)) = Inr resp"
      using a2a_response_ok [OF assms(2), of ?i "''failed''" "js_null ?J" "js_str ?J (exn_text S e)"]
        written(4) json_textsD(5) [OF assms(2)] by (auto simp: ascii_def)
    then have "x = Inr resp" "st' = st\<lparr>as_audit_writer := Some (rs @ [w])\<rparr>"
      using assms(5) written(1) by (simp_all add: step_bind_def)
    then show ?thesis using written assms(4) resp by (auto simp: task_outcome_def Let_def a2a_task_id_def)
  qed
qed

lemma a2a_outcome:
  assumes "memory_server S" "json_texts (js_lib (srv_json S))" "as_audit_writer st = Some rs"
    and "DecodeToolCall (srv_json S) (hq_body req) = Inr tcr" "requested_tool tcr \<noteq> []"
    and "Dispatch (srv_ext S) (ToolCallFromRequest tcr) (as_market_data st) = (r, svc)"
    and "a2a_tasks S req st = (x, st')"
  shows "as_market_data st' = svc \<and> task_outcome S req tcr rs r (x, as_audit_writer st')"
proof -
  let ?J = "srv_json S" and ?i = "a2a_task_id S req" and ?t = "tc_name (ToolCallFromRequest tcr)"
  let ?st = "st\<lparr>as_market_data := svc\<rparr>"
  let ?failed = "\<lambda>e. step_bind (record_audit S req ?i ?t (tcr_arguments tcr) (js_null ?J) (Some (exn_text S e)))
    (\<lambda>_. no_state (a2a_response ?J ?i ''failed'' (js_null ?J) (js_str ?J (exn_text S e))))"
  have n: "requested_tool tcr = ?t" by (simp add: requested_tool_def ToolCallFromRequest_def)
  have log: "as_audit_writer ?st = Some rs" "as_market_data ?st = svc" using assms(3) by simp_all
  have b: "\<not> (tcr_tool tcr = [] \<and> tcr_name tcr = [])" using assms(5) by (auto simp: requested_tool_def)
  have d: "dispatch_step S (ToolCallFromRequest tcr) st = (r, ?st)" by (rule dispatch_step_eq [OF assms(6)])
  have seen: "a2a_call ?J (hq_body req) = tcr" using assms(4) by (simp add: a2a_call_def)
  note a2a = a2a_tasks_def Let_def step_catch_def
  note failed = task_failed [OF assms(1,2) log(1)]
  show ?thesis
  proof (cases r)
    case (Inl e)
    have "(x, st') = (if catchable e then ?failed e ?st else (Inl e, ?st))"
      using assms(7) b d Inl by (auto simp: a2a step_bind_def [of "dispatch_step S (ToolCallFromRequest tcr)"] assms(4) seen n)
    then show ?thesis using failed [of req tcr r e x st'] Inl assms(3)
      by (cases "catchable e") (auto simp: task_fails_def task_outcome_def Let_def)
  next
    case (Inr result)
    let ?rec = "record_audit S req ?i ?t (tcr_arguments tcr) (to_output result) None"
    have run: "(x, st') = (case step_bind ?rec (\<lambda>_. no_state (a2a_response ?J ?i ''completed'' (to_output result) (js_null ?J))) ?st of
        (Inr resp, s) \<Rightarrow> (Inr resp, s) | (Inl e, s) \<Rightarrow> if catchable e then ?failed e s else (Inl e, s))"
      using assms(7) b d Inr by (auto simp: a2a step_bind_def [of "dispatch_step S (ToolCallFromRequest tcr)"] assms(4) seen n)
    from assms(1,2) log(1) show ?thesis
    proof (cases rule: record_audit_memory [of S _ rs req ?i ?t "tcr_arguments tcr" "to_output result" None])
      case (fails e)
      then have "(x, st') = (if catchable e then ?failed e ?st else (Inl e, ?st))" using run by (simp add: step_bind_def)
      moreover have "record_texts S req rs ?i ?t (tcr_arguments tcr) \<Longrightarrow> task_fails S r e"
        using fails(2) Inr by (auto simp: task_fails_def)
      ultimately show ?thesis using failed [of req tcr r e x st'] assms(3)
        by (cases "catchable e") (auto simp: task_outcome_def Let_def)
    next
      case (written w)
      have "writable (js_lib ?J) (js_str ?J ?i)" using written(2) by (simp add: record_texts_def Let_def a2a_task_id_def)
      then obtain resp where resp: "a2a_response ?J ?i ''completed'' (to_output result) (js_null ?J) = Inr resp"
        using a2a_response_ok [OF assms(2), of ?i "''completed''" "to_output result" "js_null ?J"]
          written(3) json_textsD(5) [OF assms(2)] by (auto simp: ascii_def)
      then have "x = Inr resp" "st' = ?st\<lparr>as_audit_writer := Some (rs @ [w])\<rparr>"
        using run written(1) by (simp_all add: step_bind_def)
      then show ?thesis using written Inr resp by (auto simp: task_outcome_def Let_def a2a_task_id_def)
    qed
  qed
qed

section \<open>Tasks with the same body\<close>

text \<open>What is used of the \<^verbatim>\<open>UNIQUE\<close> constraint of the audit table: a request id is not inserted again.\<close>

definition unique_ids :: "('s \<Rightarrow> 'j DecisionRecord \<Rightarrow> 's result) \<Rightarrow> bool" where
  "unique_ids Append \<longleftrightarrow> (\<forall>st r st' q. Append st r = Inr st' \<longrightarrow> dr_request_id q = dr_request_id r \<longrightarrow>
     (\<exists>e. Append st' q = Inl e))"

lemma Write_append:
  assumes "Write lib Latest Append now st r = Inr st'"
  obtains q where "Append st q = Inr st'" "dr_request_id q = dr_request_id r"
  using assms that by (fastforce simp: Write_def Let_def ebind_Inr_iff canonical split: if_splits)

definition taken :: "('j, 'c, 's, 'g) Server \<Rightarrow> string \<Rightarrow> ('c, 's) AppState \<Rightarrow> bool" where
  "taken S i st \<longleftrightarrow> (\<exists>logged. as_audit_writer st = Some logged \<and> (\<forall>q. dr_request_id q = i \<longrightarrow> (\<exists>e. srv_append S logged q = Inl e)))"

lemma taken_refused:
  assumes "taken S i st" "i \<noteq> []"
  shows "\<exists>e. record_audit S req i t x y err st = (Inl e, st)"
proof -
  obtain logged where log: "as_audit_writer st = Some logged" "\<And>q. dr_request_id q = i \<Longrightarrow> \<exists>e. srv_append S logged q = Inl e"
    using assms(1) by (auto simp: taken_def)
  let ?r = "audit_record (srv_commit S) (srv_version S) (GenerateUuid (hq_random req)) (srv_random_seed S) i t x y err"
  have "dr_request_id ?r = i" using assms(2) by (simp add: audit_record_def)
  then have "Write (js_lib (srv_json S)) (srv_latest S) (srv_append S) (hq_now req) logged ?r \<noteq> Inr log'" for log'
    using log(2) by (metis Write_append sum.distinct(1))
  then obtain e where "Write (js_lib (srv_json S)) (srv_latest S) (srv_append S) (hq_now req) logged ?r = Inl e"
    by (metis sum.exhaust)
  then show ?thesis using log(1) by (simp add: record_audit_def RecordAudit_def)
qed

lemma keeps_taken:
  assumes "unique_ids (srv_append S)" "i \<noteq> []"
  shows "keeps (\<lambda>st. as_audit_writer st = Some logged \<or> taken S i st) (record_audit S req i t x y err)"
proof (rule keepsI)
  fix st assume "as_audit_writer st = Some logged \<or> taken S i st"
  moreover have "snd (record_audit S req i t x y err st) = st" if "taken S i st"
    using taken_refused [OF that assms(2)] by (metis snd_conv)
  moreover have "as_audit_writer (snd (record_audit S req i t x y err st)) = Some logged \<or>
      taken S i (snd (record_audit S req i t x y err st))" if h: "as_audit_writer st = Some logged"
  proof -
    let ?r = "audit_record (srv_commit S) (srv_version S) (GenerateUuid (hq_random req)) (srv_random_seed S) i t x y err"
    let ?w = "Write (js_lib (srv_json S)) (srv_latest S) (srv_append S) (hq_now req) logged ?r"
    show ?thesis
    proof (cases ?w)
      case (Inl e)
      then show ?thesis using h by (simp add: record_audit_def RecordAudit_def)
    next
      case (Inr log')
      then obtain q where "srv_append S logged q = Inr log'" "dr_request_id q = i"
        using assms(2) by (auto simp: audit_record_def elim: Write_append)
      then have "\<forall>q. dr_request_id q = i \<longrightarrow> (\<exists>e. srv_append S log' q = Inl e)"
        using assms(1) by (auto simp: unique_ids_def)
      then show ?thesis using Inr h by (simp add: record_audit_def RecordAudit_def taken_def)
    qed
  qed
  ultimately show "as_audit_writer (snd (record_audit S req i t x y err st)) = Some logged \<or>
      taken S i (snd (record_audit S req i t x y err st))" by metis
qed

lemma task_id_nonempty: "a2a_task_id S req \<noteq> []"
  by (simp add: a2a_task_id_def)

lemma keeps_dispatch_taken:
  "keeps (\<lambda>st. as_audit_writer st = Some logged \<or> taken S i st) (dispatch_step S call)"
  by (intro keepsI) (auto simp: dispatch_step_def lift_step_def taken_def split: prod.splits)

lemma a2a_keeps_taken:
  assumes "unique_ids (srv_append S)"
  shows "keeps (\<lambda>st. as_audit_writer st = Some logged \<or> taken S (a2a_task_id S req) st) (a2a_tasks S req)"
  unfolding a2a_tasks_def Let_def
  by (intro keeps_intros keeps_dispatch_taken keeps_taken [OF assms task_id_nonempty])

lemma dispatch_taken: "taken S i st \<Longrightarrow> taken S i (snd (dispatch_step S call st))"
  by (auto simp: dispatch_step_def lift_step_def taken_def split: prod.splits)


text \<open>A second task with the body of one that was recorded: its body fails, and so does the record of the failure.\<close>

lemma a2a_again:
  assumes "taken S (a2a_task_id S req) st"
    and "\<And>tcr. DecodeToolCall (srv_json S) (hq_body req) = Inr tcr \<Longrightarrow> tcr_tool tcr = [] \<Longrightarrow> tcr_name tcr = [] \<Longrightarrow>
      \<exists>e. ErrorResponse (srv_json S) 400 ''tool or name is required'' = Inl e"
  shows "\<exists>e. fst (a2a_tasks S req st) = Inl e"
proof -
  let ?J = "srv_json S" and ?i = "a2a_task_id S req"
  let ?m = "first_do (DecodeToolCall ?J (hq_body req)) (\<lambda>tcr.
     if tcr_tool tcr = [] \<and> tcr_name tcr = [] then no_state (ErrorResponse ?J 400 ''tool or name is required'')
     else step_bind (dispatch_step S (ToolCallFromRequest tcr)) (\<lambda>result.
       step_bind (record_audit S req ?i (requested_tool tcr) (tcr_arguments tcr) (to_output result) None) (\<lambda>_.
         no_state (a2a_response ?J ?i ''completed'' (to_output result) (js_null ?J)))))"
  note refused = taken_refused [OF _ task_id_nonempty]
  have "\<exists>e st'. ?m st = (Inl e, st') \<and> taken S ?i st'"
  proof (cases "DecodeToolCall ?J (hq_body req)")
    case (Inr tcr)
    show ?thesis
    proof (cases "tcr_tool tcr = [] \<and> tcr_name tcr = []")
      case True
      then show ?thesis using assms Inr by auto
    next
      case False
      obtain r st' where d: "dispatch_step S (ToolCallFromRequest tcr) st = (r, st')" by fastforce
      then have t: "taken S ?i st'" using dispatch_taken [OF assms(1), of "ToolCallFromRequest tcr"] by simp
      show ?thesis
      proof (cases r)
        case (Inl e)
        then show ?thesis using False \<open>DecodeToolCall _ _ = Inr tcr\<close> d t by (auto simp: step_bind_def)
      next
        case (Inr result)
        obtain e where "record_audit S req ?i (requested_tool tcr) (tcr_arguments tcr) (to_output result) None st' = (Inl e, st')"
          using refused [OF t] by blast
        then show ?thesis using False \<open>DecodeToolCall _ _ = Inr tcr\<close> Inr d t by (auto simp: step_bind_def)
      qed
    qed
  qed (use assms(1) in simp)
  then obtain e st' where m: "?m st = (Inl e, st')" "taken S ?i st'" by blast
  obtain e' where "record_audit S req ?i (requested_tool (a2a_call ?J (hq_body req)))
      (tcr_arguments (a2a_call ?J (hq_body req))) (js_null ?J) (Some (exn_text S e)) st' = (Inl e', st')"
    using refused [OF m(2)] by blast
  then show ?thesis using m(1) unfolding a2a_tasks_def Let_def step_catch_def
    by (simp add: step_bind_def)
qed

section \<open>Properties\<close>

text \<open>C8: a request that is refused never reaches a handler and changes nothing: with authorization enabled,
  one without exactly the configured, non-empty key is answered 401, except for the health check; then one whose
  body is over 16 MiB is answered 413. Every other request gets exactly what its handler makes of it.\<close>

theorem serve_authorization:
  "serve cfg S route req st =
     (if au_enabled cfg \<and> hq_url req \<noteq> ''/health'' \<and>
         \<not> (au_api_key cfg \<noteq> [] \<and> hq_header req ''X-API-Key'' = au_api_key cfg)
      then (refusal (srv_json S) 401, st)
      else if 16777216 < length (hq_body req) then (refusal (srv_json S) 413, st)
      else handle S route req st)"
  by (auto simp: serve_def api_authorization)

text \<open>C18: whatever is asked, a handler answers with JSON and one of the codes 200, 400, 404, 500, 502 and 503. No
  exception leaves a handler but one thrown by the writing of a JSON text, save for A2A tasks, whose record of a
  failure may throw too; the rest is undefined behaviour.\<close>

theorem serve_errors:
  "case fst (handle S route req st) of
     Inr resp \<Rightarrow> rs_code resp \<in> {200, 400, 404, 500, 502, 503} \<and> rs_content_type resp = ''application/json''
   | Inl e \<Rightarrow> escapes (srv_json S) e \<or> route = A2aTasks"
proof (cases "fst (handle S route req st)")
  case (Inl e)
  then show ?thesis using handle_escapes [OF Inl] by auto
next
  case (Inr resp)
  then show ?thesis using step_codes_handle [of S route req] by (auto simp: step_codes_def codes_def)
qed

text \<open>However many requests of whatever kind are served, the audit log in memory verifies.\<close>

theorem serve_audit:
  assumes "memory_server S" "\<And>s. lib_sha256 (js_lib (srv_json S)) s \<noteq> []" "as_audit_writer st = Some []"
  shows "\<exists>logged. as_audit_writer (snd (serve_all cfg S st reqs)) = Some logged \<and>
    VerifyChain (js_lib (srv_json S)) Memory_All logged = Inr ()"
proof -
  have "log_ok (chain_ok (js_lib (srv_json S))) st" using assms(3) by (simp add: log_ok_def chain_ok_def)
  from keeps_serve_all [OF memory_writes_keep [OF assms(1,2)] this] show ?thesis
    by (auto simp: log_ok_def VerifyChain_Inr Memory_All_def)
qed

text \<open>C10: the cache cannot be seen from outside: two servers that differ only in what their caches hold of the
  providers' own answers give the same responses to any sequence of requests.\<close>

theorem serve_cache:
  assumes "day_server S" "same_state (FormatDate (srv_json S)) s t"
  shows "fst (serve_all cfg S s reqs) = fst (serve_all cfg S t reqs)"
  using assms(2)
proof (induction reqs arbitrary: s t)
  case (Cons q reqs)
  obtain route req where q: "q = (route, req)" by fastforce
  obtain r s' r' t' where e: "serve cfg S route req s = (r, s')" "serve cfg S route req t = (r', t')" by fastforce
  then have "r = r'" "same_state (FormatDate (srv_json S)) s' t'"
    using uniformD [OF uniform_serve [OF assms(1)] Cons.prems, of cfg route req] by simp_all
  from Cons.IH [OF this(2)] \<open>r = r'\<close> show ?case by (auto simp: q e split: prod.splits)
qed simp


text \<open>C21: a task for a named tool, with the log in memory, is answered with one record more in the log or not
  answered with none. The record has the task's id, the name of the tool that was run and the arguments; it is of a
  success with the tool's output, or of a failure with the text of the error, which is the tool's or that of an output
  that has no JSON text; and the response reports the same. A task goes unanswered only for an error that is not
  caught, or for a text that is not written: that of the error, or something else that the record holds.\<close>

theorem a2a_record:
  assumes "memory_server S" "json_texts (js_lib (srv_json S))" "as_audit_writer st = Some rs"
    and "DecodeToolCall (srv_json S) (hq_body req) = Inr tcr" "requested_tool tcr \<noteq> []"
    and "Dispatch (srv_ext S) (ToolCallFromRequest tcr) (as_market_data st) = (r, svc)"
    and "a2a_tasks S req st = (x, st')"
  shows "as_market_data st' = svc \<and>
    (case x of
       Inr resp \<Rightarrow> \<exists>w. as_audit_writer st' = Some (rs @ [w]) \<and> dr_request_id w = a2a_task_id S req \<and>
         dr_tool_name w = tc_name (ToolCallFromRequest tcr) \<and> dr_input w = tcr_arguments tcr \<and>
         ((\<exists>result. r = Inr result \<and> dr_status w = ''ok'' \<and> dr_output w = to_output result \<and>
             a2a_response (srv_json S) (a2a_task_id S req) ''completed'' (to_output result) (js_null (srv_json S)) = Inr resp) \<or>
          (\<exists>e. task_fails S r e \<and> dr_status w = ''error'' \<and> dr_error w = exn_text S e \<and>
             a2a_response (srv_json S) (a2a_task_id S req) ''failed'' (js_null (srv_json S)) (js_str (srv_json S) (exn_text S e)) =
               Inr resp))
     | Inl e' \<Rightarrow> as_audit_writer st' = Some rs \<and>
         (record_texts S req rs (a2a_task_id S req) (tc_name (ToolCallFromRequest tcr)) (tcr_arguments tcr) \<longrightarrow>
           (\<exists>e. task_fails S r e \<and>
             (\<not> catchable e \<or> \<not> writable (js_lib (srv_json S)) (js_str (srv_json S) (exn_text S e))))))"
proof -
  have "as_market_data st' = svc \<and> task_outcome S req tcr rs r (x, as_audit_writer st')"
    by (rule a2a_outcome [OF assms])
  then show ?thesis by (simp add: task_outcome_def Let_def)
qed

text \<open>An MCP call that names both a tool and a name runs the tool and records the name: the log attributes the
  output of one tool to another. A call that fails, or whose record has no text, leaves no record.\<close>

theorem mcp_audit_name:
  assumes "memory_server S" "json_texts (js_lib (srv_json S))" "as_audit_writer st = Some rs"
    and "DecodeToolCall (srv_json S) (hq_body req) = Inr tcr" "tcr_tool tcr \<noteq> []" "tcr_name tcr \<noteq> []"
    and "Dispatch (srv_ext S) \<lparr>tc_name = tcr_tool tcr, tc_arguments = tcr_arguments tcr\<rparr> (as_market_data st) = (r, svc)"
  shows "as_audit_writer (snd (mcp_tools_call S req st)) = Some rs \<and>
      ((\<exists>e. task_fails S r e) \<or> \<not> record_texts S req rs [] (tcr_name tcr) (tcr_arguments tcr)) \<or>
    (\<exists>result w. r = Inr result \<and> as_audit_writer (snd (mcp_tools_call S req st)) = Some (rs @ [w]) \<and>
        dr_tool_name w = tcr_name tcr \<and> dr_output w = to_output result)"
proof -
  let ?J = "srv_json S"
  have c: "ToolCallFromRequest tcr = \<lparr>tc_name = tcr_tool tcr, tc_arguments = tcr_arguments tcr\<rparr>"
    using assms(5) by (simp add: ToolCallFromRequest_def)
  have d: "dispatch_step S (ToolCallFromRequest tcr) st = (r, st\<lparr>as_market_data := svc\<rparr>)"
    using assms(7) by (intro dispatch_step_eq) (simp add: c)
  have w: "as_audit_writer (st\<lparr>as_market_data := svc\<rparr>) = Some rs" using assms(3) by simp
  note mcp = mcp_tools_call_def Let_def step_catch_def step_bind_def
  show ?thesis
  proof (cases r)
    case (Inr result)
    from assms(1,2) w show ?thesis
    proof (cases rule: record_audit_memory [of S _ rs req "[]" "tcr_name tcr" "tcr_arguments tcr" "to_output result" None])
      case (fails e)
      then have "as_audit_writer (snd (mcp_tools_call S req st)) = Some rs" using d Inr assms(4,6) w by (auto simp: mcp)
      then show ?thesis using fails(2) Inr by (auto simp: task_fails_def)
    next
      case (written x)
      have "as_audit_writer (snd (mcp_tools_call S req st)) = Some (rs @ [x])"
        using d Inr written(1) assms(4,6) by (auto simp: mcp split: sum.split)
      then show ?thesis using Inr written by auto
    qed
  next
    case (Inl e)
    then show ?thesis using d assms(4,6) w by (auto simp: mcp task_fails_def)
  qed
qed

text \<open>C39: when the storage refuses a request id it holds, as the audit table does, an A2A task with the same body as
  one that was recorded is not answered: its record is refused, the record of that failure too, and the exception
  leaves the handler.\<close>

theorem a2a_duplicate:
  assumes "unique_ids (srv_append S)" "as_audit_writer st = Some logged"
    and "as_audit_writer (snd (a2a_tasks S req st)) \<noteq> Some logged" "hq_body req' = hq_body req"
  shows "\<exists>e. fst (a2a_tasks S req' (snd (a2a_tasks S req st))) = Inl e"
proof (rule a2a_again)
  have i: "a2a_task_id S req' = a2a_task_id S req" using assms(4) by (simp add: a2a_task_id_def)
  show "taken S (a2a_task_id S req') (snd (a2a_tasks S req st))"
    using keepsD [OF a2a_keeps_taken [OF assms(1), of logged req], of st] assms(2,3) by (simp add: i)
  fix tcr assume "DecodeToolCall (srv_json S) (hq_body req') = Inr tcr" "tcr_tool tcr = []" "tcr_name tcr = []"
  then show "\<exists>e. ErrorResponse (srv_json S) 400 ''tool or name is required'' = Inl e"
    using assms(2-4) by (cases "ErrorResponse (srv_json S) 400 ''tool or name is required''")
      (auto simp: a2a_tasks_def Let_def step_catch_def)
qed


section \<open>Witnesses\<close>

text \<open>A server over the sample library, whose parser knows three bodies, and a storage without duplicate ids.\<close>

definition sample_bodies :: "string \<Rightarrow> tree option" where
  "sample_bodies s =
     (if s = ''health'' then Some (TObj [(''tool'', TStr ''health'')])
      else if s = ''both'' then Some (TObj [(''tool'', TStr ''health''), (''name'', TStr ''screen_stocks'')])
      else None)"

definition sample_server :: "('s \<Rightarrow> tree DecisionRecord result) \<Rightarrow> ('s \<Rightarrow> tree DecisionRecord \<Rightarrow> 's result) \<Rightarrow>
    (tree, InMemoryCache, 's, unit) Server" where
  "sample_server Latest Append =
     \<lparr>srv_ext = sample_externals sample_bodies, srv_latest = Latest, srv_append = Append, srv_commit = [],
      srv_version = [], srv_random_seed = 1, srv_body_hash = (\<lambda>s. s), srv_stod = (\<lambda>s. None),
      srv_seed_rng = (\<lambda>w. ()), srv_shuffle = (\<lambda>g xs. (xs, g))\<rparr>"

abbreviation memory_sample :: "(tree, InMemoryCache, tree MemoryStorage, unit) Server" where
  "memory_sample \<equiv> sample_server Memory_Latest Memory_Append"

definition sample_request :: "string \<Rightarrow> unit HttpRequest" where
  "sample_request body =
     \<lparr>hq_url = ''/'', hq_body = body, hq_param = [''start'' \<mapsto> ''+'', ''end'' \<mapsto> ''+xx''], hq_header = (\<lambda>h. []),
      hq_now = 5, hq_random = replicate 16 255, hq_entropy = ()\<rparr>"

definition sample_state :: "InMemoryCache Service \<Rightarrow> 's \<Rightarrow> (InMemoryCache, 's) AppState" where
  "sample_state svc st = \<lparr>as_market_data = svc, as_audit_writer = Some st\<rparr>"

definition open_auth :: AuthConfig where
  "open_auth = \<lparr>au_enabled = False, au_api_key = []\<rparr>"

lemma sample_server_ok:
  "memory_server memory_sample" "\<exists>s. js_dump (srv_json (sample_server L A)) v = Inr s"
  "lib_sha256 (js_lib (srv_json (sample_server L A))) s \<noteq> []" "day_server (sample_server L A)"
proof -
  show "day_server (sample_server L A)"
    using sample_externals_ok by (simp add: day_server_def sample_server_def)
qed (simp_all add: memory_server_def sample_server_def sample_externals_def tree_json_def tree_dump_def)

lemma sample_decode:
  "DecodeToolCall (srv_json (sample_server L A)) ''health'' =
     Inr \<lparr>tcr_tool = ''health'', tcr_name = [], tcr_arguments = TObj []\<rparr>"
  "DecodeToolCall (srv_json (sample_server L A)) ''both'' =
     Inr \<lparr>tcr_tool = ''health'', tcr_name = ''screen_stocks'', tcr_arguments = TObj []\<rparr>"
  by (simp_all add: sample_server_def sample_externals_def tree_json_def DecodeToolCall_def sample_bodies_def
      json_if_present_def)

lemma sample_health:
  "Dispatch (srv_ext (sample_server L A)) \<lparr>tc_name = ''health'', tc_arguments = a\<rparr> svc =
     (Inr \<lparr>to_output = TObj [(''status'', TStr ''ok'')]\<rparr>, svc)"
  by (simp add: Dispatch_table tool_table_def) (simp add: sample_server_def sample_externals_def tree_json_def)

theorem serve_audit_witness:
  "\<exists>logged. as_audit_writer (snd (serve_all open_auth memory_sample (sample_state sample_service [])
       [(A2aTasks, sample_request ''health''), (McpToolsCall, sample_request ''both'')])) = Some logged \<and>
     VerifyChain (js_lib (srv_json memory_sample)) Memory_All logged = Inr ()"
  by (rule serve_audit) (simp_all add: sample_server_ok sample_state_def)

theorem serve_cache_witness:
  "fst (serve_all open_auth memory_sample (sample_state sample_service []) [(MarketData ''AAPL'', sample_request [])]) =
   fst (serve_all open_auth memory_sample (sample_state warm_service []) [(MarketData ''AAPL'', sample_request [])])"
proof (rule serve_cache [OF sample_server_ok(4)])
  have "FormatDate (srv_json memory_sample) = sample_dates"
    by (simp add: sample_server_def sample_format)
  then show "same_state (FormatDate (srv_json memory_sample)) (sample_state sample_service []) (sample_state warm_service [])"
    using warm_same by (simp add: same_state_def sample_state_def)
qed

lemma sample_server_texts: "json_texts (js_lib (srv_json (sample_server L A)))"
  by (simp add: sample_server_def sample_externals_def tree_json_texts)

lemma sample_writable: "writable (js_lib (srv_json (sample_server L A))) v"
  using sample_server_ok(2) by (simp add: writable_def)

lemma sample_no_failure: "\<not> task_fails (sample_server L A) (Inr result) e"
proof -
  obtain t where "js_dump (srv_json (sample_server L A)) (to_output result) = Inr t" using sample_server_ok(2) by blast
  then show ?thesis by (simp add: task_fails_def)
qed

theorem a2a_record_witness:
  "\<exists>w. as_audit_writer (snd (a2a_tasks memory_sample (sample_request ''health'') (sample_state sample_service []))) = Some [w] \<and>
     dr_request_id w = ''task-health'' \<and> dr_tool_name w = ''health'' \<and> dr_status w = ''ok''"
proof -
  let ?st = "sample_state sample_service ([] :: tree MemoryStorage)"
  let ?tcr = "\<lparr>tcr_tool = ''health'', tcr_name = [], tcr_arguments = TObj []\<rparr>"
  let ?r = "Inr \<lparr>to_output = TObj [(''status'', TStr ''ok'')]\<rparr>"
  obtain x st' where a: "a2a_tasks memory_sample (sample_request ''health'') ?st = (x, st')" by fastforce
  have log: "as_audit_writer ?st = Some []" by (simp add: sample_state_def)
  have dec: "DecodeToolCall (srv_json memory_sample) (hq_body (sample_request ''health'')) = Inr ?tcr"
    by (simp add: sample_request_def sample_decode)
  have n: "requested_tool ?tcr \<noteq> []" by (simp add: requested_tool_def)
  have run: "Dispatch (srv_ext memory_sample) (ToolCallFromRequest ?tcr) (as_market_data ?st) = (?r, as_market_data ?st)"
    by (simp add: ToolCallFromRequest_def sample_health)
  have ok: "\<not> task_fails memory_sample ?r e" for e by (rule sample_no_failure)
  have texts: "record_texts memory_sample (sample_request ''health'') [] i t v" for i t v
    by (simp add: record_texts_def Let_def sample_writable)
  from a2a_record [OF sample_server_ok(1) sample_server_texts log dec n run a] ok texts
  obtain w where "as_audit_writer st' = Some [w]" "dr_request_id w = a2a_task_id memory_sample (sample_request ''health'')"
    "dr_tool_name w = tc_name (ToolCallFromRequest ?tcr)" "dr_status w = ''ok''"
    by (cases x) auto
  then show ?thesis using a
    by (auto simp: a2a_task_id_def sample_request_def sample_server_def ToolCallFromRequest_def)
qed

theorem mcp_audit_name_witness:
  "\<exists>w. as_audit_writer (snd (mcp_tools_call memory_sample (sample_request ''both'') (sample_state sample_service []))) = Some [w] \<and>
     dr_tool_name w = ''screen_stocks'' \<and> dr_output w = TObj [(''status'', TStr ''ok'')]"
proof -
  let ?st = "sample_state sample_service ([] :: tree MemoryStorage)"
  let ?r = "Inr \<lparr>to_output = TObj [(''status'', TStr ''ok'')]\<rparr>"
  have log: "as_audit_writer ?st = Some []" by (simp add: sample_state_def)
  have dec: "DecodeToolCall (srv_json memory_sample) (hq_body (sample_request ''both'')) =
      Inr \<lparr>tcr_tool = ''health'', tcr_name = ''screen_stocks'', tcr_arguments = TObj []\<rparr>"
    by (simp add: sample_request_def sample_decode)
  have ok: "\<not> task_fails memory_sample ?r e" for e by (rule sample_no_failure)
  have texts: "record_texts memory_sample (sample_request ''both'') [] i t v" for i t v
    by (simp add: record_texts_def Let_def sample_writable)
  from mcp_audit_name [OF sample_server_ok(1) sample_server_texts log dec, of ?r "as_market_data ?st"] ok texts
  show ?thesis by (simp add: sample_health)
qed

text \<open>The table of the storage, with its constraint.\<close>

definition Unique_Append :: "tree MemoryStorage \<Rightarrow> tree DecisionRecord \<Rightarrow> tree MemoryStorage result" where
  "Unique_Append records r =
     (if dr_request_id r \<in> dr_request_id ` set records then Inl (RuntimeError [T ''duplicate key''])
      else Inr (records @ [r]))"

lemma sample_unique_recorded:
  "as_audit_writer (snd (a2a_tasks (sample_server Memory_Latest Unique_Append) (sample_request ''health'')
     (sample_state sample_service []))) \<noteq> Some []"
proof -
  let ?S = "sample_server Memory_Latest Unique_Append" and ?st = "sample_state sample_service ([] :: tree MemoryStorage)"
  let ?c = "\<lparr>tcr_tool = ''health'', tcr_name = [], tcr_arguments = TObj []\<rparr>"
  have "Unique_Append [] r = Memory_Append [] r" for r by (simp add: Unique_Append_def Memory_Append_def)
  then have w: "Write lib Memory_Latest Unique_Append now [] r = Write lib Memory_Latest Memory_Append now [] r" for lib now r
    by (simp add: Write_def)
  have d: "dispatch_step ?S (ToolCallFromRequest ?c) ?st = (Inr \<lparr>to_output = TObj [(''status'', TStr ''ok'')]\<rparr>, ?st)"
    using dispatch_step_eq [OF sample_health, of Memory_Latest Unique_Append "TObj []" ?st]
    by (simp add: ToolCallFromRequest_def)
  have "\<exists>x. record_audit ?S (sample_request ''health'') i t a b e ?st = (Inr (), ?st\<lparr>as_audit_writer := Some [x]\<rparr>)" for i t a b e
  proof -
    let ?r = "audit_record [] [] (GenerateUuid (hq_random (sample_request ''health''))) 1 i t a b e"
    obtain x where "Write (js_lib (srv_json ?S)) Memory_Latest Memory_Append (hq_now (sample_request ''health'')) [] ?r = Inr ([] @ [x])"
      by (rule Write_memory [OF sample_server_ok(2)])
    moreover have "srv_latest ?S = Memory_Latest" "srv_append ?S = Unique_Append" "srv_commit ?S = []" "srv_version ?S = []"
      "srv_random_seed ?S = 1" "as_audit_writer ?st = Some []" by (simp_all add: sample_server_def sample_state_def)
    ultimately have "record_audit ?S (sample_request ''health'') i t a b e ?st = (Inr (), ?st\<lparr>as_audit_writer := Some [x]\<rparr>)"
      by (simp add: record_audit_def RecordAudit_def w)
    then show ?thesis ..
  qed
  then obtain x where x: "record_audit ?S (sample_request ''health'') (a2a_task_id ?S (sample_request ''health'')) ''health''
      (TObj []) (TObj [(''status'', TStr ''ok'')]) None ?st = (Inr (), ?st\<lparr>as_audit_writer := Some [x]\<rparr>)" by blast
  obtain resp where "a2a_response (srv_json ?S) (a2a_task_id ?S (sample_request ''health'')) ''completed''
      (TObj [(''status'', TStr ''ok'')]) (js_null (srv_json ?S)) = Inr resp"
    using response_ok [OF sample_server_ok(2)] unfolding a2a_response_def by blast
  moreover have "DecodeToolCall (srv_json ?S) (hq_body (sample_request ''health'')) = Inr ?c"
    by (simp add: sample_request_def sample_decode)
  ultimately show ?thesis using d x
    by (simp add: a2a_tasks_def Let_def step_catch_def step_bind_def requested_tool_def)
qed

theorem a2a_duplicate_witness:
  "\<exists>e. fst (a2a_tasks (sample_server Memory_Latest Unique_Append) (sample_request ''health'')
     (snd (a2a_tasks (sample_server Memory_Latest Unique_Append) (sample_request ''health'')
        (sample_state sample_service [])))) = Inl e"
proof (rule a2a_duplicate)
  show "unique_ids (srv_append (sample_server Memory_Latest Unique_Append))"
    by (auto simp: unique_ids_def sample_server_def Unique_Append_def)
  show "as_audit_writer (sample_state sample_service []) = Some []" by (simp add: sample_state_def)
qed (simp_all add: sample_unique_recorded)

end
