(* ===== verification/Postgres.thy ===== *)
theory Postgres
  imports Routes_Facts
begin

text \<open>
  \<^verbatim>\<open>audit/postgres.cpp\<close> and \<^verbatim>\<open>storage/migrate.cpp\<close>. The audit table is the list of its rows in the order
  of their ids; the statements are what their SQL says of it: an insert refuses a request id the table
  holds (\<^verbatim>\<open>UNIQUE\<close>), \<^verbatim>\<open>NULLIF(x, '')\<close> is \<open>NULL\<close> (here \<open>None\<close>) for the empty text. The database is
  outside the repository: \<open>pg_column\<close> is the text a column of type \<^verbatim>\<open>TIMESTAMPTZ\<close> gives for the one
  inserted, and \<open>pg_accepts\<close> says which rows the types of the columns let in. The date library and the
  JSON parser are parameters too. The connections are those of \<open>Pool\<close>.
\<close>

section \<open>The audit table\<close>

record Row =
  rw_request_id :: string
  rw_recorded_at :: string
  rw_tool_name :: string
  rw_input_hash :: string
  rw_output_hash :: string
  rw_status :: string
  rw_error :: "string option"
  rw_git_commit_sha :: "string option"
  rw_package_version :: "string option"
  rw_random_seed :: "int option"
  rw_prev_record_hash :: "string option"
  rw_record_hash :: string
  rw_input_json :: string
  rw_output_json :: string
  rw_raw :: string

record 'j Pg =
  pg_json :: "'j Json"
  pg_format :: "Date \<Rightarrow> string"
  pg_parse :: "string \<Rightarrow> Date option"
  pg_column :: "string \<Rightarrow> string"
  pg_accepts :: "Row \<Rightarrow> bool"

definition FormatTimestamp :: "'j Pg \<Rightarrow> Date \<Rightarrow> string" where
  "FormatTimestamp P tp = pg_format P tp"

definition ParseTimestamp :: "'j Pg \<Rightarrow> string \<Rightarrow> Date result" where
  "ParseTimestamp P s = of_option (RuntimeError [T ''invalid timestamp: '', T s]) (pg_parse P s)"

definition nullif :: "string \<Rightarrow> string option" where
  "nullif s = (if s = [] then None else Some s)"

definition from_null :: "'a \<Rightarrow> 'a option \<Rightarrow> 'a" where
  "from_null d c = (case c of None \<Rightarrow> d | Some v \<Rightarrow> v)"

definition json_of_text :: "'j Pg \<Rightarrow> string \<Rightarrow> 'j result" where
  "json_of_text P s = of_option (RuntimeError [T ''parse_error'']) (js_parse (pg_json P) s)"

definition RowToRecord :: "'j Pg \<Rightarrow> Row \<Rightarrow> 'j DecisionRecord result" where
  "RowToRecord P row =
     ebind (ParseTimestamp P (rw_recorded_at row)) (\<lambda>recorded_at.
     ebind (json_of_text P (rw_input_json row)) (\<lambda>input.
     ebind (json_of_text P (rw_output_json row)) (\<lambda>output.
       Inr \<lparr>dr_request_id = rw_request_id row, dr_recorded_at = recorded_at, dr_tool_name = rw_tool_name row,
         dr_input = input, dr_input_hash = rw_input_hash row, dr_output = output,
         dr_output_hash = rw_output_hash row, dr_status = rw_status row,
         dr_error = from_null [] (rw_error row), dr_git_commit_sha = from_null [] (rw_git_commit_sha row),
         dr_package_version = from_null [] (rw_package_version row), dr_random_seed = from_null 0 (rw_random_seed row),
         dr_prev_record_hash = from_null [] (rw_prev_record_hash row), dr_record_hash = rw_record_hash row\<rparr>)))"

definition record_row :: "'j Pg \<Rightarrow> 'j DecisionRecord \<Rightarrow> Row result" where
  "record_row P r =
     (let J = pg_json P in
      ebind (js_dump J (dr_input r)) (\<lambda>input_json.
      ebind (js_dump J (dr_output r)) (\<lambda>output_json.
      ebind (js_dump J (js_object J [(''input'', dr_input r), (''output'', dr_output r)])) (\<lambda>raw.
        Inr \<lparr>rw_request_id = dr_request_id r, rw_recorded_at = pg_column P (FormatTimestamp P (dr_recorded_at r)),
          rw_tool_name = dr_tool_name r, rw_input_hash = dr_input_hash r, rw_output_hash = dr_output_hash r,
          rw_status = dr_status r, rw_error = nullif (dr_error r), rw_git_commit_sha = nullif (dr_git_commit_sha r),
          rw_package_version = nullif (dr_package_version r), rw_random_seed = Some (dr_random_seed r),
          rw_prev_record_hash = nullif (dr_prev_record_hash r), rw_record_hash = dr_record_hash r,
          rw_input_json = input_json, rw_output_json = output_json, rw_raw = raw\<rparr>))))"

definition insert_row :: "'j Pg \<Rightarrow> Row list \<Rightarrow> Row \<Rightarrow> Row list result" where
  "insert_row P table row =
     (if \<not> pg_accepts P row then Inl (RuntimeError [T ''invalid input''])
      else if rw_request_id row \<in> rw_request_id ` set table
      then Inl (RuntimeError [T ''duplicate key value violates unique constraint''])
      else Inr (table @ [row]))"

definition Pg_Append :: "'j Pg \<Rightarrow> Row list \<Rightarrow> 'j DecisionRecord \<Rightarrow> Row list result" where
  "Pg_Append P table r = ebind (record_row P r) (insert_row P table)"

definition Pg_Latest :: "'j Pg \<Rightarrow> Row list \<Rightarrow> 'j DecisionRecord result" where
  "Pg_Latest P table = (if table = [] then Inl AuditNotFoundError else RowToRecord P (last table))"

definition Pg_GetByRequestID :: "'j Pg \<Rightarrow> Row list \<Rightarrow> string \<Rightarrow> 'j DecisionRecord result" where
  "Pg_GetByRequestID P table request_id =
     (case filter (\<lambda>row. rw_request_id row = request_id) table of
        [] \<Rightarrow> Inl AuditNotFoundError
      | row # rows \<Rightarrow> RowToRecord P row)"

fun Pg_All :: "'j Pg \<Rightarrow> Row list \<Rightarrow> 'j DecisionRecord list result" where
  "Pg_All P [] = Inr []"
| "Pg_All P (row # rows) = ebind (RowToRecord P row) (\<lambda>r. ebind (Pg_All P rows) (\<lambda>rs. Inr (r # rs)))"

section \<open>Migrations\<close>

text \<open>
  The database as the migrations use it: statements that change it, each in a transaction of its own,
  and the query of the versions applied.
\<close>

record 'd Sql =
  sq_ensure :: "(unit, 'd) step"
  sq_versions :: "'d \<Rightarrow> string list result"
  sq_exec :: "string \<Rightarrow> (unit, 'd) step"
  sq_mark :: "string \<Rightarrow> (unit, 'd) step"
  sq_unmark :: "string \<Rightarrow> (unit, 'd) step"

record Migration =
  mg_name :: string
  mg_up_sql :: string
  mg_down_sql :: string

definition EnsureMigrationsTable :: "'d Sql \<Rightarrow> (unit, 'd) step" where
  "EnsureMigrationsTable Q = sq_ensure Q"

definition AppliedVersions :: "'d Sql \<Rightarrow> (string list, 'd) step" where
  "AppliedVersions Q d = (sq_versions Q d, d)"

definition MarkApplied :: "'d Sql \<Rightarrow> string \<Rightarrow> (unit, 'd) step" where
  "MarkApplied Q version = sq_mark Q version"

definition MarkRolledBack :: "'d Sql \<Rightarrow> string \<Rightarrow> (unit, 'd) step" where
  "MarkRolledBack Q version = sq_unmark Q version"

fun up_loop :: "'d Sql \<Rightarrow> string list \<Rightarrow> Migration list \<Rightarrow> (unit, 'd) step" where
  "up_loop Q applied [] = no_state (Inr ())"
| "up_loop Q applied (m # ms) =
     (if mg_name m \<in> set applied then up_loop Q applied ms
      else step_bind (sq_exec Q (mg_up_sql m)) (\<lambda>_.
           step_bind (MarkApplied Q (mg_name m)) (\<lambda>_. up_loop Q applied ms)))"

fun down_loop :: "'d Sql \<Rightarrow> string list \<Rightarrow> Migration list \<Rightarrow> (unit, 'd) step" where
  "down_loop Q applied [] = no_state (Inr ())"
| "down_loop Q applied (m # ms) =
     (if mg_name m \<notin> set applied then down_loop Q applied ms
      else step_bind (sq_exec Q (mg_down_sql m)) (\<lambda>_.
           step_bind (MarkRolledBack Q (mg_name m)) (\<lambda>_. down_loop Q applied ms)))"

definition sql_text :: "string list \<Rightarrow> string" where
  "sql_text ls = CHR 0x0A # concat (map (\<lambda>l. l @ [CHR 0x0A]) ls)"

definition Migrations :: "Migration list" where
  "Migrations =
     [\<lparr>mg_name = ''000001_create_audit_table'',
       mg_up_sql = sql_text
         [''CREATE TABLE IF NOT EXISTS audit_records ('',
          ''    id BIGSERIAL PRIMARY KEY,'',
          ''    request_id TEXT NOT NULL UNIQUE,'',
          ''    recorded_at TIMESTAMPTZ NOT NULL DEFAULT NOW(),'',
          ''    tool_name TEXT NOT NULL,'',
          ''    input_hash TEXT NOT NULL,'',
          ''    output_hash TEXT NOT NULL,'',
          ''    status TEXT NOT NULL,'',
          ''    error TEXT,'',
          ''    git_commit_sha TEXT,'',
          ''    package_version TEXT,'',
          ''    random_seed BIGINT,'',
          ''    prev_record_hash TEXT,'',
          ''    record_hash TEXT NOT NULL,'',
          ''    input_json TEXT NOT NULL,'',
          ''    output_json TEXT NOT NULL,'',
          ''    raw JSONB NOT NULL'',
          '');'',
          '''',
          ''CREATE INDEX IF NOT EXISTS idx_audit_recorded_at ON audit_records(recorded_at);'',
          ''CREATE INDEX IF NOT EXISTS idx_audit_tool_name ON audit_records(tool_name);''],
       mg_down_sql = ''DROP TABLE IF EXISTS audit_records;''\<rparr>]"

definition MigrateUp :: "'d Sql \<Rightarrow> (unit, 'd) step" where
  "MigrateUp Q =
     step_bind (EnsureMigrationsTable Q) (\<lambda>_.
     step_bind (AppliedVersions Q) (\<lambda>applied. up_loop Q applied Migrations))"

definition MigrateDown :: "'d Sql \<Rightarrow> (unit, 'd) step" where
  "MigrateDown Q =
     step_bind (EnsureMigrationsTable Q) (\<lambda>_.
     step_bind (AppliedVersions Q) (\<lambda>applied. down_loop Q applied (rev Migrations)))"

section \<open>The table refines the log in memory\<close>

text \<open>
  What is used of the parsers and the columns: the text of a \<^verbatim>\<open>TIMESTAMPTZ\<close> column parses, to the time it keeps,
  which need not be the one written (it has microseconds); a JSON text, which a column of type \<^verbatim>\<open>TEXT\<close> keeps,
  parses to a value with the same text.
\<close>

definition pg_reads :: "'j Pg \<Rightarrow> bool" where
  "pg_reads P \<longleftrightarrow>
     (\<forall>d. int64 d \<longrightarrow> pg_parse P (pg_column P (pg_format P d)) \<noteq> None) \<and>
     (\<forall>v s. js_dump (pg_json P) v = Inr s \<longrightarrow> (\<exists>v'. js_parse (pg_json P) s = Some v' \<and> js_dump (pg_json P) v' = Inr s))"

text \<open>The record the table gives back for one it was given: its time is the column's, its JSON values have their texts.\<close>

definition as_stored :: "'j Pg \<Rightarrow> 'j DecisionRecord \<Rightarrow> 'j DecisionRecord \<Rightarrow> bool" where
  "as_stored P r w \<longleftrightarrow>
     pg_parse P (pg_column P (pg_format P (dr_recorded_at r))) = Some (dr_recorded_at w) \<and>
     same_text (js_lib (pg_json P)) (dr_input r) (dr_input w) \<and> same_text (js_lib (pg_json P)) (dr_output r) (dr_output w) \<and>
     w\<lparr>dr_recorded_at := dr_recorded_at r, dr_input := dr_input r, dr_output := dr_output r\<rparr> = r"

text \<open>The texts of the days a time is given and read back with.\<close>

definition same_day :: "'j Pg \<Rightarrow> 'j DecisionRecord \<Rightarrow> 'j DecisionRecord \<Rightarrow> bool" where
  "same_day P r w \<longleftrightarrow> FormatDate (pg_json P) (dr_recorded_at r) = FormatDate (pg_json P) (dr_recorded_at w)"

lemma from_nullif: "from_null [] (nullif s) = s"
  by (simp add: from_null_def nullif_def)

lemma row_stored:
  assumes "record_row P r = Inr row" "pg_reads P" "int64 (dr_recorded_at r)"
  obtains w where "RowToRecord P row = Inr w" "as_stored P r w" "rw_request_id row = dr_request_id r"
proof -
  let ?J = "pg_json P"
  obtain i u raw where d: "js_dump ?J (dr_input r) = Inr i" "js_dump ?J (dr_output r) = Inr u"
    and row: "row = \<lparr>rw_request_id = dr_request_id r, rw_recorded_at = pg_column P (pg_format P (dr_recorded_at r)),
      rw_tool_name = dr_tool_name r, rw_input_hash = dr_input_hash r, rw_output_hash = dr_output_hash r,
      rw_status = dr_status r, rw_error = nullif (dr_error r), rw_git_commit_sha = nullif (dr_git_commit_sha r),
      rw_package_version = nullif (dr_package_version r), rw_random_seed = Some (dr_random_seed r),
      rw_prev_record_hash = nullif (dr_prev_record_hash r), rw_record_hash = dr_record_hash r,
      rw_input_json = i, rw_output_json = u, rw_raw = raw\<rparr>"
    using assms(1) by (auto simp: record_row_def Let_def ebind_Inr_iff FormatTimestamp_def)
  obtain t where t: "pg_parse P (pg_column P (pg_format P (dr_recorded_at r))) = Some t"
    using assms(2,3) by (auto simp: pg_reads_def)
  note texts = assms(2) [unfolded pg_reads_def, THEN conjunct2, rule_format]
  obtain i' u' where p: "js_parse ?J i = Some i'" "js_dump ?J i' = Inr i" "js_parse ?J u = Some u'" "js_dump ?J u' = Inr u"
    using texts [OF d(1)] texts [OF d(2)] by blast
  let ?w = "r\<lparr>dr_recorded_at := t, dr_input := i', dr_output := u'\<rparr>"
  have "from_null 0 (Some (dr_random_seed r)) = dr_random_seed r" by (simp add: from_null_def)
  then have "RowToRecord P row = Inr ?w"
    by (simp add: row RowToRecord_def ParseTimestamp_def json_of_text_def t p from_nullif)
  moreover have "as_stored P r ?w" using t p d by (simp add: as_stored_def same_text_def)
  ultimately show thesis using that row by simp
qed

lemma as_storedD:
  "as_stored P r w \<Longrightarrow> dr_prev_record_hash w = dr_prev_record_hash r \<and> dr_record_hash w = dr_record_hash r"
  by (cases r; cases w) (simp add: as_stored_def)

lemma as_stored_record: "as_stored P r w \<Longrightarrow> same_day P r w \<Longrightarrow> same_record (js_lib (pg_json P)) r w"
  by (simp add: as_stored_def same_day_def same_record_def FormatDate_def)

text \<open>A record stored on another day does not verify, but for a collision of the hash.\<close>

lemma other_day_collision:
  assumes "json_texts (js_lib (pg_json P))" "as_stored P r w" "\<not> same_day P r w"
    and "record_ok (js_lib (pg_json P)) r" "record_ok (js_lib (pg_json P)) w"
  shows "\<exists>s t. s \<noteq> t \<and> lib_sha256 (js_lib (pg_json P)) s = lib_sha256 (js_lib (pg_json P)) t"
proof -
  let ?lib = "js_lib (pg_json P)"
  let ?a = "r\<lparr>dr_record_hash := []\<rparr>" and ?b = "w\<lparr>dr_record_hash := []\<rparr>"
  obtain s t where s: "lib_dump ?lib (record_to_json ?lib ?a) = Inr s" "lib_dump ?lib (record_to_json ?lib ?b) = Inr t"
    "ToHex (lib_sha256 ?lib s) = ToHex (lib_sha256 ?lib t)"
    using assms(4,5) as_storedD [OF assms(2)]
    by (auto simp: record_ok_def HashRecord_def HashJson_def HashBytes_def ebind_Inr_iff)
  have "\<not> same_text ?lib (record_to_json ?lib ?a) (record_to_json ?lib ?b)"
    using assms(3) by (simp add: record_text [OF assms(1)] json_textsD(2) [OF assms(1)] same_day_def FormatDate_def)
  then have "s \<noteq> t" using s(1,2) by (auto simp: same_text_def)
  then show ?thesis using s(3) ToHex_inj by blast
qed

lemma RowToRecord_id: "RowToRecord P row = Inr r \<Longrightarrow> dr_request_id r = rw_request_id row"
  by (auto simp: RowToRecord_def ebind_Inr_iff)

lemma Pg_All_Inr: "Pg_All P table = Inr rs \<longleftrightarrow> list_all2 (\<lambda>row r. RowToRecord P row = Inr r) table rs"
  by (induction table arbitrary: rs) (auto simp: ebind_Inr_iff list_all2_Cons1)

lemma Pg_All_ids: "Pg_All P table = Inr rs \<Longrightarrow> map rw_request_id table = map dr_request_id rs"
  by (induction table arbitrary: rs) (auto simp: ebind_Inr_iff dest: RowToRecord_id)

lemma Pg_All_append:
  "Pg_All P table = Inr rs \<Longrightarrow> RowToRecord P row = Inr r \<Longrightarrow> Pg_All P (table @ [row]) = Inr (rs @ [r])"
  by (simp add: Pg_All_Inr list_all2_appendI)

lemma Pg_Latest_memory: "Pg_All P table = Inr rs \<Longrightarrow> Pg_Latest P table = Memory_Latest rs"
  by (auto simp: Pg_All_Inr Pg_Latest_def Memory_Latest_def list_all2_conv_all_nth last_conv_nth)

lemma find_two: "find p (xs @ ys) = (case find p xs of None \<Rightarrow> find p ys | Some x \<Rightarrow> Some x)"
  by (induction xs) auto

lemma find_rev: "distinct (map f xs) \<Longrightarrow> find (\<lambda>x. f x = i) (rev xs) = find (\<lambda>x. f x = i) xs"
proof (induction xs)
  case (Cons a xs)
  show ?case
  proof (cases "f a = i")
    case True
    then have "find (\<lambda>x. f x = i) xs = None" using Cons.prems by (auto simp: find_None_iff) (metis image_eqI)
    then show ?thesis using True Cons by (simp add: find_two)
  next
    case False
    then show ?thesis using Cons by (simp add: find_two split: option.split)
  qed
qed simp

lemma Pg_Get_memory:
  assumes "Pg_All P table = Inr rs" "distinct (map rw_request_id table)"
  shows "Pg_GetByRequestID P table i = Memory_GetByRequestID rs i"
proof -
  have f: "find (\<lambda>r. dr_request_id r = i) (rev rs) = find (\<lambda>r. dr_request_id r = i) rs"
    using assms(2) Pg_All_ids [OF assms(1)] by (intro find_rev) simp
  have "Pg_GetByRequestID P table i = of_option AuditNotFoundError (find (\<lambda>r. dr_request_id r = i) rs)"
    using assms(1)
    by (induction table arbitrary: rs) (auto simp: Pg_GetByRequestID_def ebind_Inr_iff dest: RowToRecord_id)
  then show ?thesis by (simp add: Memory_GetByRequestID_def f)
qed

text \<open>The writer looks at the storage only through its latest record.\<close>

lemma Pg_Write_memory:
  assumes "Pg_All P table = Inr rs"
  shows "Write lib (Pg_Latest P) (Pg_Append P) now table r =
    ebind (Write lib Memory_Latest Memory_Append now rs r) (\<lambda>rs'. Pg_Append P table (last rs'))"
proof -
  have "prev_hash_of (Pg_Latest P) table g = prev_hash_of Memory_Latest rs g" for g
    by (simp add: prev_hash_of_def Pg_Latest_memory [OF assms(1)])
  then show ?thesis
    by (simp add: Write_def Let_def canonical Memory_Append_def ebind_def split: sum.split)
qed

lemma postgres_unique_ids: "unique_ids (Pg_Append P)"
proof -
  have id: "record_row P r = Inr row \<Longrightarrow> rw_request_id row = dr_request_id r" for r row
    by (auto simp: record_row_def Let_def ebind_Inr_iff)
  show ?thesis unfolding unique_ids_def
  proof (intro allI impI)
    fix st st' and r q :: "'a DecisionRecord" assume a: "Pg_Append P st r = Inr st'" "dr_request_id q = dr_request_id r"
    then obtain row where "record_row P r = Inr row" "st' = st @ [row]"
      by (auto simp: Pg_Append_def insert_row_def ebind_Inr_iff split: if_splits)
    then show "\<exists>e. Pg_Append P st' q = Inl e" using a(2) id
      by (cases "record_row P q") (auto simp: Pg_Append_def insert_row_def)
  qed
qed

section \<open>Migrations\<close>

definition applied :: "'d Sql \<Rightarrow> 'd \<Rightarrow> string set" where
  "applied Q d = (case sq_versions Q d of Inr vs \<Rightarrow> set vs | Inl e \<Rightarrow> {})"

definition versioned :: "'d Sql \<Rightarrow> 'd \<Rightarrow> bool" where
  "versioned Q d \<longleftrightarrow> (\<exists>vs. sq_versions Q d = Inr vs)"

text \<open>
  What is used of the database: the table of versions is made when it is missing and then empty, and
  left alone when it is there; a version is added or taken away; the statements of the migrations do
  not touch it; a transaction on it that fails changes nothing.
\<close>

definition sql_ok :: "'d Sql \<Rightarrow> string set \<Rightarrow> bool" where
  "sql_ok Q statements \<longleftrightarrow>
     (\<forall>d. versioned Q d \<longrightarrow> sq_ensure Q d = (Inr (), d)) \<and>
     (\<forall>d d'. sq_ensure Q d = (Inr (), d') \<longrightarrow> versioned Q d' \<and> applied Q d' = applied Q d) \<and>
     (\<forall>v d d'. sq_mark Q v d = (Inr (), d') \<longrightarrow>
        applied Q d' = insert v (applied Q d) \<and> (versioned Q d \<longrightarrow> versioned Q d')) \<and>
     (\<forall>v d d'. sq_unmark Q v d = (Inr (), d') \<longrightarrow>
        applied Q d' = applied Q d - {v} \<and> (versioned Q d \<longrightarrow> versioned Q d')) \<and>
     (\<forall>s d. s \<in> statements \<longrightarrow> applied Q (snd (sq_exec Q s d)) = applied Q d \<and>
        (versioned Q d \<longrightarrow> versioned Q (snd (sq_exec Q s d)))) \<and>
     (\<forall>v d e d'. sq_mark Q v d = (Inl e, d') \<or> sq_unmark Q v d = (Inl e, d') \<or> sq_ensure Q d = (Inl e, d') \<longrightarrow> d' = d)"

definition statements :: "string set" where
  "statements = mg_up_sql ` set Migrations \<union> mg_down_sql ` set Migrations"

definition names :: "string set" where
  "names = mg_name ` set Migrations"

lemma sql_okD:
  assumes "sql_ok Q S"
  shows "versioned Q d \<Longrightarrow> sq_ensure Q d = (Inr (), d)"
    "sq_ensure Q d = (Inr (), d') \<Longrightarrow> versioned Q d' \<and> applied Q d' = applied Q d"
    "sq_mark Q v d = (Inr (), d') \<Longrightarrow> applied Q d' = insert v (applied Q d) \<and> (versioned Q d \<longrightarrow> versioned Q d')"
    "sq_unmark Q v d = (Inr (), d') \<Longrightarrow> applied Q d' = applied Q d - {v} \<and> (versioned Q d \<longrightarrow> versioned Q d')"
    "s \<in> S \<Longrightarrow> sq_exec Q s d = (r, d') \<Longrightarrow> applied Q d' = applied Q d \<and> (versioned Q d \<longrightarrow> versioned Q d')"
    "sq_mark Q v d = (Inl e, d') \<Longrightarrow> d' = d" "sq_unmark Q v d = (Inl e, d') \<Longrightarrow> d' = d"
    "sq_ensure Q d = (Inl e, d') \<Longrightarrow> d' = d"
proof -
  note c = assms [unfolded sql_ok_def]
  note h = c [THEN conjunct1, rule_format]
    c [THEN conjunct2, THEN conjunct1, rule_format]
    c [THEN conjunct2, THEN conjunct2, THEN conjunct1, rule_format]
    c [THEN conjunct2, THEN conjunct2, THEN conjunct2, THEN conjunct1, rule_format]
    c [THEN conjunct2, THEN conjunct2, THEN conjunct2, THEN conjunct2, THEN conjunct1, rule_format]
    c [THEN conjunct2, THEN conjunct2, THEN conjunct2, THEN conjunct2, THEN conjunct2, rule_format]
  show "versioned Q d \<Longrightarrow> sq_ensure Q d = (Inr (), d)" by (rule h(1))
  show "sq_ensure Q d = (Inr (), d') \<Longrightarrow> versioned Q d' \<and> applied Q d' = applied Q d" using h(2) by simp
  show "sq_mark Q v d = (Inr (), d') \<Longrightarrow> applied Q d' = insert v (applied Q d) \<and> (versioned Q d \<longrightarrow> versioned Q d')"
    using h(3) by simp
  show "sq_unmark Q v d = (Inr (), d') \<Longrightarrow> applied Q d' = applied Q d - {v} \<and> (versioned Q d \<longrightarrow> versioned Q d')"
    using h(4) by simp
  show "s \<in> S \<Longrightarrow> sq_exec Q s d = (r, d') \<Longrightarrow> applied Q d' = applied Q d \<and> (versioned Q d \<longrightarrow> versioned Q d')"
    using h(5) [of s d] by simp
  show "sq_mark Q v d = (Inl e, d') \<Longrightarrow> d' = d" "sq_unmark Q v d = (Inl e, d') \<Longrightarrow> d' = d"
    "sq_ensure Q d = (Inl e, d') \<Longrightarrow> d' = d" using h(6) [of v d e d'] by auto
qed

lemma up_loop_applied:
  assumes "sql_ok Q S" "mg_up_sql ` set ms \<subseteq> S" "versioned Q d"
  shows "case up_loop Q vs ms d of
      (Inr _, d') \<Rightarrow> applied Q d' = applied Q d \<union> (mg_name ` set ms - set vs) \<and> versioned Q d'
    | (Inl _, d') \<Rightarrow> applied Q d \<subseteq> applied Q d' \<and> applied Q d' \<subseteq> applied Q d \<union> mg_name ` set ms"
  using assms(2,3)
proof (induction ms arbitrary: d)
  case (Cons m ms)
  show ?case
  proof (cases "mg_name m \<in> set vs")
    case True
    then show ?thesis using Cons.IH [OF _ Cons.prems(2)] Cons.prems by (auto split: prod.splits sum.splits)
  next
    case False
    obtain r d1 where e: "sq_exec Q (mg_up_sql m) d = (r, d1)" by fastforce
    have d1: "applied Q d1 = applied Q d" "versioned Q d1" using sql_okD(5) [OF assms(1) _ e] Cons.prems by auto
    show ?thesis
    proof (cases r)
      case (Inl x)
      then show ?thesis using False e d1 by (auto simp: step_bind_def)
    next
      case (Inr u)
      obtain q d2 where k: "sq_mark Q (mg_name m) d1 = (q, d2)" by fastforce
      show ?thesis
      proof (cases q)
        case (Inl x)
        then have "d2 = d1" using sql_okD(6) [OF assms(1)] k by blast
        then show ?thesis using False e d1 k Inr Inl by (auto simp: step_bind_def MarkApplied_def)
      next
        case (Inr w)
        then have d2: "applied Q d2 = insert (mg_name m) (applied Q d)" "versioned Q d2"
          using sql_okD(3) [OF assms(1), of "mg_name m" d1 d2] k d1 by auto
        have "up_loop Q vs (m # ms) d = up_loop Q vs ms d2"
          using False e k Inr \<open>r = Inr u\<close> by (simp add: step_bind_def MarkApplied_def)
        then show ?thesis using Cons.IH [OF _ d2(2)] Cons.prems False d2(1) by (auto split: prod.splits sum.splits)
      qed
    qed
  qed
qed simp

lemma down_loop_applied:
  assumes "sql_ok Q S" "mg_down_sql ` set ms \<subseteq> S" "versioned Q d"
  shows "case down_loop Q vs ms d of
      (Inr _, d') \<Rightarrow> applied Q d' = applied Q d - mg_name ` set ms \<inter> set vs \<and> versioned Q d'
    | (Inl _, d') \<Rightarrow> applied Q d - mg_name ` set ms \<subseteq> applied Q d' \<and> applied Q d' \<subseteq> applied Q d"
  using assms(2,3)
proof (induction ms arbitrary: d)
  case (Cons m ms)
  show ?case
  proof (cases "mg_name m \<in> set vs")
    case False
    then show ?thesis using Cons.IH [OF _ Cons.prems(2)] Cons.prems by (auto split: prod.splits sum.splits)
  next
    case True
    obtain r d1 where e: "sq_exec Q (mg_down_sql m) d = (r, d1)" by fastforce
    have d1: "applied Q d1 = applied Q d" "versioned Q d1" using sql_okD(5) [OF assms(1) _ e] Cons.prems by auto
    show ?thesis
    proof (cases r)
      case (Inl x)
      then show ?thesis using True e d1 by (auto simp: step_bind_def)
    next
      case (Inr u)
      obtain q d2 where k: "sq_unmark Q (mg_name m) d1 = (q, d2)" by fastforce
      show ?thesis
      proof (cases q)
        case (Inl x)
        then have "d2 = d1" using sql_okD(7) [OF assms(1)] k by blast
        then show ?thesis using True e d1 k Inr Inl by (auto simp: step_bind_def MarkRolledBack_def)
      next
        case (Inr w)
        then have d2: "applied Q d2 = applied Q d - {mg_name m}" "versioned Q d2"
          using sql_okD(4) [OF assms(1), of "mg_name m" d1 d2] k d1 by auto
        have "down_loop Q vs (m # ms) d = down_loop Q vs ms d2"
          using True e k Inr \<open>r = Inr u\<close> by (simp add: step_bind_def MarkRolledBack_def)
        then show ?thesis using Cons.IH [OF _ d2(2)] Cons.prems True d2(1) by (auto split: prod.splits sum.splits)
      qed
    qed
  qed
qed simp

text \<open>Where nothing is to be done, nothing is done.\<close>

lemma up_loop_done: "mg_name ` set ms \<subseteq> set vs \<Longrightarrow> up_loop Q vs ms d = (Inr (), d)"
  by (induction ms) auto

lemma down_loop_done: "mg_name ` set ms \<inter> set vs = {} \<Longrightarrow> down_loop Q vs ms d = (Inr (), d)"
  by (induction ms) auto

lemma ensured:
  assumes "sql_ok Q S"
  obtains e where "sq_ensure Q d = (Inl e, d)"
  | d1 vs where "sq_ensure Q d = (Inr (), d1)" "versioned Q d1" "applied Q d1 = applied Q d"
      "sq_versions Q d1 = Inr vs" "set vs = applied Q d"
proof -
  obtain r d1 where e: "sq_ensure Q d = (r, d1)" by fastforce
  show thesis
  proof (cases r)
    case (Inl x)
    then show thesis using that(1) e sql_okD(8) [OF assms] by blast
  next
    case (Inr u)
    then have "versioned Q d1" "applied Q d1 = applied Q d" using sql_okD(2) [OF assms] e by auto
    then show thesis using that(2) e Inr by (auto simp: versioned_def applied_def)
  qed
qed

section \<open>Properties\<close>

text \<open>C19: the audit table refines the log in memory: when its rows read as a log, its latest record, the record
  of a request id and the verification are those of that log; an insert extends the table and the log by a record,
  the one given but for its time, which is what the column keeps of it, and for JSON values with the same texts; it is
  refused exactly for a request id that is taken, a record that has no JSON text or one that the types of the columns
  do not let in.\<close>

theorem postgres_refines:
  assumes "Pg_All P table = Inr rs" "distinct (map rw_request_id table)" "pg_reads P" "int64 (dr_recorded_at r)"
  shows "Pg_Latest P table = Memory_Latest rs \<and> Pg_GetByRequestID P table i = Memory_GetByRequestID rs i \<and>
    VerifyChain lib (Pg_All P) table = VerifyChain lib Memory_All rs \<and>
    (case Pg_Append P table r of
       Inr table' \<Rightarrow> (\<exists>w. as_stored P r w \<and> Pg_All P table' = Memory_Append rs w) \<and> distinct (map rw_request_id table') \<and>
         dr_request_id r \<notin> dr_request_id ` set rs \<and> (\<exists>row. record_row P r = Inr row \<and> pg_accepts P row)
     | Inl e \<Rightarrow> dr_request_id r \<in> dr_request_id ` set rs \<or> record_row P r = Inl e \<or>
         (\<exists>row. record_row P r = Inr row \<and> \<not> pg_accepts P row))"
proof -
  have ids: "rw_request_id ` set table = dr_request_id ` set rs" using Pg_All_ids [OF assms(1)] by (metis list.set_map)
  have "case Pg_Append P table r of
       Inr table' \<Rightarrow> (\<exists>w. as_stored P r w \<and> Pg_All P table' = Memory_Append rs w) \<and> distinct (map rw_request_id table') \<and>
         dr_request_id r \<notin> dr_request_id ` set rs \<and> (\<exists>row. record_row P r = Inr row \<and> pg_accepts P row)
     | Inl e \<Rightarrow> dr_request_id r \<in> dr_request_id ` set rs \<or> record_row P r = Inl e \<or>
         (\<exists>row. record_row P r = Inr row \<and> \<not> pg_accepts P row)"
  proof (cases "record_row P r")
    case (Inr row)
    obtain w where w: "RowToRecord P row = Inr w" "as_stored P r w" "rw_request_id row = dr_request_id r"
      by (rule row_stored [OF Inr assms(3,4)])
    then show ?thesis using Pg_All_append [OF assms(1) w(1)] assms(2) Inr ids
      by (auto simp: Pg_Append_def insert_row_def Memory_Append_def)
  qed (simp add: Pg_Append_def)
  then show ?thesis
    using Pg_Latest_memory [OF assms(1)] Pg_Get_memory [OF assms(1,2)] assms(1) by (simp add: VerifyChain_def Memory_All_def)
qed

text \<open>C20: a write over the audit table appends the record it would append to the log in memory, as the table keeps
  it. A table that verified still does when the time that the column keeps is on the day of the time that was
  written; when it is on another day (a time that is rounded up at midnight) it does not, but for a collision of
  SHA-256.\<close>

theorem postgres_write:
  assumes "Pg_All P table = Inr rs" "distinct (map rw_request_id table)" "pg_reads P" "json_texts (js_lib (pg_json P))"
    and "Write (js_lib (pg_json P)) (Pg_Latest P) (Pg_Append P) now table r = Inr table'"
    and "\<And>s. lib_sha256 (js_lib (pg_json P)) s \<noteq> []" "int64 (dr_recorded_at r)" "int64 now"
  shows "\<exists>w w'. Write (js_lib (pg_json P)) Memory_Latest Memory_Append now rs r = Inr (rs @ [w]) \<and> as_stored P w w' \<and>
    Pg_All P table' = Inr (rs @ [w']) \<and> distinct (map rw_request_id table') \<and>
    (VerifyChain (js_lib (pg_json P)) (Pg_All P) table = Inr () \<and> same_day P w w' \<longrightarrow>
       VerifyChain (js_lib (pg_json P)) (Pg_All P) table' = Inr ()) \<and>
    (VerifyChain (js_lib (pg_json P)) (Pg_All P) table' = Inr () \<and> \<not> same_day P w w' \<longrightarrow>
       (\<exists>s t. s \<noteq> t \<and> lib_sha256 (js_lib (pg_json P)) s = lib_sha256 (js_lib (pg_json P)) t))"
proof -
  let ?lib = "js_lib (pg_json P)"
  from assms(5) obtain rs' where m: "Write ?lib Memory_Latest Memory_Append now rs r = Inr rs'"
    "Pg_Append P table (last rs') = Inr table'"
    by (auto simp: Pg_Write_memory [OF assms(1)] ebind_Inr_iff)
  obtain w where rs': "rs' = rs @ [w]" and ok: "record_ok ?lib w"
    and time: "dr_recorded_at w = (if dr_recorded_at r = 0 then now else dr_recorded_at r)"
    by (rule memory.Write_record [OF m(1), of rs]) (simp_all add: Memory_All_def)
  have w: "Write ?lib Memory_Latest Memory_Append now rs r = Inr (rs @ [w])" "Pg_Append P table w = Inr table'"
    using m rs' by simp_all
  obtain row where row: "record_row P w = Inr row" "table' = table @ [row]" "distinct (map rw_request_id table')"
    using w(2) assms(2) by (auto simp: Pg_Append_def insert_row_def ebind_Inr_iff split: if_splits)
  have "int64 (dr_recorded_at w)" using time assms(7,8) by simp
  with row(1) assms(3) obtain w' where w': "RowToRecord P row = Inr w'" "as_stored P w w'" by (rule row_stored)
  have all: "Pg_All P table' = Inr (rs @ [w'])" using Pg_All_append [OF assms(1) w'(1)] row(2) by simp
  have "chain_ok ?lib (rs @ [w'])" if "chain_ok ?lib rs" "same_day P w w'"
  proof -
    have "chain_ok ?lib (rs @ [w])" using memory.Write_chain [OF w(1), of rs] that(1) assms(6) by (simp add: Memory_All_def)
    moreover have "record_ok ?lib w'"
      using same_record_hash [OF assms(4) as_stored_record [OF w'(2) that(2)] ok] .
    ultimately show ?thesis using as_storedD [OF w'(2)] by (auto simp: chain_ok_def successively_append_iff links_def)
  qed
  moreover have "record_ok ?lib w'" if "chain_ok ?lib (rs @ [w'])" using that by (simp add: chain_ok_def)
  ultimately show ?thesis
    using w(1) w'(2) row(3) all assms(1) other_day_collision [OF assms(4) w'(2) _ ok]
    by (intro exI [of _ w] exI [of _ w']) (auto simp: VerifyChain_Inr)
qed

text \<open>C35: on the set of the versions applied, migrating up is the union with the migrations and migrating down
  the difference; done again, either changes nothing; and where it fails it has only gone part of the way.\<close>

theorem migrate_refines:
  assumes "sql_ok Q statements"
  shows "(case MigrateUp Q d of
       (Inr _, d') \<Rightarrow> applied Q d' = applied Q d \<union> names \<and> MigrateUp Q d' = (Inr (), d')
     | (Inl _, d') \<Rightarrow> applied Q d \<subseteq> applied Q d' \<and> applied Q d' \<subseteq> applied Q d \<union> names) \<and>
    (case MigrateDown Q d of
       (Inr _, d') \<Rightarrow> applied Q d' = applied Q d - names \<and> MigrateDown Q d' = (Inr (), d')
     | (Inl _, d') \<Rightarrow> applied Q d - names \<subseteq> applied Q d' \<and> applied Q d' \<subseteq> applied Q d)"
proof (rule ensured [OF assms, of d])
  fix e assume "sq_ensure Q d = (Inl e, d)"
  then show ?thesis by (auto simp: MigrateUp_def MigrateDown_def EnsureMigrationsTable_def step_bind_def)
next
  fix d1 vs assume v: "sq_ensure Q d = (Inr (), d1)" "versioned Q d1" "applied Q d1 = applied Q d"
    "sq_versions Q d1 = Inr vs" "set vs = applied Q d"
  have u: "MigrateUp Q d = up_loop Q vs Migrations d1" "MigrateDown Q d = down_loop Q vs (rev Migrations) d1"
    using v by (simp_all add: MigrateUp_def MigrateDown_def EnsureMigrationsTable_def AppliedVersions_def step_bind_def)
  have again: "MigrateUp Q d' = up_loop Q ws Migrations d'" "MigrateDown Q d' = down_loop Q ws (rev Migrations) d'"
    if "versioned Q d'" "sq_versions Q d' = Inr ws" for d' ws
    using sql_okD(1) [OF assms that(1)] that(2)
    by (simp_all add: MigrateUp_def MigrateDown_def EnsureMigrationsTable_def AppliedVersions_def step_bind_def)
  have "MigrateUp Q d' = (Inr (), d')" if "versioned Q d'" "names \<subseteq> applied Q d'" for d'
    using that again(1) up_loop_done [of Migrations] by (auto simp: versioned_def applied_def names_def)
  moreover have "MigrateDown Q d' = (Inr (), d')"
    if h: "versioned Q d'" "applied Q d' = applied Q d - names \<inter> applied Q d" for d'
  proof -
    obtain ws where w: "sq_versions Q d' = Inr ws" using h(1) by (auto simp: versioned_def)
    have "mg_name ` set (rev Migrations) \<inter> set ws = {}" using h(2) w by (auto simp: applied_def names_def)
    from down_loop_done [OF this] again(2) [OF h(1) w] show ?thesis by simp
  qed
  moreover have "mg_up_sql ` set Migrations \<subseteq> statements" "mg_down_sql ` set (rev Migrations) \<subseteq> statements"
    by (auto simp: statements_def)
  ultimately show ?thesis
    using up_loop_applied [OF assms _ v(2), of Migrations vs] down_loop_applied [OF assms _ v(2), of "rev Migrations" vs]
    unfolding u by (auto simp: v(3,5) simp flip: names_def split: prod.splits sum.splits)
qed

section \<open>Witnesses\<close>

definition sample_pg :: "tree Pg" where
  "sample_pg = \<lparr>pg_json = tree_json (\<lambda>s. Some (TStr s)), pg_format = sample_dates, pg_parse = sample_parse,
     pg_column = (\<lambda>s. s), pg_accepts = (\<lambda>row. rw_request_id row \<noteq> ''refused'')\<rparr>"

text \<open>A record of another time than midnight, which the column of the sample does not keep.\<close>

definition sample_record :: "tree DecisionRecord" where
  "sample_record = \<lparr>dr_request_id = ''task-1'', dr_recorded_at = 3 * ns_per_day + 5, dr_tool_name = ''health'',
     dr_input = TStr ''in'', dr_input_hash = ''00'', dr_output = TStr ''out'', dr_output_hash = ''01'', dr_status = ''ok'',
     dr_error = [], dr_git_commit_sha = [], dr_package_version = ''0.1.0'', dr_random_seed = 7, dr_prev_record_hash = [],
     dr_record_hash = ''02''\<rparr>"

lemma sample_pg_reads: "pg_reads sample_pg"
  by (simp add: pg_reads_def sample_pg_def sample_parse_dates tree_json_def tree_dump_def)

lemma sample_accepts: "record_row sample_pg r = Inr row \<Longrightarrow> pg_accepts sample_pg row \<longleftrightarrow> dr_request_id r \<noteq> ''refused''"
  by (auto simp: record_row_def Let_def ebind_Inr_iff sample_pg_def)

lemma sample_row: "\<exists>row. record_row sample_pg r = Inr row"
  by (simp add: record_row_def Let_def sample_pg_def tree_json_def tree_dump_def)

lemma sample_time: "int64 (dr_recorded_at sample_record)"
  by (simp add: sample_record_def int64_def ns_per_day_def)

theorem postgres_refines_witness:
  "\<exists>table w. Pg_Append sample_pg [] sample_record = Inr table \<and> Pg_All sample_pg table = Memory_Append [] w \<and>
     dr_recorded_at w = 3 * ns_per_day"
proof -
  obtain row where row: "record_row sample_pg sample_record = Inr row" using sample_row by blast
  moreover have "pg_accepts sample_pg row" using sample_accepts [OF row] by (simp add: sample_record_def)
  ultimately have app: "Pg_Append sample_pg [] sample_record = Inr [row]" by (simp add: Pg_Append_def insert_row_def)
  obtain w where w: "as_stored sample_pg sample_record w" "Pg_All sample_pg [row] = Memory_Append [] w"
    using postgres_refines [of sample_pg "[]" "[]" sample_record] sample_pg_reads sample_time app by auto
  have "dr_recorded_at w = 3 * ns_per_day"
    using w(1) by (simp add: as_stored_def sample_pg_def sample_record_def sample_parse_dates) (simp add: ns_per_day_def)
  then show ?thesis using app w(2) by blast
qed

theorem postgres_write_witness:
  "\<exists>table. Write (js_lib (pg_json sample_pg)) (Pg_Latest sample_pg) (Pg_Append sample_pg) 5 [] sample_record = Inr table \<and>
     VerifyChain (js_lib (pg_json sample_pg)) (Pg_All sample_pg) table = Inr ()"
proof -
  let ?lib = "js_lib (pg_json sample_pg)"
  obtain w where w: "Write ?lib Memory_Latest Memory_Append 5 [] sample_record = Inr ([] @ [w])"
    by (rule Write_memory [of "?lib"]) (simp add: sample_pg_def tree_json_def tree_dump_def)
  have "dr_request_id w = ''task-1''"
    by (rule memory.Write_record [OF w, of "[]"]) (simp_all add: Memory_All_def sample_record_def)
  moreover obtain row where row: "record_row sample_pg w = Inr row" using sample_row by blast
  ultimately have "Pg_Append sample_pg [] w = Inr [row]" using sample_accepts [OF row] by (simp add: Pg_Append_def insert_row_def)
  then have p: "Write ?lib (Pg_Latest sample_pg) (Pg_Append sample_pg) 5 [] sample_record = Inr [row]"
    by (simp add: Pg_Write_memory [of _ "[]" "[]"] w)
  have t: "json_texts ?lib" by (simp add: sample_pg_def tree_json_texts)
  have "lib_sha256 ?lib s \<noteq> []" for s by (simp add: sample_pg_def tree_json_def)
  from postgres_write [OF _ _ sample_pg_reads t p this sample_time] obtain w1 w2 where
    s: "as_stored sample_pg w1 w2" "VerifyChain ?lib (Pg_All sample_pg) [] = Inr () \<and> same_day sample_pg w1 w2 \<longrightarrow>
      VerifyChain ?lib (Pg_All sample_pg) [row] = Inr ()"
    by (auto simp: int64_def)
  have "dr_recorded_at w2 = dr_recorded_at w1 div ns_per_day * ns_per_day"
    using s(1) by (simp add: as_stored_def sample_pg_def sample_parse_dates)
  then have "dr_recorded_at w1 div ns_per_day = dr_recorded_at w2 div ns_per_day" by (simp add: ns_per_day_def)
  then have "same_day sample_pg w1 w2"
    using sample_dates_iso by (auto simp: same_day_def FormatDate_def sample_pg_def tree_json_def iso_dates_def)
  then show ?thesis using p s(2) by (auto simp: VerifyChain_Inr chain_ok_def)
qed

text \<open>A database: the table of versions, if it was made, and the statements that were executed.\<close>

definition sample_sql :: "(string list option \<times> string list) Sql" where
  "sample_sql =
     \<lparr>sq_ensure = (\<lambda>(vs, ex). (Inr (), (case vs of None \<Rightarrow> Some [] | Some v \<Rightarrow> Some v, ex))),
      sq_versions = (\<lambda>(vs, ex). of_option (RuntimeError [T ''no table'']) vs),
      sq_exec = (\<lambda>s (vs, ex). (Inr (), (vs, ex @ [s]))),
      sq_mark = (\<lambda>v (vs, ex). case vs of
         None \<Rightarrow> (Inl (RuntimeError [T ''no table'']), (vs, ex)) | Some us \<Rightarrow> (Inr (), (Some (List.insert v us), ex))),
      sq_unmark = (\<lambda>v (vs, ex). case vs of
         None \<Rightarrow> (Inl (RuntimeError [T ''no table'']), (vs, ex)) | Some us \<Rightarrow> (Inr (), (Some (removeAll v us), ex)))\<rparr>"

lemma sample_sql_ok: "sql_ok sample_sql S"
  by (auto simp: sql_ok_def sample_sql_def versioned_def applied_def split: option.splits)

theorem migrate_refines_witness:
  "applied sample_sql (snd (MigrateUp sample_sql (None, []))) = {''000001_create_audit_table''} \<and>
   applied sample_sql (snd (MigrateDown sample_sql (Some [''000001_create_audit_table''], []))) = {}"
proof -
  have ok: "fst (MigrateUp sample_sql (None, [])) = Inr ()"
    "fst (MigrateDown sample_sql (Some [''000001_create_audit_table''], [])) = Inr ()"
    by (simp_all add: MigrateUp_def MigrateDown_def EnsureMigrationsTable_def AppliedVersions_def MarkApplied_def
        MarkRolledBack_def sample_sql_def Migrations_def step_bind_def)
  have n: "names = {''000001_create_audit_table''}" by (simp add: names_def Migrations_def)
  have a: "applied sample_sql (None, []) = {}"
    "applied sample_sql (Some [''000001_create_audit_table''], []) = {''000001_create_audit_table''}"
    by (simp_all add: applied_def sample_sql_def)
  show ?thesis
    using migrate_refines [OF sample_sql_ok, of "(None, [])"] ok
      migrate_refines [OF sample_sql_ok, of "(Some [''000001_create_audit_table''], [])"]
    by (auto simp: n a split: prod.splits sum.splits)
qed

end
