(* ===== verification/Pool.thy ===== *)
theory Pool
  imports Core
begin

text \<open>
  \<^verbatim>\<open>storage/postgres.cpp\<close>: the connections of the threads. \<^verbatim>\<open>Connect\<close> keeps its connection in a
  \<^verbatim>\<open>thread_local\<close> variable of the function: there is one per thread, whichever pool is asked. The
  driver says for which texts a connection can be opened, and what a query on an open connection comes to: whether
  it succeeds and whether the connection is open after it.
\<close>

record Connection =
  cn_url :: string
  cn_open :: bool

record Driver =
  dv_connects :: "string \<Rightarrow> bool"
  dv_query :: "string \<Rightarrow> bool \<times> bool"

type_synonym connections = "nat \<Rightarrow> Connection option"

text \<open>\<^verbatim>\<open>emplace\<close> destroys the old connection before it makes the new one.\<close>

definition Connect :: "Driver \<Rightarrow> string \<Rightarrow> nat \<Rightarrow> connections \<Rightarrow> Connection result \<times> connections" where
  "Connect dv conn_string thread conns =
     (if conns thread = None \<or> \<not> cn_open (the (conns thread)) then
        (if dv_connects dv conn_string
         then let c = \<lparr>cn_url = conn_string, cn_open = True\<rparr> in (Inr c, conns(thread \<mapsto> c))
         else (Inl (RuntimeError [T ''connection failed'']), conns(thread := None)))
      else (Inr (the (conns thread)), conns))"

definition Ping :: "Driver \<Rightarrow> string \<Rightarrow> nat \<Rightarrow> connections \<Rightarrow> bool \<times> connections" where
  "Ping dv conn_string thread conns =
     (case Connect dv conn_string thread conns of
        (Inl e, conns) \<Rightarrow> (False, conns)
      | (Inr c, conns) \<Rightarrow>
          (case dv_query dv (cn_url c) of
             (ok, still_open) \<Rightarrow> (ok, conns(thread \<mapsto> c\<lparr>cn_open := still_open\<rparr>))))"

text \<open>What happens to the connections: a pool is asked by a thread, or pinged, or a connection is lost.\<close>

datatype pool_event = Connects nat string | Pings nat string | Lost nat

fun pool_step :: "Driver \<Rightarrow> pool_event \<Rightarrow> connections \<Rightarrow> connections" where
  "pool_step dv (Connects i url) conns = snd (Connect dv url i conns)"
| "pool_step dv (Pings i url) conns = snd (Ping dv url i conns)"
| "pool_step dv (Lost i) conns = conns(i := map_option (cn_open_update (\<lambda>_. False)) (conns i))"

fun event_thread :: "pool_event \<Rightarrow> nat" where
  "event_thread (Connects i url) = i"
| "event_thread (Pings i url) = i"
| "event_thread (Lost i) = i"

fun event_urls :: "pool_event \<Rightarrow> string set" where
  "event_urls (Connects i url) = {url}"
| "event_urls (Pings i url) = {url}"
| "event_urls (Lost i) = {}"

definition pool_run :: "Driver \<Rightarrow> pool_event list \<Rightarrow> connections" where
  "pool_run dv es = foldl (\<lambda>conns e. pool_step dv e conns) (\<lambda>i. None) es"

section \<open>Facts\<close>

lemma Connect_Inr: "fst (Connect dv url i conns) = Inr c \<Longrightarrow> cn_open c \<and> snd (Connect dv url i conns) i = Some c"
  by (auto simp: Connect_def Let_def split: if_splits)

text \<open>The threads that have a connection, and where their connections go.\<close>

lemma pool_step_inv:
  assumes "dom conns \<subseteq> I" "\<forall>c \<in> ran conns. cn_url c \<in> U" "event_thread e \<in> I" "event_urls e \<subseteq> U"
  shows "dom (pool_step dv e conns) \<subseteq> I \<and> (\<forall>c \<in> ran (pool_step dv e conns). cn_url c \<in> U)"
proof -
  have f: "i \<in> I" "c' i = Some c \<Longrightarrow> cn_url c \<in> U" if "conns i = Some c" "c' = conns" for i c c'
    using that assms(1,2) by (auto intro: ranI)
  show ?thesis
  proof (cases e)
    case (Connects i url)
    then show ?thesis using assms by (auto simp: Connect_def Let_def ran_def split: if_splits)
  next
    case (Pings i url)
    then show ?thesis using assms
      by (auto simp: Ping_def Connect_def Let_def ran_def split: if_splits prod.splits)
  next
    case (Lost i)
    then show ?thesis using assms by (auto simp: ran_def map_option_case split: if_splits option.splits)
  qed
qed

lemma pool_run_inv:
  "dom (pool_run dv es) \<subseteq> event_thread ` set es \<and> (\<forall>c \<in> ran (pool_run dv es). cn_url c \<in> \<Union> (event_urls ` set es))"
proof (induction es rule: rev_induct)
  case Nil
  show ?case by (simp add: pool_run_def)
next
  case (snoc e es)
  let ?I = "event_thread ` set (es @ [e])" and ?U = "\<Union> (event_urls ` set (es @ [e]))"
  have "dom (pool_run dv es) \<subseteq> ?I" "\<forall>c \<in> ran (pool_run dv es). cn_url c \<in> ?U" using snoc.IH by auto
  from pool_step_inv [OF this, of e dv] show ?case by (simp add: pool_run_def)
qed

text \<open>A second pool in the same thread gets the connection of the first.\<close>

lemma second_pool:
  assumes "fst (Connect dv url1 i conns) = Inr c"
  shows "Connect dv url2 i (snd (Connect dv url1 i conns)) = (Inr c, snd (Connect dv url1 i conns))"
  using Connect_Inr [OF assms] by (simp add: Connect_def)

section \<open>Properties\<close>

text \<open>With one pool in the program, a connection that \<^verbatim>\<open>Connect\<close> gives is open, goes to the pool's database and is
  the calling thread's own, kept until it is lost; and there are never more connections than threads that asked.\<close>

theorem pool_connect:
  assumes "\<forall>e \<in> set es. event_urls e \<subseteq> {url}" "Connect dv url i (pool_run dv es) = (Inr c, conns)"
  shows "cn_open c \<and> cn_url c = url \<and> conns i = Some c \<and> Connect dv url i conns = (Inr c, conns) \<and>
    card (dom conns) \<le> card (insert i (event_thread ` set es))"
proof -
  have s: "conns = pool_run dv (es @ [Connects i url])" using assms(2) by (simp add: pool_run_def)
  have c: "cn_open c" "conns i = Some c" using Connect_Inr [of dv url i "pool_run dv es" c] assms(2) by simp_all
  have "Connect dv url i conns = (Inr c, conns)" using second_pool [of dv url i "pool_run dv es" c url] assms(2) by simp
  moreover have "c \<in> ran conns" using c(2) by (rule ranI)
  then have "cn_url c \<in> {url}"
    using pool_run_inv [of dv "es @ [Connects i url]"] assms(1) unfolding s [symmetric] by fastforce
  moreover have "card (dom conns) \<le> card (insert i (event_thread ` set es))"
    using pool_run_inv [of dv "es @ [Connects i url]"] unfolding s [symmetric] by (intro card_mono) auto
  ultimately show ?thesis using c by simp
qed

text \<open>Two threads and a lost connection.\<close>

theorem pool_connect_witness:
  "\<exists>conns. Connect \<lparr>dv_connects = (\<lambda>u. True), dv_query = (\<lambda>u. (True, True))\<rparr> ''db'' 0
     (pool_run \<lparr>dv_connects = (\<lambda>u. True), dv_query = (\<lambda>u. (True, True))\<rparr> [Pings 0 ''db'', Connects 1 ''db'', Lost 0]) =
       (Inr \<lparr>cn_url = ''db'', cn_open = True\<rparr>, conns) \<and> card (dom conns) \<le> 2"
proof -
  let ?dv = "\<lparr>dv_connects = (\<lambda>u. True), dv_query = (\<lambda>u. (True, True))\<rparr>"
  let ?es = "[Pings 0 ''db'', Connects 1 ''db'', Lost 0]"
  obtain conns where c: "Connect ?dv ''db'' 0 (pool_run ?dv ?es) = (Inr \<lparr>cn_url = ''db'', cn_open = True\<rparr>, conns)"
    by (simp add: pool_run_def Connect_def Ping_def Let_def)
  have "\<forall>e \<in> set ?es. event_urls e \<subseteq> {''db''}" by simp
  from pool_connect [OF this c] c show ?thesis by (simp add: card_insert_if)
qed

end
