(* ===== verification/Config.thy ===== *)
theory Config
  imports Steps
begin

text \<open>
  \<^verbatim>\<open>config/\<close>: defaults, then TOML files, then environment variables. The environment, \<^verbatim>\<open>std::stoi\<close> (a
  result, since it throws) and the TOML library are parameters: \<open>Toml\<close> parses a file to a table, or
  gives the text of its error, and looks up a key as a value of one type, if it has one.
\<close>

record 't Toml =
  tm_parse_file :: "string \<Rightarrow> string + 't"
  tm_int :: "'t \<Rightarrow> string \<Rightarrow> int option"
  tm_string :: "'t \<Rightarrow> string \<Rightarrow> string option"
  tm_bool :: "'t \<Rightarrow> string \<Rightarrow> bool option"
  tm_table :: "'t \<Rightarrow> string \<Rightarrow> 't option"

record PolygonConfig =
  pg_api_key :: string

record Config =
  cf_http_port :: int
  cf_grpc_port :: int
  cf_log_level :: string
  cf_database_url :: string
  cf_cache_dir :: string
  cf_audit_dir :: string
  cf_auth_enabled :: bool
  cf_api_key :: string
  cf_polygon :: PolygonConfig

definition default_Config :: Config where
  "default_Config =
     \<lparr>cf_http_port = 8080, cf_grpc_port = 50051, cf_log_level = ''info'', cf_database_url = [], cf_cache_dir = [],
      cf_audit_dir = [], cf_auth_enabled = True, cf_api_key = [], cf_polygon = \<lparr>pg_api_key = []\<rparr>\<rparr>"

text \<open>\<^verbatim>\<open>config.cpp\<close> has a \<^verbatim>\<open>Trim\<close> of its own, with the text of the one in \<^verbatim>\<open>core/value_objects.cpp\<close>.\<close>

abbreviation (input) config_Trim :: "string \<Rightarrow> string" where
  "config_Trim \<equiv> Trim"

definition ToLower :: "string \<Rightarrow> string" where
  "ToLower s = map tolower s"

definition ParseBool :: "string \<Rightarrow> bool result" where
  "ParseBool v =
     (let lower = ToLower (config_Trim v) in
      if lower = ''1'' \<or> lower = ''true'' \<or> lower = ''yes'' \<or> lower = ''on'' then Inr True
      else if lower = ''0'' \<or> lower = ''false'' \<or> lower = ''no'' \<or> lower = ''off'' then Inr False
      else Inl (RuntimeError [T ''invalid boolean value: '', T v]))"

section \<open>Environment\<close>

type_synonym env = "string \<Rightarrow> string option"

definition env_mappings :: "(string \<Rightarrow> int result) \<Rightarrow> (string \<times> (string \<Rightarrow> Config \<Rightarrow> Config result)) list" where
  "env_mappings stoi =
     [(''SQT_HTTP_PORT'', \<lambda>v cfg. ebind (stoi v) (\<lambda>n. Inr (cfg\<lparr>cf_http_port := n\<rparr>))),
      (''SQT_GRPC_PORT'', \<lambda>v cfg. ebind (stoi v) (\<lambda>n. Inr (cfg\<lparr>cf_grpc_port := n\<rparr>))),
      (''SQT_LOG_LEVEL'', \<lambda>v cfg. Inr (cfg\<lparr>cf_log_level := v\<rparr>)),
      (''SQT_DATABASE_URL'', \<lambda>v cfg. Inr (cfg\<lparr>cf_database_url := v\<rparr>)),
      (''SQT_CACHE_DIR'', \<lambda>v cfg. Inr (cfg\<lparr>cf_cache_dir := v\<rparr>)),
      (''SQT_AUDIT_DIR'', \<lambda>v cfg. Inr (cfg\<lparr>cf_audit_dir := v\<rparr>)),
      (''SQT_AUTH_ENABLED'', \<lambda>v cfg. ebind (ParseBool v) (\<lambda>b. Inr (cfg\<lparr>cf_auth_enabled := b\<rparr>))),
      (''SQT_API_KEY'', \<lambda>v cfg. Inr (cfg\<lparr>cf_api_key := v\<rparr>)),
      (''SQT_POLYGON__API_KEY'', \<lambda>v cfg. Inr (cfg\<lparr>cf_polygon := (cf_polygon cfg)\<lparr>pg_api_key := v\<rparr>\<rparr>))]"

fun apply_mappings :: "env \<Rightarrow> (string \<times> (string \<Rightarrow> Config \<Rightarrow> Config result)) list \<Rightarrow> Config \<Rightarrow> Config result" where
  "apply_mappings env [] cfg = Inr cfg"
| "apply_mappings env ((k, apply) # ms) cfg =
     (case env k of
        None \<Rightarrow> apply_mappings env ms cfg
      | Some v \<Rightarrow> ebind (apply v cfg) (apply_mappings env ms))"

definition ApplyEnv :: "env \<Rightarrow> (string \<Rightarrow> int result) \<Rightarrow> Config \<Rightarrow> Config result" where
  "ApplyEnv env stoi cfg = apply_mappings env (env_mappings stoi) cfg"

section \<open>TOML files\<close>

text \<open>The conversion of a 64-bit integer to an \<^verbatim>\<open>int\<close> of 32 bits.\<close>

definition to_int32 :: "int \<Rightarrow> int" where
  "to_int32 i = (i + 2 ^ 31) mod 2 ^ 32 - 2 ^ 31"

definition over :: "'a option \<Rightarrow> 'a \<Rightarrow> 'a" where
  "over v x = (case v of Some y \<Rightarrow> y | None \<Rightarrow> x)"

definition apply_table :: "'t Toml \<Rightarrow> 't \<Rightarrow> Config \<Rightarrow> Config" where
  "apply_table tm tbl cfg =
     \<lparr>cf_http_port = over (map_option to_int32 (tm_int tm tbl ''http_port'')) (cf_http_port cfg),
      cf_grpc_port = over (map_option to_int32 (tm_int tm tbl ''grpc_port'')) (cf_grpc_port cfg),
      cf_log_level = over (tm_string tm tbl ''log_level'') (cf_log_level cfg),
      cf_database_url = over (tm_string tm tbl ''database_url'') (cf_database_url cfg),
      cf_cache_dir = over (tm_string tm tbl ''cache_dir'') (cf_cache_dir cfg),
      cf_audit_dir = over (tm_string tm tbl ''audit_dir'') (cf_audit_dir cfg),
      cf_auth_enabled = over (tm_bool tm tbl ''auth_enabled'') (cf_auth_enabled cfg),
      cf_api_key = over (tm_string tm tbl ''api_key'') (cf_api_key cfg),
      cf_polygon =
        (case tm_table tm tbl ''polygon'' of
           None \<Rightarrow> cf_polygon cfg
         | Some poly \<Rightarrow> \<lparr>pg_api_key = over (tm_string tm poly ''api_key'') (pg_api_key (cf_polygon cfg))\<rparr>)\<rparr>"

definition ApplyToml :: "'t Toml \<Rightarrow> Config \<Rightarrow> string \<Rightarrow> Config result" where
  "ApplyToml tm cfg path =
     (case tm_parse_file tm path of
        Inl what \<Rightarrow> Inl (RuntimeError [T ''failed to parse '', T path, T '': '', T what])
      | Inr tbl \<Rightarrow> Inr (apply_table tm tbl cfg))"

fun apply_files :: "'t Toml \<Rightarrow> Config \<Rightarrow> string list \<Rightarrow> Config result" where
  "apply_files tm cfg [] = Inr cfg"
| "apply_files tm cfg (path # paths) = ebind (ApplyToml tm cfg path) (\<lambda>cfg. apply_files tm cfg paths)"

definition normal_log_level :: "string \<Rightarrow> string" where
  "normal_log_level s = (let l = config_Trim (ToLower s) in if l = [] then ''info'' else l)"

definition Load :: "'t Toml \<Rightarrow> env \<Rightarrow> (string \<Rightarrow> int result) \<Rightarrow> string list \<Rightarrow> Config result" where
  "Load tm env stoi paths =
     ebind (apply_files tm default_Config paths) (\<lambda>cfg.
     ebind (ApplyEnv env stoi cfg) (\<lambda>cfg.
       Inr (cfg\<lparr>cf_log_level := normal_log_level (cf_log_level cfg)\<rparr>)))"

section \<open>Facts\<close>

text \<open>The specification: the variable if it is set, else the last file that has the key, else the default.\<close>

definition layered :: "'a \<Rightarrow> 'a option list \<Rightarrow> 'a option \<Rightarrow> 'a" where
  "layered d files v = over v (foldl (\<lambda>x f. over f x) d files)"

lemma apply_files_Inr:
  "apply_files tm cfg paths = Inr cfg' \<longleftrightarrow>
     (\<exists>tbls. map (tm_parse_file tm) paths = map Inr tbls \<and> cfg' = foldl (\<lambda>c t. apply_table tm t c) cfg tbls)"
proof (induction paths arbitrary: cfg)
  case (Cons p ps)
  show ?case
  proof (cases "tm_parse_file tm p")
    case (Inl w)
    then show ?thesis by (auto simp: ApplyToml_def Cons_eq_map_conv)
  next
    case (Inr tbl)
    then show ?thesis using Cons by (auto simp: ApplyToml_def Cons_eq_map_conv)
  qed
qed auto

lemma foldl_field:
  assumes "\<And>t c. f (apply_table tm t c) = over (g t) (f c)"
  shows "f (foldl (\<lambda>c t. apply_table tm t c) cfg tbls) = foldl (\<lambda>x o'. over o' x) (f cfg) (map g tbls)"
  using assms by (induction tbls arbitrary: cfg) auto

lemma tolower_idem [simp]: "tolower (tolower c) = tolower c"
proof -
  have "(of_char (char_of n :: char) :: nat) = n" if "n < 256" for n using that by simp
  then show ?thesis by (auto simp: tolower_def Let_def)
qed

lemma set_Trim: "set (Trim s) \<subseteq> set s"
  by (auto simp: Trim_alt dest!: set_dropWhileD)

lemma lower_sublist: "\<forall>c \<in> set s. tolower c = c \<Longrightarrow> ToLower s = s"
  by (simp add: ToLower_def map_idI)

lemma normal_log_level_ok:
  "normal_log_level s \<noteq> []" "Trim (normal_log_level s) = normal_log_level s"
  "ToLower (normal_log_level s) = normal_log_level s"
proof -
  have i: "Trim ''info'' = ''info''" "ToLower ''info'' = ''info''" by code_simp+
  have "ToLower (Trim (ToLower s)) = Trim (ToLower s)"
    by (rule lower_sublist) (use set_Trim [of "ToLower s"] in \<open>auto simp: ToLower_def\<close>)
  then show "normal_log_level s \<noteq> []" "Trim (normal_log_level s) = normal_log_level s"
    "ToLower (normal_log_level s) = normal_log_level s" using i by (auto simp: normal_log_level_def Let_def)
qed

lemma apply_mappings_Cons:
  "apply_mappings env ((k, a) # ms) cfg =
     ebind (case env k of None \<Rightarrow> Inr cfg | Some v \<Rightarrow> a v cfg) (apply_mappings env ms)"
  by (simp split: option.split)

lemma apply_mappings_Nil: "ebind m (apply_mappings env []) = m"
  by (cases m) simp_all

text \<open>A variable that is converted before it is set.\<close>

lemma converted_variable:
  assumes "(case v of None \<Rightarrow> Inr c | Some s \<Rightarrow> ebind (conv s) (upd c)) = Inr c'"
  obtains x where "map_option conv v = map_option Inr x" "(case x of None \<Rightarrow> Inr c | Some x \<Rightarrow> upd c x) = Inr c'"
proof (cases v)
  case None
  then show ?thesis using assms by (intro that [of None]) auto
next
  case (Some s)
  then obtain x where "conv s = Inr x" "upd c x = Inr c'" using assms by (auto simp: ebind_Inr_iff)
  then show ?thesis using Some by (intro that [of "Some x"]) auto
qed

lemma ApplyEnv_Inr:
  assumes "ApplyEnv env stoi cfg = Inr cfg'"
  obtains http grpc auth where
    "map_option stoi (env ''SQT_HTTP_PORT'') = map_option Inr http"
    "map_option stoi (env ''SQT_GRPC_PORT'') = map_option Inr grpc"
    "map_option ParseBool (env ''SQT_AUTH_ENABLED'') = map_option Inr auth"
    "cfg' = \<lparr>cf_http_port = over http (cf_http_port cfg), cf_grpc_port = over grpc (cf_grpc_port cfg),
       cf_log_level = over (env ''SQT_LOG_LEVEL'') (cf_log_level cfg),
       cf_database_url = over (env ''SQT_DATABASE_URL'') (cf_database_url cfg),
       cf_cache_dir = over (env ''SQT_CACHE_DIR'') (cf_cache_dir cfg),
       cf_audit_dir = over (env ''SQT_AUDIT_DIR'') (cf_audit_dir cfg),
       cf_auth_enabled = over auth (cf_auth_enabled cfg), cf_api_key = over (env ''SQT_API_KEY'') (cf_api_key cfg),
       cf_polygon = \<lparr>pg_api_key = over (env ''SQT_POLYGON__API_KEY'') (pg_api_key (cf_polygon cfg))\<rparr>\<rparr>"
proof -
  from assms obtain c1 c2 c3 c4 c5 c6 c7 c8 where c:
    "(case env ''SQT_HTTP_PORT'' of None \<Rightarrow> Inr cfg | Some v \<Rightarrow> ebind (stoi v) (\<lambda>n. Inr (cfg\<lparr>cf_http_port := n\<rparr>))) = Inr c1"
    "(case env ''SQT_GRPC_PORT'' of None \<Rightarrow> Inr c1 | Some v \<Rightarrow> ebind (stoi v) (\<lambda>n. Inr (c1\<lparr>cf_grpc_port := n\<rparr>))) = Inr c2"
    "(case env ''SQT_LOG_LEVEL'' of None \<Rightarrow> Inr c2 | Some v \<Rightarrow> Inr (c2\<lparr>cf_log_level := v\<rparr>)) = (Inr c3 :: Config result)"
    "(case env ''SQT_DATABASE_URL'' of None \<Rightarrow> Inr c3 | Some v \<Rightarrow> Inr (c3\<lparr>cf_database_url := v\<rparr>)) = (Inr c4 :: Config result)"
    "(case env ''SQT_CACHE_DIR'' of None \<Rightarrow> Inr c4 | Some v \<Rightarrow> Inr (c4\<lparr>cf_cache_dir := v\<rparr>)) = (Inr c5 :: Config result)"
    "(case env ''SQT_AUDIT_DIR'' of None \<Rightarrow> Inr c5 | Some v \<Rightarrow> Inr (c5\<lparr>cf_audit_dir := v\<rparr>)) = (Inr c6 :: Config result)"
    "(case env ''SQT_AUTH_ENABLED'' of None \<Rightarrow> Inr c6 | Some v \<Rightarrow> ebind (ParseBool v) (\<lambda>b. Inr (c6\<lparr>cf_auth_enabled := b\<rparr>))) = Inr c7"
    "(case env ''SQT_API_KEY'' of None \<Rightarrow> Inr c7 | Some v \<Rightarrow> Inr (c7\<lparr>cf_api_key := v\<rparr>)) = (Inr c8 :: Config result)"
    "(case env ''SQT_POLYGON__API_KEY'' of None \<Rightarrow> Inr c8
      | Some v \<Rightarrow> Inr (c8\<lparr>cf_polygon := (cf_polygon c8)\<lparr>pg_api_key := v\<rparr>\<rparr>)) = (Inr cfg' :: Config result)"
    unfolding ApplyEnv_def env_mappings_def apply_mappings_Cons apply_mappings_Nil ebind_Inr_iff
    by (elim exE conjE) (rule that, assumption+)
  obtain http where h1: "map_option stoi (env ''SQT_HTTP_PORT'') = map_option Inr http"
    "(case http of None \<Rightarrow> Inr cfg | Some n \<Rightarrow> Inr (cfg\<lparr>cf_http_port := n\<rparr>)) = (Inr c1 :: Config result)"
    by (rule converted_variable [where upd = "\<lambda>c n. Inr (c\<lparr>cf_http_port := n\<rparr>)", OF c(1)])
  have h2: "c1 = cfg\<lparr>cf_http_port := over http (cf_http_port cfg)\<rparr>" using h1(2) by (cases http) (simp_all add: over_def)
  obtain grpc where g1: "map_option stoi (env ''SQT_GRPC_PORT'') = map_option Inr grpc"
    "(case grpc of None \<Rightarrow> Inr c1 | Some n \<Rightarrow> Inr (c1\<lparr>cf_grpc_port := n\<rparr>)) = (Inr c2 :: Config result)"
    by (rule converted_variable [where upd = "\<lambda>c n. Inr (c\<lparr>cf_grpc_port := n\<rparr>)", OF c(2)])
  have g2: "c2 = c1\<lparr>cf_grpc_port := over grpc (cf_grpc_port c1)\<rparr>" using g1(2) by (cases grpc) (simp_all add: over_def)
  obtain auth where a1: "map_option ParseBool (env ''SQT_AUTH_ENABLED'') = map_option Inr auth"
    "(case auth of None \<Rightarrow> Inr c6 | Some n \<Rightarrow> Inr (c6\<lparr>cf_auth_enabled := n\<rparr>)) = (Inr c7 :: Config result)"
    by (rule converted_variable [where upd = "\<lambda>c n. Inr (c\<lparr>cf_auth_enabled := n\<rparr>)", OF c(7)])
  have a2: "c7 = c6\<lparr>cf_auth_enabled := over auth (cf_auth_enabled c6)\<rparr>" using a1(2) by (cases auth) (simp_all add: over_def)
  have p3: "c3 = c2\<lparr>cf_log_level := over (env ''SQT_LOG_LEVEL'') (cf_log_level c2)\<rparr>"
    using c(3) by (cases "env ''SQT_LOG_LEVEL''") (simp_all add: over_def)
  have p4: "c4 = c3\<lparr>cf_database_url := over (env ''SQT_DATABASE_URL'') (cf_database_url c3)\<rparr>"
    using c(4) by (cases "env ''SQT_DATABASE_URL''") (simp_all add: over_def)
  have p5: "c5 = c4\<lparr>cf_cache_dir := over (env ''SQT_CACHE_DIR'') (cf_cache_dir c4)\<rparr>"
    using c(5) by (cases "env ''SQT_CACHE_DIR''") (simp_all add: over_def)
  have p6: "c6 = c5\<lparr>cf_audit_dir := over (env ''SQT_AUDIT_DIR'') (cf_audit_dir c5)\<rparr>"
    using c(6) by (cases "env ''SQT_AUDIT_DIR''") (simp_all add: over_def)
  have p8: "c8 = c7\<lparr>cf_api_key := over (env ''SQT_API_KEY'') (cf_api_key c7)\<rparr>"
    using c(8) by (cases "env ''SQT_API_KEY''") (simp_all add: over_def)
  have p9: "cfg' = c8\<lparr>cf_polygon := \<lparr>pg_api_key = over (env ''SQT_POLYGON__API_KEY'') (pg_api_key (cf_polygon c8))\<rparr>\<rparr>"
    using c(9) by (cases "env ''SQT_POLYGON__API_KEY''"; cases "cf_polygon c8") (auto simp: over_def)
  show thesis by (rule that [OF h1(1) g1(1) a1(1)]) (simp add: p3 p4 p5 p6 p8 p9 a2 g2 h2)
qed


section \<open>Properties\<close>

text \<open>C34: a configuration that loads has every field from its highest layer: the environment variable if it is set
  (converted), else the last file that has the key, else the default; the key of Polygon from
  \<^verbatim>\<open>SQT_POLYGON__API_KEY\<close> or \<^verbatim>\<open>api_key\<close> in a table \<^verbatim>\<open>[polygon]\<close>, the log level trimmed and in small
  letters. A file that does not parse, a port that is no number or a switch that is no boolean leave no
  configuration.\<close>

theorem config_layers:
  assumes "Load tm env stoi paths = Inr cfg"
  shows "\<exists>tbls http grpc auth.
    map (tm_parse_file tm) paths = map Inr tbls \<and>
    map_option stoi (env ''SQT_HTTP_PORT'') = map_option Inr http \<and>
    map_option stoi (env ''SQT_GRPC_PORT'') = map_option Inr grpc \<and>
    map_option ParseBool (env ''SQT_AUTH_ENABLED'') = map_option Inr auth \<and>
    cf_http_port cfg = layered 8080 (map (\<lambda>t. map_option to_int32 (tm_int tm t ''http_port'')) tbls) http \<and>
    cf_grpc_port cfg = layered 50051 (map (\<lambda>t. map_option to_int32 (tm_int tm t ''grpc_port'')) tbls) grpc \<and>
    cf_auth_enabled cfg = layered True (map (\<lambda>t. tm_bool tm t ''auth_enabled'') tbls) auth \<and>
    cf_api_key cfg = layered [] (map (\<lambda>t. tm_string tm t ''api_key'') tbls) (env ''SQT_API_KEY'') \<and>
    cf_database_url cfg = layered [] (map (\<lambda>t. tm_string tm t ''database_url'') tbls) (env ''SQT_DATABASE_URL'') \<and>
    cf_cache_dir cfg = layered [] (map (\<lambda>t. tm_string tm t ''cache_dir'') tbls) (env ''SQT_CACHE_DIR'') \<and>
    cf_audit_dir cfg = layered [] (map (\<lambda>t. tm_string tm t ''audit_dir'') tbls) (env ''SQT_AUDIT_DIR'') \<and>
    cf_log_level cfg =
      normal_log_level (layered ''info'' (map (\<lambda>t. tm_string tm t ''log_level'') tbls) (env ''SQT_LOG_LEVEL'')) \<and>
    pg_api_key (cf_polygon cfg) =
      layered [] (map (\<lambda>t. Option.bind (tm_table tm t ''polygon'') (\<lambda>poly. tm_string tm poly ''api_key'')) tbls)
        (env ''SQT_POLYGON__API_KEY'')"
proof -
  from assms obtain c0 c1 where l: "apply_files tm default_Config paths = Inr c0" "ApplyEnv env stoi c0 = Inr c1"
    "cfg = c1\<lparr>cf_log_level := normal_log_level (cf_log_level c1)\<rparr>"
    by (auto simp: Load_def ebind_Inr_iff)
  from l(1) obtain tbls where t: "map (tm_parse_file tm) paths = map Inr tbls"
    "c0 = foldl (\<lambda>c t. apply_table tm t c) default_Config tbls" by (auto simp: apply_files_Inr)
  have f: "f c0 = foldl (\<lambda>x o'. over o' x) (f default_Config) (map g tbls)"
    if "\<And>t c. f (apply_table tm t c) = over (g t) (f c)" for f :: "Config \<Rightarrow> 'b" and g
    unfolding t(2) by (rule foldl_field [OF that])
  have c0: "cf_http_port c0 = foldl (\<lambda>x o'. over o' x) 8080 (map (\<lambda>t. map_option to_int32 (tm_int tm t ''http_port'')) tbls)"
    "cf_grpc_port c0 = foldl (\<lambda>x o'. over o' x) 50051 (map (\<lambda>t. map_option to_int32 (tm_int tm t ''grpc_port'')) tbls)"
    "cf_auth_enabled c0 = foldl (\<lambda>x o'. over o' x) True (map (\<lambda>t. tm_bool tm t ''auth_enabled'') tbls)"
    "cf_api_key c0 = foldl (\<lambda>x o'. over o' x) [] (map (\<lambda>t. tm_string tm t ''api_key'') tbls)"
    "cf_database_url c0 = foldl (\<lambda>x o'. over o' x) [] (map (\<lambda>t. tm_string tm t ''database_url'') tbls)"
    "cf_cache_dir c0 = foldl (\<lambda>x o'. over o' x) [] (map (\<lambda>t. tm_string tm t ''cache_dir'') tbls)"
    "cf_audit_dir c0 = foldl (\<lambda>x o'. over o' x) [] (map (\<lambda>t. tm_string tm t ''audit_dir'') tbls)"
    "cf_log_level c0 = foldl (\<lambda>x o'. over o' x) ''info'' (map (\<lambda>t. tm_string tm t ''log_level'') tbls)"
    by ((subst f; simp add: apply_table_def default_Config_def)+)
  have poly: "pg_api_key (cf_polygon (apply_table tm t c)) =
      over (Option.bind (tm_table tm t ''polygon'') (\<lambda>poly. tm_string tm poly ''api_key'')) (pg_api_key (cf_polygon c))" for t c
    by (cases "tm_table tm t ''polygon''") (simp_all add: apply_table_def over_def)
  have c0': "pg_api_key (cf_polygon c0) = foldl (\<lambda>x o'. over o' x) []
      (map (\<lambda>t. Option.bind (tm_table tm t ''polygon'') (\<lambda>poly. tm_string tm poly ''api_key'')) tbls)"
    using f [of "\<lambda>c. pg_api_key (cf_polygon c)", OF poly] by (simp add: default_Config_def)
  from l(2) obtain http grpc auth where e:
    "map_option stoi (env ''SQT_HTTP_PORT'') = map_option Inr http"
    "map_option stoi (env ''SQT_GRPC_PORT'') = map_option Inr grpc"
    "map_option ParseBool (env ''SQT_AUTH_ENABLED'') = map_option Inr auth"
    "c1 = \<lparr>cf_http_port = over http (cf_http_port c0), cf_grpc_port = over grpc (cf_grpc_port c0),
       cf_log_level = over (env ''SQT_LOG_LEVEL'') (cf_log_level c0),
       cf_database_url = over (env ''SQT_DATABASE_URL'') (cf_database_url c0),
       cf_cache_dir = over (env ''SQT_CACHE_DIR'') (cf_cache_dir c0),
       cf_audit_dir = over (env ''SQT_AUDIT_DIR'') (cf_audit_dir c0),
       cf_auth_enabled = over auth (cf_auth_enabled c0), cf_api_key = over (env ''SQT_API_KEY'') (cf_api_key c0),
       cf_polygon = \<lparr>pg_api_key = over (env ''SQT_POLYGON__API_KEY'') (pg_api_key (cf_polygon c0))\<rparr>\<rparr>"
    by (rule ApplyEnv_Inr)
  show ?thesis
    by (intro exI [of _ tbls] exI [of _ http] exI [of _ grpc] exI [of _ auth] conjI t(1) e(1-3))
      (simp_all add: l(3) e(4) c0 c0' layered_def)
qed

text \<open>C40: whatever is configured, a loaded log level is a word of lower-case text without space around it, never
  empty.\<close>

theorem config_log_level:
  assumes "Load tm env stoi paths = Inr cfg"
  shows "cf_log_level cfg \<noteq> [] \<and> Trim (cf_log_level cfg) = cf_log_level cfg \<and>
    ToLower (cf_log_level cfg) = cf_log_level cfg"
  using assms by (auto simp: Load_def ebind_Inr_iff normal_log_level_ok)

text \<open>One file with a port, a key and a key of Polygon, and an environment with the key, the level and the switch.\<close>

definition sample_toml :: "unit Toml" where
  "sample_toml =
     \<lparr>tm_parse_file = (\<lambda>p. if p = ''a.toml'' then Inr () else Inl ''no file''),
      tm_int = (\<lambda>t k. if k = ''http_port'' then Some 9000 else None),
      tm_string = (\<lambda>t k. if k = ''api_key'' then Some ''file'' else None),
      tm_bool = (\<lambda>t k. None), tm_table = (\<lambda>t k. if k = ''polygon'' then Some () else None)\<rparr>"

definition sample_env :: env where
  "sample_env = [''SQT_API_KEY'' \<mapsto> ''secret'', ''SQT_LOG_LEVEL'' \<mapsto> '' WARN '', ''SQT_AUTH_ENABLED'' \<mapsto> ''Yes'']"

definition no_number :: "string \<Rightarrow> int result" where
  "no_number s = Inl (RuntimeError [T ''stoi''])"

definition sample_config :: Config where
  "sample_config = \<lparr>cf_http_port = 9000, cf_grpc_port = 50051, cf_log_level = ''warn'', cf_database_url = [],
     cf_cache_dir = [], cf_audit_dir = [], cf_auth_enabled = True, cf_api_key = ''secret'',
     cf_polygon = \<lparr>pg_api_key = ''file''\<rparr>\<rparr>"

lemma sample_config_loads: "Load sample_toml sample_env no_number [''a.toml''] = Inr sample_config"
  by code_simp

theorem config_layers_witness:
  "cf_api_key sample_config = layered [] [Some ''file''] (Some ''secret'') \<and>
   cf_http_port sample_config = layered 8080 [Some (to_int32 9000)] None \<and>
   pg_api_key (cf_polygon sample_config) = layered [] [Some ''file''] None"
proof -
  from config_layers [OF sample_config_loads] obtain tbls :: "unit list" and http where
    "map (tm_parse_file sample_toml) [''a.toml''] = map Inr tbls"
    "map_option no_number (sample_env ''SQT_HTTP_PORT'') = map_option Inr http"
    "cf_api_key sample_config = layered [] (map (\<lambda>t. tm_string sample_toml t ''api_key'') tbls) (sample_env ''SQT_API_KEY'')"
    "cf_http_port sample_config = layered 8080 (map (\<lambda>t. map_option to_int32 (tm_int sample_toml t ''http_port'')) tbls) http"
    "pg_api_key (cf_polygon sample_config) =
      layered [] (map (\<lambda>t. Option.bind (tm_table sample_toml t ''polygon'') (\<lambda>poly. tm_string sample_toml poly ''api_key'')) tbls)
        (sample_env ''SQT_POLYGON__API_KEY'')"
    by blast
  then show ?thesis by (auto simp: sample_toml_def sample_env_def)
qed

theorem config_log_level_witness: "Trim (cf_log_level sample_config) = ''warn''"
  using config_log_level [OF sample_config_loads] by (simp add: sample_config_def)

end
