(* ===== verification/Programs.thy ===== *)
theory Programs
  imports Postgres Pool Config
begin

text \<open>
  The programs: \<^verbatim>\<open>server/main.cpp\<close>, \<^verbatim>\<open>cli/main.cpp\<close> and the probes of \<^verbatim>\<open>tools/\<close>. A program ends with its
  exit code and the text it wrote, or the server is running: with its authorization, its ports and its
  state. The arguments of the command line come parsed; the configuration comes from the environment
  alone. \<open>Pg_build\<close> is what a build with PostgreSQL adds, which a build may lack.
\<close>

section \<open>Storage\<close>

datatype 'j Storage = MemoryStorage "'j DecisionRecord list" | PostgresStorage "Row list"

record ('j, 'd) Pg_build =
  pb_pg :: "'j Pg"
  pb_sql :: "'d Sql"
  pb_driver :: Driver
  pb_database :: "string \<Rightarrow> 'd"
  pb_table :: "'d \<Rightarrow> Row list"

text \<open>The methods of \<^verbatim>\<open>audit::Storage\<close>, of either class.\<close>

fun Storage_Append :: "'j Pg \<Rightarrow> 'j Storage \<Rightarrow> 'j DecisionRecord \<Rightarrow> 'j Storage result" where
  "Storage_Append P (MemoryStorage rs) r = ebind (Memory_Append rs r) (\<lambda>rs. Inr (MemoryStorage rs))"
| "Storage_Append P (PostgresStorage rows) r = ebind (Pg_Append P rows r) (\<lambda>rows. Inr (PostgresStorage rows))"

fun Storage_Latest :: "'j Pg \<Rightarrow> 'j Storage \<Rightarrow> 'j DecisionRecord result" where
  "Storage_Latest P (MemoryStorage rs) = Memory_Latest rs"
| "Storage_Latest P (PostgresStorage rows) = Pg_Latest P rows"

fun Storage_GetByRequestID :: "'j Pg \<Rightarrow> 'j Storage \<Rightarrow> string \<Rightarrow> 'j DecisionRecord result" where
  "Storage_GetByRequestID P (MemoryStorage rs) i = Memory_GetByRequestID rs i"
| "Storage_GetByRequestID P (PostgresStorage rows) i = Pg_GetByRequestID P rows i"

fun Storage_All :: "'j Pg \<Rightarrow> 'j Storage \<Rightarrow> 'j DecisionRecord list result" where
  "Storage_All P (MemoryStorage rs) = Memory_All rs"
| "Storage_All P (PostgresStorage rows) = Pg_All P rows"

text \<open>The first ping of a pool, from the main thread, which has no connection yet.\<close>

definition pb_ping :: "('j, 'd) Pg_build \<Rightarrow> string \<Rightarrow> bool" where
  "pb_ping B database_url = fst (Ping (pb_driver B) database_url 0 (\<lambda>i. None))"

definition NewPool :: "('j, 'd) Pg_build \<Rightarrow> string \<Rightarrow> 'd result" where
  "NewPool B database_url =
     (if \<not> pb_ping B database_url then Inl (RuntimeError [T ''failed to ping database'']) else Inr (pb_database B database_url))"

definition OpenStorage :: "('j, 'd) Pg_build option \<Rightarrow> Config \<Rightarrow> 'j Storage result" where
  "OpenStorage build cfg =
     (if cf_database_url cfg \<noteq> [] then
        (case build of
           Some B \<Rightarrow> ebind (NewPool B (cf_database_url cfg)) (\<lambda>d.
             (case MigrateUp (pb_sql B) d of
                (Inr _, d') \<Rightarrow> Inr (PostgresStorage (pb_table B d'))
              | (Inl e, d') \<Rightarrow> Inl e))
         | None \<Rightarrow> Inl (RuntimeError [T ''PostgreSQL support is not compiled in'']))
      else Inr (MemoryStorage []))"

section \<open>The server\<close>

datatype 'r program = Exit int string | Running 'r

record 's Started =
  sd_auth :: AuthConfig
  sd_http_port :: int
  sd_grpc_port :: int
  sd_state :: "(InMemoryCache, 's) AppState"

definition ConfigureAuth :: "bool \<Rightarrow> string \<Rightarrow> AuthConfig" where
  "ConfigureAuth enabled api_key = \<lparr>au_enabled = enabled, au_api_key = api_key\<rparr>"

text \<open>A \<^verbatim>\<open>catch\<close> of \<^verbatim>\<open>std::exception\<close>; \<open>text_of\<close> makes the text of a message.\<close>

definition catching :: "'a result \<Rightarrow> (exn \<Rightarrow> 'b result) \<Rightarrow> ('a \<Rightarrow> 'b result) \<Rightarrow> 'b result" where
  "catching m h f =
     (case m of Inr x \<Rightarrow> f x | Inl e \<Rightarrow> if catchable e then h e else Inl e)"

definition server_main ::
    "(msg \<Rightarrow> string) \<Rightarrow> 't Toml \<Rightarrow> env \<Rightarrow> (string \<Rightarrow> int result) \<Rightarrow> ('j, 'd) Pg_build option \<Rightarrow> Date \<Rightarrow>
     'j Storage Started program result" where
  "server_main text_of tm env stoi build now =
     catching (Load tm env stoi [])
       (\<lambda>e. Inr (Exit 1 (''failed to load config: '' @ text_of (exn_what e))))
       (\<lambda>cfg. catching (OpenStorage build cfg)
          (\<lambda>e. Inr (Exit 1 (''failed to setup storage: '' @ text_of (exn_what e))))
          (\<lambda>audit_storage.
             if cf_auth_enabled cfg \<and> cf_api_key cfg = []
             then Inr (Exit 1 ''SQT_AUTH_ENABLED is true but SQT_API_KEY is not set; refusing to start'')
             else Inr (Running
               \<lparr>sd_auth = ConfigureAuth (cf_auth_enabled cfg) (cf_api_key cfg),
                sd_http_port = cf_http_port cfg, sd_grpc_port = cf_grpc_port cfg,
                sd_state = \<lparr>as_market_data = Register (SyntheticProvider now) (make_Service ''synthetic'' Map.empty),
                  as_audit_writer = Some audit_storage\<rparr>\<rparr>)))"

section \<open>The command line\<close>

datatype command = Verify | Report string | Replay_command string | Keygen | Anchor

text \<open>\<open>pretty\<close> is \<^verbatim>\<open>dump(2)\<close>; the bytes are those the random device drew.\<close>

definition write_record :: "'j Json \<Rightarrow> ('j \<Rightarrow> string result) \<Rightarrow> 'j DecisionRecord \<Rightarrow> string result" where
  "write_record J pretty r = pretty (record_to_json (js_lib J) r)"

text \<open>\<^verbatim>\<open>cli/main.cpp\<close> has an \<^verbatim>\<open>OpenStorage\<close> of its own, with the text of the server's.\<close>

abbreviation (input) cli_OpenStorage :: "('j, 'd) Pg_build option \<Rightarrow> Config \<Rightarrow> 'j Storage result" where
  "cli_OpenStorage \<equiv> OpenStorage"

definition run_command ::
    "'j Pg \<Rightarrow> ('j \<Rightarrow> string result) \<Rightarrow> ('j, 'd) Pg_build option \<Rightarrow> 8 word list \<Rightarrow> Config \<Rightarrow> command \<Rightarrow> string result" where
  "run_command P pretty build random cfg cmd =
     (case cmd of
        Verify \<Rightarrow>
          ebind (cli_OpenStorage build cfg) (\<lambda>storage.
          ebind (VerifyChain (js_lib (pg_json P)) (Storage_All P) storage) (\<lambda>_. Inr ''audit chain OK''))
      | Report report_id \<Rightarrow>
          ebind (cli_OpenStorage build cfg) (\<lambda>storage.
          ebind (Storage_GetByRequestID P storage report_id) (write_record (pg_json P) pretty))
      | Replay_command replay_id \<Rightarrow>
          ebind (cli_OpenStorage build cfg) (\<lambda>storage.
          ebind (Replay (Storage_GetByRequestID P) storage replay_id) (write_record (pg_json P) pretty))
      | Keygen \<Rightarrow> Inr (ToHex random)
      | Anchor \<Rightarrow>
          ebind (cli_OpenStorage build cfg) (\<lambda>storage.
            (case Storage_Latest P storage of
               Inr latest \<Rightarrow> Inr (dr_record_hash latest)
             | Inl AuditNotFoundError \<Rightarrow> Inr ''no audit records''
             | Inl e \<Rightarrow> Inl e)))"

definition cli_main ::
    "(msg \<Rightarrow> string) \<Rightarrow> 't Toml \<Rightarrow> env \<Rightarrow> (string \<Rightarrow> int result) \<Rightarrow> 'j Pg \<Rightarrow> ('j \<Rightarrow> string result) \<Rightarrow>
     ('j, 'd) Pg_build option \<Rightarrow> 8 word list \<Rightarrow> command \<Rightarrow> unit program result" where
  "cli_main text_of tm env stoi P pretty build random cmd =
     catching (Load tm env stoi [])
       (\<lambda>e. Inr (Exit 1 (''failed to load config: '' @ text_of (exn_what e))))
       (\<lambda>cfg. catching (run_command P pretty build random cfg cmd)
          (\<lambda>e. Inr (Exit 1 (''error: '' @ text_of (exn_what e))))
          (\<lambda>out. Inr (Exit 0 out)))"

section \<open>The probes\<close>

text \<open>
  What the network answers: \<^verbatim>\<open>curl\<close> gives no handle, or whether the transfer succeeded and its code; a
  gRPC check gives whether the call succeeded and whether the status is serving.
\<close>

record Network =
  nw_http :: "string \<Rightarrow> (bool \<times> int) option"
  nw_grpc :: "string \<Rightarrow> bool \<times> bool"

definition ProbeHttp :: "Network \<Rightarrow> string \<Rightarrow> bool" where
  "ProbeHttp net url = (case nw_http net url of None \<Rightarrow> False | Some (ok, code) \<Rightarrow> ok \<and> 200 \<le> code \<and> code < 300)"

definition ProbeGrpc :: "Network \<Rightarrow> string \<Rightarrow> bool" where
  "ProbeGrpc net addr = (case nw_grpc net addr of (ok, serving) \<Rightarrow> ok \<and> serving)"

definition probe :: "Network \<Rightarrow> string \<Rightarrow> bool" where
  "probe net target =
     (if take 7 target = ''http://'' \<or> take 8 target = ''https://'' then ProbeHttp net target else ProbeGrpc net target)"

fun count_failed :: "Network \<Rightarrow> string list \<Rightarrow> int" where
  "count_failed net [] = 0"
| "count_failed net (target # targets) = (if probe net target then 0 else 1) + count_failed net targets"

definition healthcheck_main :: "Network \<Rightarrow> string list \<Rightarrow> int" where
  "healthcheck_main net targets = (if targets = [] then 2 else if count_failed net targets > 0 then 1 else 0)"

definition grpc_health_check_main :: "Network \<Rightarrow> string list \<Rightarrow> int" where
  "grpc_health_check_main net targets =
     (case targets of
        [] \<Rightarrow> 2
      | addr # _ \<Rightarrow> (case nw_grpc net addr of (ok, serving) \<Rightarrow> if \<not> ok then 1 else if \<not> serving then 1 else 0))"

section \<open>Facts\<close>

lemma Started_iff:
  "server_main text_of tm env stoi build now = Inr (Running s) \<longleftrightarrow>
     (\<exists>cfg storage. Load tm env stoi [] = Inr cfg \<and> OpenStorage build cfg = Inr storage \<and>
        \<not> (cf_auth_enabled cfg \<and> cf_api_key cfg = []) \<and>
        s = \<lparr>sd_auth = ConfigureAuth (cf_auth_enabled cfg) (cf_api_key cfg),
             sd_http_port = cf_http_port cfg, sd_grpc_port = cf_grpc_port cfg,
             sd_state = \<lparr>as_market_data = Register (SyntheticProvider now) (make_Service ''synthetic'' Map.empty),
               as_audit_writer = Some storage\<rparr>\<rparr>)"
  by (auto simp: server_main_def catching_def split: sum.split)

text \<open>What the environment alone configures.\<close>

lemma Load_environment:
  assumes "Load tm env stoi [] = Inr cfg"
  shows "cf_api_key cfg = over (env ''SQT_API_KEY'') []"
    "cf_database_url cfg = over (env ''SQT_DATABASE_URL'') []"
    "case env ''SQT_AUTH_ENABLED'' of None \<Rightarrow> cf_auth_enabled cfg | Some v \<Rightarrow> ParseBool v = Inr (cf_auth_enabled cfg)"
proof -
  from assms obtain c where l: "ApplyEnv env stoi default_Config = Inr c"
    "cfg = c\<lparr>cf_log_level := normal_log_level (cf_log_level c)\<rparr>"
    by (auto simp: Load_def ebind_Inr_iff)
  from l(1) obtain auth where a: "map_option ParseBool (env ''SQT_AUTH_ENABLED'') = map_option Inr auth"
    and c: "cf_api_key c = over (env ''SQT_API_KEY'') []" "cf_database_url c = over (env ''SQT_DATABASE_URL'') []"
      "cf_auth_enabled c = over auth True"
    by (rule ApplyEnv_Inr) (simp add: default_Config_def)
  show "cf_api_key cfg = over (env ''SQT_API_KEY'') []" "cf_database_url cfg = over (env ''SQT_DATABASE_URL'') []"
    using c l(2) by simp_all
  show "case env ''SQT_AUTH_ENABLED'' of None \<Rightarrow> cf_auth_enabled cfg | Some v \<Rightarrow> ParseBool v = Inr (cf_auth_enabled cfg)"
    using a c(3) l(2) by (cases auth) (auto simp: over_def split: option.splits)
qed

lemma count_failed_nonneg: "0 \<le> count_failed net ts"
  by (induction ts) auto

lemma count_failed_pos: "0 < count_failed net ts \<longleftrightarrow> (\<exists>t \<in> set ts. \<not> probe net t)"
  by (induction ts) (auto intro: add_pos_nonneg count_failed_nonneg)

text \<open>The health check: 0 exactly when it is given a target and every target answers.\<close>

lemma healthcheck_exit:
  "healthcheck_main net targets = (if targets = [] then 2 else if list_all (probe net) targets then 0 else 1)"
  using count_failed_pos [of net targets] by (auto simp: healthcheck_main_def list_all_iff)

text \<open>Writes to the storage in memory are those to its log.\<close>

definition storage_server :: "'j Pg \<Rightarrow> ('j, 'c, 'j Storage, 'g) Server \<Rightarrow> bool" where
  "storage_server P S \<longleftrightarrow> srv_latest S = Storage_Latest P \<and> srv_append S = Storage_Append P"

definition in_memory_ok :: "'j Lib \<Rightarrow> 'j Storage \<Rightarrow> bool" where
  "in_memory_ok lib storage = (case storage of MemoryStorage rs \<Rightarrow> chain_ok lib rs | PostgresStorage rows \<Rightarrow> False)"

lemma in_memory_ok_iff: "in_memory_ok lib storage \<longleftrightarrow> (\<exists>rs. storage = MemoryStorage rs \<and> chain_ok lib rs)"
  by (cases storage) (simp_all add: in_memory_ok_def)

lemma Storage_Write_memory:
  "Write lib (Storage_Latest P) (Storage_Append P) now (MemoryStorage rs) r =
     ebind (Write lib Memory_Latest Memory_Append now rs r) (\<lambda>rs'. Inr (MemoryStorage rs'))"
proof -
  have "prev_hash_of (Storage_Latest P) (MemoryStorage rs) g = prev_hash_of Memory_Latest rs g" for g
    by (simp add: prev_hash_of_def)
  then show ?thesis
    by (simp add: Write_def Let_def canonical Memory_Append_def ebind_def split: sum.split)
qed

lemma storage_writes_keep:
  assumes "storage_server P S" "\<And>s. lib_sha256 (js_lib (srv_json S)) s \<noteq> []"
  shows "writes_keep S (in_memory_ok (js_lib (srv_json S)))"
  unfolding writes_keep_def
proof (intro allI impI)
  fix now s r s'
  assume g: "in_memory_ok (js_lib (srv_json S)) s" "Write (js_lib (srv_json S)) (srv_latest S) (srv_append S) now s r = Inr s'"
  then obtain rs rs' where r: "s = MemoryStorage rs" "chain_ok (js_lib (srv_json S)) rs"
    "Write (js_lib (srv_json S)) Memory_Latest Memory_Append now rs r = Inr rs'" "s' = MemoryStorage rs'"
    using assms(1) by (auto simp: in_memory_ok_iff storage_server_def Storage_Write_memory ebind_Inr_iff)
  then show "in_memory_ok (js_lib (srv_json S)) s'"
    using memory.Write_chain [OF r(3) _ r(2) assms(2)] by (auto simp: in_memory_ok_iff Memory_All_def)
qed

section \<open>Properties\<close>

text \<open>C5: from the environment to the response: unless the environment turns authorization off, a server that
  runs was given a key that is not empty, and answers 401 to every request without that key, except for the health
  check, whatever its state.\<close>

theorem server_fail_closed:
  assumes "server_main text_of tm env stoi build now = Inr (Running s)"
    and "\<forall>v. env ''SQT_AUTH_ENABLED'' = Some v \<longrightarrow> ParseBool v \<noteq> Inr False"
    and "hq_url req \<noteq> ''/health''" "env ''SQT_API_KEY'' \<noteq> Some (hq_header req ''X-API-Key'')"
  shows "(\<exists>key. env ''SQT_API_KEY'' = Some key \<and> key \<noteq> []) \<and>
    serve (sd_auth s) S route req st = (refusal (srv_json S) 401, st)"
proof -
  obtain cfg where l: "Load tm env stoi [] = Inr cfg" and r: "cf_auth_enabled cfg \<longrightarrow> cf_api_key cfg \<noteq> []"
    "sd_auth s = ConfigureAuth (cf_auth_enabled cfg) (cf_api_key cfg)"
    using assms(1) by (auto simp: Started_iff)
  note e = Load_environment [OF l]
  have "cf_auth_enabled cfg" using e(3) assms(2) by (cases "env ''SQT_AUTH_ENABLED''") auto
  moreover obtain key where k: "env ''SQT_API_KEY'' = Some key" "cf_api_key cfg = key"
    using r(1) e(1) \<open>cf_auth_enabled cfg\<close> by (cases "env ''SQT_API_KEY''") (auto simp: over_def)
  ultimately show ?thesis using r assms(3,4)
    by (auto simp: serve_def middleware_def ApiKeyAuth_before_def IsAuthorized_iff ConfigureAuth_def)
qed

text \<open>C6: a server that was started without a database keeps its audit log in memory, and however many requests of
  whatever kind it serves, under whatever keys, that log verifies.\<close>

theorem server_audit:
  assumes "server_main text_of tm env stoi build now = Inr (Running s)" "over (env ''SQT_DATABASE_URL'') [] = []"
    and "storage_server P S" "\<And>s. lib_sha256 (js_lib (srv_json S)) s \<noteq> []"
  shows "\<exists>logged. as_audit_writer (snd (serve_all (sd_auth s) S (sd_state s) reqs)) = Some (MemoryStorage logged) \<and>
    VerifyChain (js_lib (srv_json S)) Memory_All logged = Inr ()"
proof -
  obtain cfg storage where "Load tm env stoi [] = Inr cfg" "OpenStorage build cfg = Inr storage"
    "as_audit_writer (sd_state s) = Some storage"
    using assms(1) by (auto simp: Started_iff)
  then have "as_audit_writer (sd_state s) = Some (MemoryStorage [])"
    using Load_environment(2) [of tm env stoi cfg] assms(2) by (simp add: OpenStorage_def)
  then have "log_ok (in_memory_ok (js_lib (srv_json S))) (sd_state s)"
    by (simp add: log_ok_def in_memory_ok_iff chain_ok_def)
  from keeps_serve_all [OF storage_writes_keep [OF assms(3,4)] this, of "sd_auth s" reqs] show ?thesis
    by (auto simp: log_ok_def in_memory_ok_iff VerifyChain_Inr Memory_All_def)
qed

text \<open>C36: the command to verify exits with 0 exactly when a database is configured, opened and migrated and the chain
  in its table verifies, or when none is configured: without a database it verifies an empty log.\<close>

theorem cli_verify:
  assumes "Load tm env stoi [] = Inr cfg"
  shows "cli_main text_of tm env stoi P pretty build random Verify = Inr (Exit 0 out) \<longleftrightarrow>
    out = ''audit chain OK'' \<and>
    (over (env ''SQT_DATABASE_URL'') [] = [] \<or>
     (\<exists>B d rs. build = Some B \<and> pb_ping B (cf_database_url cfg) \<and>
        MigrateUp (pb_sql B) (pb_database B (cf_database_url cfg)) = (Inr (), d) \<and>
        Pg_All P (pb_table B d) = Inr rs \<and> chain_ok (js_lib (pg_json P)) rs))"
proof -
  have "cli_main text_of tm env stoi P pretty build random Verify = Inr (Exit 0 out) \<longleftrightarrow>
      run_command P pretty build random cfg Verify = Inr out"
    using assms by (auto simp: cli_main_def catching_def split: sum.split)
  also have "\<dots> \<longleftrightarrow> out = ''audit chain OK'' \<and> (\<exists>storage rs. OpenStorage build cfg = Inr storage \<and>
      Storage_All P storage = Inr rs \<and> chain_ok (js_lib (pg_json P)) rs)"
    by (auto simp: run_command_def ebind_Inr_iff VerifyChain_Inr)
  also have "(\<exists>storage rs. OpenStorage build cfg = Inr storage \<and> Storage_All P storage = Inr rs \<and>
      chain_ok (js_lib (pg_json P)) rs) \<longleftrightarrow> cf_database_url cfg = [] \<or>
     (\<exists>B d rs. build = Some B \<and> pb_ping B (cf_database_url cfg) \<and>
        MigrateUp (pb_sql B) (pb_database B (cf_database_url cfg)) = (Inr (), d) \<and>
        Pg_All P (pb_table B d) = Inr rs \<and> chain_ok (js_lib (pg_json P)) rs)"
    by (auto simp: OpenStorage_def NewPool_def ebind_Inr_iff Memory_All_def chain_ok_def
        split: option.splits sum.splits prod.splits)
  finally show ?thesis using Load_environment(2) [OF assms] by simp
qed

section \<open>Witnesses\<close>

definition environment_config :: Config where
  "environment_config = sample_config\<lparr>cf_http_port := 8080, cf_polygon := \<lparr>pg_api_key = []\<rparr>\<rparr>"

lemma environment_loads: "Load sample_toml sample_env no_number [] = Inr environment_config"
  by code_simp

definition storage_sample :: "(tree, InMemoryCache, tree Storage, unit) Server" where
  "storage_sample = sample_server (Storage_Latest sample_pg) (Storage_Append sample_pg)"

lemma sample_started:
  obtains s where
    "server_main (\<lambda>m. []) sample_toml sample_env no_number (None :: (tree, unit) Pg_build option) 0 = Inr (Running s)"
proof -
  have "OpenStorage (None :: (tree, unit) Pg_build option) environment_config = Inr (MemoryStorage [])"
    "\<not> (cf_auth_enabled environment_config \<and> cf_api_key environment_config = [])"
    by (simp_all add: OpenStorage_def environment_config_def sample_config_def)
  then show thesis using environment_loads that unfolding Started_iff by blast
qed

theorem server_fail_closed_witness:
  "\<exists>s. server_main (\<lambda>m. []) sample_toml sample_env no_number (None :: (tree, unit) Pg_build option) 0 = Inr (Running s) \<and>
     serve (sd_auth s) storage_sample A2aTasks (sample_request ''health'') (sd_state s) =
       (refusal (srv_json storage_sample) 401, sd_state s)"
proof -
  obtain s where s: "server_main (\<lambda>m. []) sample_toml sample_env no_number (None :: (tree, unit) Pg_build option) 0 =
      Inr (Running s)"
    by (rule sample_started)
  have yes: "ParseBool ''Yes'' = Inr True" by code_simp
  have "\<forall>v. sample_env ''SQT_AUTH_ENABLED'' = Some v \<longrightarrow> ParseBool v \<noteq> Inr False"
    "sample_env ''SQT_API_KEY'' \<noteq> Some (hq_header (sample_request ''health'') ''X-API-Key'')"
    "hq_url (sample_request ''health'') \<noteq> ''/health''"
    using yes by (auto simp: sample_env_def sample_request_def)
  from server_fail_closed [OF s this(1,3,2)] s show ?thesis by blast
qed

theorem server_audit_witness:
  "\<exists>s logged. server_main (\<lambda>m. []) sample_toml sample_env no_number (None :: (tree, unit) Pg_build option) 0 = Inr (Running s) \<and>
     as_audit_writer (snd (serve_all (sd_auth s) storage_sample (sd_state s) [(A2aTasks, sample_request ''health'')])) =
       Some (MemoryStorage logged)"
proof -
  obtain s where s: "server_main (\<lambda>m. []) sample_toml sample_env no_number (None :: (tree, unit) Pg_build option) 0 =
      Inr (Running s)"
    by (rule sample_started)
  moreover have "over (sample_env ''SQT_DATABASE_URL'') [] = []" "storage_server sample_pg storage_sample"
    "lib_sha256 (js_lib (srv_json storage_sample)) t \<noteq> []" for t
    using sample_server_ok(3) by (simp_all add: sample_env_def over_def storage_server_def storage_sample_def sample_server_def)
  ultimately show ?thesis using server_audit [of "\<lambda>m. []" sample_toml sample_env no_number None 0 s sample_pg storage_sample] by blast
qed

theorem cli_verify_witness:
  "cli_main (\<lambda>m. []) sample_toml sample_env no_number sample_pg tree_dump (None :: (tree, unit) Pg_build option) [] Verify =
     Inr (Exit 0 ''audit chain OK'')"
  using cli_verify [OF environment_loads, of "\<lambda>m. []" sample_pg tree_dump None "[]" "''audit chain OK''"]
  by (simp add: sample_env_def over_def)

end
