(* ===== verification/Lifecycle.thy ===== *)
theory Lifecycle
  imports Threads Programs
begin

text \<open>
  The running server: the gRPC health service of \<^verbatim>\<open>api/grpc_server.cpp\<close> and the second half of
  \<^verbatim>\<open>server/main.cpp\<close>, where the main thread starts the HTTP and the gRPC thread, waits for a signal, and stops
  and joins them. The actors are the three threads and the signals; what Crow and gRPC do is in
  \<open>Server_env\<close>.
\<close>

section \<open>The gRPC health service\<close>

datatype ServingStatus = UNKNOWN | SERVING | NOT_SERVING | SERVICE_UNKNOWN

text \<open>A method gives whether its status is OK; \<open>Watch\<close> gives the messages it writes before it returns.\<close>

definition Health_Check :: "string \<Rightarrow> bool \<times> ServingStatus" where
  "Health_Check request = (True, SERVING)"

definition Health_Watch :: "string \<Rightarrow> ServingStatus list \<times> bool" where
  "Health_Watch request = ([SERVING], True)"

section \<open>The environment\<close>

text \<open>
  Whether gRPC is compiled in; whether \<^verbatim>\<open>app.run()\<close> gets its port (it throws otherwise); for which addresses
  \<^verbatim>\<open>BuildAndStart\<close> gives a server; whether \<^verbatim>\<open>app.run()\<close> installs handlers of its own for the two
  signals, as Crow does by default and \<^verbatim>\<open>server/main.cpp\<close> does not change; whether \<^verbatim>\<open>app.stop()\<close> stops a run
  that begins after it. The properties hold for every environment and name the cases.
\<close>

record Server_env =
  en_grpc :: bool
  en_http_binds :: bool
  en_grpc_builds :: "string \<Rightarrow> bool"
  en_run_takes_signals :: bool
  en_stop_before_run :: bool

fun decimal_digits :: "nat \<Rightarrow> string" where
  "decimal_digits n = (if n < 10 then [] else decimal_digits (n div 10)) @ [''0123456789'' ! (n mod 10)]"

declare decimal_digits.simps [simp del]

definition to_text :: "int \<Rightarrow> string" where
  "to_text i = (if i < 0 then CHR ''-'' # decimal_digits (nat (- i)) else decimal_digits (nat i))"

definition grpc_addr :: "int \<Rightarrow> string" where
  "grpc_addr grpc_port = ''0.0.0.0:'' @ to_text grpc_port"

text \<open>The server with its service, or the null pointer.\<close>

definition StartGrpcHealthServer :: "Server_env \<Rightarrow> string \<Rightarrow> string option" where
  "StartGrpcHealthServer E addr = (if \<not> en_grpc_builds E addr then None else Some addr)"

section \<open>The actors\<close>

datatype main_pc = Installing | StartingHttp | StartingGrpc | SpawningGrpc | Polling | StoppingHttp | ShuttingGrpc |
  JoiningGrpc | JoiningHttp

datatype http_pc = HttpNone | HttpSpawned | HttpRunning | HttpReturned

datatype grpc_pc = GrpcNone | GrpcSpawned | GrpcWaiting | GrpcReturned

text \<open>The end of the process: it exits, a signal or an exception kills it, or it follows a null pointer.\<close>

datatype ending = Exits int | Killed | Terminated | Null_followed

datatype actor = Main | Http | Grpc | Signal

record Process =
  lc_main :: main_pc
  lc_http :: http_pc
  lc_grpc :: grpc_pc
  lc_grpc_server :: "string option"
  lc_g_shutdown :: bool
  lc_http_stop :: bool
  lc_grpc_down :: bool
  lc_signals :: nat
  lc_ending :: "ending option"

text \<open>\<^verbatim>\<open>Shutdown\<close> of the gRPC server, whether its \<^verbatim>\<open>Wait\<close> returns, and \<^verbatim>\<open>app.stop()\<close>.\<close>

definition GrpcHealthServer_Shutdown :: "Process \<Rightarrow> Process" where
  "GrpcHealthServer_Shutdown s = s\<lparr>lc_grpc_down := True\<rparr>"

definition GrpcHealthServer_Wait :: "Process \<Rightarrow> bool" where
  "GrpcHealthServer_Wait s \<longleftrightarrow> lc_grpc_down s"

definition app_stop :: "Server_env \<Rightarrow> Process \<Rightarrow> Process" where
  "app_stop E s = (if lc_http s = HttpRunning \<or> en_stop_before_run E then s\<lparr>lc_http_stop := True\<rparr> else s)"

definition main_action :: "Server_env \<Rightarrow> int \<Rightarrow> Process \<Rightarrow> Process option" where
  "main_action E grpc_port s =
     (case lc_main s of
        Installing \<Rightarrow> Some (s\<lparr>lc_main := StartingHttp\<rparr>)
      | StartingHttp \<Rightarrow>
          Some (s\<lparr>lc_http := HttpSpawned, lc_main := if en_grpc E then StartingGrpc else Polling\<rparr>)
      | StartingGrpc \<Rightarrow>
          Some (s\<lparr>lc_grpc_server := StartGrpcHealthServer E (grpc_addr grpc_port), lc_main := SpawningGrpc\<rparr>)
      | SpawningGrpc \<Rightarrow> Some (s\<lparr>lc_grpc := GrpcSpawned, lc_main := Polling\<rparr>)
      | Polling \<Rightarrow> if lc_g_shutdown s then Some (s\<lparr>lc_main := StoppingHttp\<rparr>) else None
      | StoppingHttp \<Rightarrow> Some ((app_stop E s)\<lparr>lc_main := if en_grpc E then ShuttingGrpc else JoiningHttp\<rparr>)
      | ShuttingGrpc \<Rightarrow>
          (case lc_grpc_server s of
             None \<Rightarrow> Some (s\<lparr>lc_ending := Some Null_followed\<rparr>)
           | Some _ \<Rightarrow> Some ((GrpcHealthServer_Shutdown s)\<lparr>lc_main := JoiningGrpc\<rparr>))
      | JoiningGrpc \<Rightarrow> if lc_grpc s = GrpcReturned then Some (s\<lparr>lc_main := JoiningHttp\<rparr>) else None
      | JoiningHttp \<Rightarrow> if lc_http s = HttpReturned then Some (s\<lparr>lc_ending := Some (Exits 0)\<rparr>) else None)"

definition http_action :: "Server_env \<Rightarrow> Process \<Rightarrow> Process option" where
  "http_action E s =
     (case lc_http s of
        HttpSpawned \<Rightarrow>
          if \<not> en_http_binds E then Some (s\<lparr>lc_ending := Some Terminated\<rparr>) else Some (s\<lparr>lc_http := HttpRunning\<rparr>)
      | HttpRunning \<Rightarrow> if lc_http_stop s then Some (s\<lparr>lc_http := HttpReturned\<rparr>) else None
      | _ \<Rightarrow> None)"

definition grpc_action :: "Process \<Rightarrow> Process option" where
  "grpc_action s =
     (case lc_grpc s of
        GrpcSpawned \<Rightarrow> Some (s\<lparr>lc_grpc := if lc_grpc_server s \<noteq> None then GrpcWaiting else GrpcReturned\<rparr>)
      | GrpcWaiting \<Rightarrow> if GrpcHealthServer_Wait s then Some (s\<lparr>lc_grpc := GrpcReturned\<rparr>) else None
      | _ \<Rightarrow> None)"

text \<open>A signal: without a handler it kills the process; it may go to the running app instead of \<^verbatim>\<open>SignalHandler\<close>.\<close>

definition signal_action :: "Server_env \<Rightarrow> Process \<Rightarrow> Process option" where
  "signal_action E s =
     (if lc_signals s = 0 then None
      else let s = s\<lparr>lc_signals := lc_signals s - 1\<rparr> in
        if lc_main s = Installing then Some (s\<lparr>lc_ending := Some Killed\<rparr>)
        else if en_run_takes_signals E \<and> lc_http s \<in> {HttpRunning, HttpReturned} then Some (s\<lparr>lc_http := HttpReturned\<rparr>)
        else Some (s\<lparr>lc_g_shutdown := True\<rparr>))"

definition server_action :: "Server_env \<Rightarrow> int \<Rightarrow> actor \<Rightarrow> Process \<Rightarrow> Process option" where
  "server_action E grpc_port a s =
     (if lc_ending s \<noteq> None then None
      else case a of
        Main \<Rightarrow> main_action E grpc_port s
      | Http \<Rightarrow> http_action E s
      | Grpc \<Rightarrow> grpc_action s
      | Signal \<Rightarrow> signal_action E s)"

definition server_start :: "nat \<Rightarrow> Process" where
  "server_start signals = \<lparr>lc_main = Installing, lc_http = HttpNone, lc_grpc = GrpcNone, lc_grpc_server = None,
     lc_g_shutdown = False, lc_http_stop = False, lc_grpc_down = False, lc_signals = signals, lc_ending = None\<rparr>"

lemmas grpc_calls [simp] = GrpcHealthServer_Shutdown_def GrpcHealthServer_Wait_def

lemmas server_actions = server_action_def main_action_def http_action_def grpc_action_def signal_action_def app_stop_def

section \<open>The invariant\<close>

fun main_step :: "main_pc \<Rightarrow> nat" where
  "main_step Installing = 0"
| "main_step StartingHttp = 1"
| "main_step StartingGrpc = 2"
| "main_step SpawningGrpc = 3"
| "main_step Polling = 4"
| "main_step StoppingHttp = 5"
| "main_step ShuttingGrpc = 6"
| "main_step JoiningGrpc = 7"
| "main_step JoiningHttp = 8"

definition http_inv :: "Server_env \<Rightarrow> Process \<Rightarrow> bool" where
  "http_inv E s \<longleftrightarrow>
     (lc_http s = HttpNone \<longleftrightarrow> main_step (lc_main s) \<le> 1) \<and>
     (5 \<le> main_step (lc_main s) \<longrightarrow> lc_g_shutdown s) \<and>
     (lc_g_shutdown s \<longrightarrow> lc_main s \<noteq> Installing) \<and>
     (lc_http_stop s \<longrightarrow> 6 \<le> main_step (lc_main s)) \<and>
     (6 \<le> main_step (lc_main s) \<and> en_stop_before_run E \<longrightarrow> lc_http_stop s) \<and>
     (lc_http s = HttpReturned \<longrightarrow> lc_http_stop s \<or> en_run_takes_signals E)"

definition grpc_inv :: "Server_env \<Rightarrow> int \<Rightarrow> Process \<Rightarrow> bool" where
  "grpc_inv E grpc_port s \<longleftrightarrow>
     (lc_grpc s = GrpcNone \<longleftrightarrow> \<not> en_grpc E \<or> main_step (lc_main s) \<le> 3) \<and>
     lc_grpc_server s = (if en_grpc E \<and> 3 \<le> main_step (lc_main s)
        then StartGrpcHealthServer E (grpc_addr grpc_port) else None) \<and>
     (lc_main s \<in> {StartingGrpc, SpawningGrpc, ShuttingGrpc, JoiningGrpc} \<longrightarrow> en_grpc E) \<and>
     (lc_grpc_down s \<longleftrightarrow> en_grpc E \<and> 7 \<le> main_step (lc_main s)) \<and>
     (lc_grpc_down s \<longrightarrow> lc_grpc_server s \<noteq> None) \<and>
     (lc_grpc s = GrpcWaiting \<longrightarrow> lc_grpc_server s \<noteq> None) \<and>
     (lc_grpc s = GrpcReturned \<longrightarrow> lc_grpc_server s = None \<or> lc_grpc_down s) \<and>
     (lc_main s = JoiningHttp \<and> en_grpc E \<longrightarrow> lc_grpc s = GrpcReturned)"

definition ending_inv :: "Server_env \<Rightarrow> int \<Rightarrow> Process \<Rightarrow> bool" where
  "ending_inv E grpc_port s \<longleftrightarrow>
     (case lc_ending s of
        None \<Rightarrow> True
      | Some (Exits c) \<Rightarrow> c = 0 \<and> lc_main s = JoiningHttp \<and> lc_http s = HttpReturned
      | Some Killed \<Rightarrow> lc_main s = Installing
      | Some Terminated \<Rightarrow> \<not> en_http_binds E
      | Some Null_followed \<Rightarrow> lc_main s = ShuttingGrpc \<and> \<not> en_grpc_builds E (grpc_addr grpc_port))"

definition server_inv :: "Server_env \<Rightarrow> int \<Rightarrow> Process \<Rightarrow> bool" where
  "server_inv E grpc_port s \<longleftrightarrow> http_inv E s \<and> grpc_inv E grpc_port s \<and> ending_inv E grpc_port s"

lemma server_inv_start: "server_inv E p (server_start n)"
  by (simp add: server_inv_def http_inv_def grpc_inv_def ending_inv_def server_start_def)

text \<open>An action is one of these.\<close>

lemma server_action_cases:
  assumes "server_action E p a s = Some t"
  obtains "lc_ending s = None" "main_action E p s = Some t" | "lc_ending s = None" "http_action E s = Some t"
    | "lc_ending s = None" "grpc_action s = Some t" | "lc_ending s = None" "signal_action E s = Some t"
  using assms by (cases a) (auto simp: server_action_def split: if_splits)

lemma main_action_cases:
  assumes "main_action E p s = Some t"
  obtains "lc_main s = Installing" "t = s\<lparr>lc_main := StartingHttp\<rparr>"
    | "lc_main s = StartingHttp" "en_grpc E" "t = s\<lparr>lc_http := HttpSpawned, lc_main := StartingGrpc\<rparr>"
    | "lc_main s = StartingHttp" "\<not> en_grpc E" "t = s\<lparr>lc_http := HttpSpawned, lc_main := Polling\<rparr>"
    | "lc_main s = StartingGrpc"
      "t = s\<lparr>lc_grpc_server := StartGrpcHealthServer E (grpc_addr p), lc_main := SpawningGrpc\<rparr>"
    | "lc_main s = SpawningGrpc" "t = s\<lparr>lc_grpc := GrpcSpawned, lc_main := Polling\<rparr>"
    | "lc_main s = Polling" "lc_g_shutdown s" "t = s\<lparr>lc_main := StoppingHttp\<rparr>"
    | "lc_main s = StoppingHttp" "en_grpc E" "t = (app_stop E s)\<lparr>lc_main := ShuttingGrpc\<rparr>"
    | "lc_main s = StoppingHttp" "\<not> en_grpc E" "t = (app_stop E s)\<lparr>lc_main := JoiningHttp\<rparr>"
    | "lc_main s = ShuttingGrpc" "lc_grpc_server s = None" "t = s\<lparr>lc_ending := Some Null_followed\<rparr>"
    | "lc_main s = ShuttingGrpc" "lc_grpc_server s \<noteq> None" "t = s\<lparr>lc_grpc_down := True, lc_main := JoiningGrpc\<rparr>"
    | "lc_main s = JoiningGrpc" "lc_grpc s = GrpcReturned" "t = s\<lparr>lc_main := JoiningHttp\<rparr>"
    | "lc_main s = JoiningHttp" "lc_http s = HttpReturned" "t = s\<lparr>lc_ending := Some (Exits 0)\<rparr>"
proof (cases "lc_main s")
  case Installing
  then show thesis using assms that(1) by (simp add: main_action_def)
next
  case StartingHttp
  then show thesis using assms that(2,3) by (cases "en_grpc E") (simp_all add: main_action_def)
next
  case StartingGrpc
  then show thesis using assms that(4) by (simp add: main_action_def)
next
  case SpawningGrpc
  then show thesis using assms that(5) by (simp add: main_action_def)
next
  case Polling
  then show thesis using assms that(6) by (cases "lc_g_shutdown s") (simp_all add: main_action_def)
next
  case StoppingHttp
  then show thesis using assms that(7,8) by (cases "en_grpc E") (simp_all add: main_action_def)
next
  case ShuttingGrpc
  then show thesis using assms that(9,10) by (cases "lc_grpc_server s") (simp_all add: main_action_def)
next
  case JoiningGrpc
  then show thesis using assms that(11) by (cases "lc_grpc s = GrpcReturned") (simp_all add: main_action_def)
next
  case JoiningHttp
  then show thesis using assms that(12) by (cases "lc_http s = HttpReturned") (simp_all add: main_action_def)
qed

lemma http_inv_action:
  assumes "http_inv E s" "server_action E p a s = Some t"
  shows "http_inv E t"
  using assms(2)
proof (cases rule: server_action_cases)
  case 1
  from 1(2) show ?thesis using assms(1) by (cases rule: main_action_cases) (auto simp: http_inv_def app_stop_def)
next
  case 2
  then have "t = s\<lparr>lc_ending := Some Terminated\<rparr> \<or> lc_http s = HttpSpawned \<and> t = s\<lparr>lc_http := HttpRunning\<rparr> \<or>
      lc_http s = HttpRunning \<and> lc_http_stop s \<and> t = s\<lparr>lc_http := HttpReturned\<rparr>"
    by (cases "lc_http s") (auto simp: http_action_def split: if_splits)
  then show ?thesis using assms(1) by (elim disjE conjE) (simp_all add: http_inv_def)
next
  case 3
  then have "lc_http t = lc_http s" "lc_main t = lc_main s" "lc_g_shutdown t = lc_g_shutdown s" "lc_http_stop t = lc_http_stop s"
    by (cases "lc_grpc s"; auto simp: grpc_action_def split: if_splits)+
  then show ?thesis using assms(1) by (simp add: http_inv_def)
next
  case 4
  then have t: "lc_main t = lc_main s" "lc_http_stop t = lc_http_stop s" and
    "lc_http t = lc_http s \<and> lc_g_shutdown t = lc_g_shutdown s \<or>
     en_run_takes_signals E \<and> lc_http s \<in> {HttpRunning, HttpReturned} \<and> lc_http t = HttpReturned \<and> lc_g_shutdown t = lc_g_shutdown s \<or>
     lc_main s \<noteq> Installing \<and> lc_http t = lc_http s \<and> lc_g_shutdown t"
    by (auto simp: signal_action_def Let_def split: if_splits)
  from this(3) show ?thesis using assms(1) by (elim disjE conjE) (auto simp: http_inv_def t)
qed

lemma grpc_inv_action:
  assumes "grpc_inv E p s" "server_action E p a s = Some t"
  shows "grpc_inv E p t"
  using assms(2)
proof (cases rule: server_action_cases)
  case 1
  from 1(2) show ?thesis using assms(1) by (cases rule: main_action_cases) (auto simp: grpc_inv_def app_stop_def dest!: sym [of "Some _"])
next
  case 2
  then have f: "lc_grpc t = lc_grpc s" "lc_main t = lc_main s" "lc_grpc_server t = lc_grpc_server s" "lc_grpc_down t = lc_grpc_down s"
    by (cases "lc_http s"; auto simp: http_action_def split: if_splits)+
  show ?thesis using assms(1) unfolding grpc_inv_def f .
next
  case 3
  then have "lc_grpc s = GrpcSpawned \<and> t = s\<lparr>lc_grpc := if lc_grpc_server s \<noteq> None then GrpcWaiting else GrpcReturned\<rparr> \<or>
      lc_grpc s = GrpcWaiting \<and> lc_grpc_down s \<and> t = s\<lparr>lc_grpc := GrpcReturned\<rparr>"
    by (cases "lc_grpc s") (auto simp: grpc_action_def split: if_splits)
  then show ?thesis using assms(1) by (elim disjE conjE) (auto simp: grpc_inv_def dest!: sym [of "Some _"])
next
  case 4
  then have f: "lc_grpc t = lc_grpc s" "lc_main t = lc_main s" "lc_grpc_server t = lc_grpc_server s" "lc_grpc_down t = lc_grpc_down s"
    by (auto simp: signal_action_def Let_def split: if_splits)
  show ?thesis using assms(1) unfolding grpc_inv_def f .
qed

lemma ending_inv_action:
  assumes "grpc_inv E p s" "server_action E p a s = Some t"
  shows "ending_inv E p t"
  using assms(2)
proof (cases rule: server_action_cases)
  case 1
  from 1(2) show ?thesis using assms(1) 1(1)
    by (cases rule: main_action_cases) (auto simp: grpc_inv_def ending_inv_def app_stop_def StartGrpcHealthServer_def)
next
  case 2
  then show ?thesis by (cases "lc_http s") (auto simp: server_actions ending_inv_def split: if_splits)
next
  case 3
  then show ?thesis by (cases "lc_grpc s") (auto simp: server_actions ending_inv_def split: if_splits)
next
  case 4
  then show ?thesis by (auto simp: server_actions ending_inv_def Let_def split: if_splits)
qed

lemma server_inv_action: "server_inv E p s \<Longrightarrow> server_action E p a s = Some t \<Longrightarrow> server_inv E p t"
  unfolding server_inv_def by (blast intro: http_inv_action grpc_inv_action ending_inv_action)

text \<open>Every actor goes forward.\<close>

definition steps_left :: "Process \<Rightarrow> nat" where
  "steps_left s =
     (9 - main_step (lc_main s)) +
     (case lc_http s of HttpNone \<Rightarrow> 2 | HttpSpawned \<Rightarrow> 2 | HttpRunning \<Rightarrow> 1 | HttpReturned \<Rightarrow> 0) +
     (case lc_grpc s of GrpcNone \<Rightarrow> 2 | GrpcSpawned \<Rightarrow> 2 | GrpcWaiting \<Rightarrow> 1 | GrpcReturned \<Rightarrow> 0) +
     lc_signals s + (if lc_ending s = None then 1 else 0)"

lemma server_action_less:
  assumes "server_inv E p s" "server_action E p a s = Some t"
  shows "steps_left t < steps_left s"
proof -
  have n: "lc_main s = StartingHttp \<Longrightarrow> lc_http s = HttpNone" "lc_main s = SpawningGrpc \<Longrightarrow> lc_grpc s = GrpcNone"
    using assms(1) by (simp_all add: server_inv_def http_inv_def grpc_inv_def)
  show ?thesis using assms(2)
  proof (cases rule: server_action_cases)
    case 1
    from 1(2) show ?thesis using n 1(1)
      by (cases rule: main_action_cases) (auto simp: steps_left_def app_stop_def)
  next
    case 2
    then show ?thesis by (cases "lc_http s") (auto simp: server_actions steps_left_def split: if_splits)
  next
    case 3
    then show ?thesis by (cases "lc_grpc s") (auto simp: server_actions steps_left_def split: if_splits)
  next
    case 4
    then show ?thesis by (cases "lc_http s") (auto simp: server_actions steps_left_def Let_def split: if_splits)
  qed
qed

text \<open>A signal that finds a handler is remembered by the flag, or stops the app when that takes the signals.\<close>

definition signal_inv :: "Server_env \<Rightarrow> nat \<Rightarrow> Process \<Rightarrow> bool" where
  "signal_inv E n s \<longleftrightarrow> lc_g_shutdown s \<or> lc_ending s = Some Killed \<or> lc_signals s = n \<or>
     en_run_takes_signals E \<and> lc_http s = HttpReturned"

lemma signal_inv_action:
  assumes "server_inv E p s" "signal_inv E n s" "server_action E p a s = Some t"
  shows "signal_inv E n t"
  using assms(3)
proof (cases rule: server_action_cases)
  case 1
  have "lc_main s = StartingHttp \<Longrightarrow> lc_http s = HttpNone" using assms(1) by (simp add: server_inv_def http_inv_def)
  then show ?thesis using 1(1,2) assms(2)
    by (elim main_action_cases) (auto simp: signal_inv_def app_stop_def)
next
  case 2
  then show ?thesis using assms(2) by (cases "lc_http s") (auto simp: http_action_def signal_inv_def split: if_splits)
next
  case 3
  then show ?thesis using assms(2) by (cases "lc_grpc s") (auto simp: grpc_action_def signal_inv_def split: if_splits)
next
  case 4
  then show ?thesis by (auto simp: signal_action_def signal_inv_def Let_def split: if_splits)
qed

text \<open>What a server waits for that can wait no more: its own handler, or a run that was stopped before it began.\<close>

lemma server_stuck:
  assumes "server_inv E p s" "signal_inv E n s" "0 < n" "stuck (server_action E p) s" "lc_ending s = None"
  shows "lc_main s = Polling \<and> \<not> lc_g_shutdown s \<and> en_run_takes_signals E \<and> lc_http s = HttpReturned \<or>
    lc_main s = JoiningHttp \<and> \<not> en_stop_before_run E \<and> lc_http s = HttpRunning \<and> \<not> lc_http_stop s"
proof -
  have n: "server_action E p a s = None" for a using assms(4) by (simp add: stuck_def)
  have "lc_signals s = 0" using n [of Signal] assms(5) by (simp add: server_action_def signal_action_def Let_def split: if_splits)
  then have flag: "lc_g_shutdown s \<or> en_run_takes_signals E \<and> lc_http s = HttpReturned"
    using assms(2,3,5) by (auto simp: signal_inv_def)
  have h: "lc_http s = HttpNone \<or> lc_http s = HttpRunning \<and> \<not> lc_http_stop s \<or> lc_http s = HttpReturned"
    using n [of Http] assms(5) by (cases "lc_http s") (auto simp: server_action_def http_action_def split: if_splits)
  have g: "lc_grpc s = GrpcNone \<or> lc_grpc s = GrpcWaiting \<and> \<not> lc_grpc_down s \<or> lc_grpc s = GrpcReturned"
    using n [of Grpc] assms(5) by (cases "lc_grpc s") (auto simp: server_action_def grpc_action_def split: if_splits)
  have "lc_main s = Polling \<and> \<not> lc_g_shutdown s \<or> lc_main s = JoiningGrpc \<and> lc_grpc s \<noteq> GrpcReturned \<or>
      lc_main s = JoiningHttp \<and> lc_http s \<noteq> HttpReturned"
    using n [of Main] assms(5)
    by (cases "lc_main s") (auto simp: server_action_def main_action_def split: if_splits option.splits)
  moreover have "lc_grpc s \<noteq> GrpcNone \<and> lc_grpc_down s" if "lc_main s = JoiningGrpc"
    using assms(1) that by (simp add: server_inv_def grpc_inv_def)
  moreover have "lc_http s \<noteq> HttpNone \<and> (lc_http_stop s \<or> \<not> en_stop_before_run E)" if "lc_main s = JoiningHttp"
    using assms(1) that by (auto simp: server_inv_def http_inv_def)
  ultimately show ?thesis using h g flag by blast
qed

lemma server_inv_follow: "follow (server_action E p) sched (server_start n) = Some s \<Longrightarrow> server_inv E p s"
  by (erule follow_inv) (auto intro: server_inv_start server_inv_action)

section \<open>Properties\<close>

text \<open>C12: a server exits only with 0, after a signal and when both its threads have returned. Its threads take at
  most fourteen steps and one per signal. When nothing moves any more after a signal was sent, one of these holds: it
  has exited with 0; the signal killed it before there was a handler; the HTTP thread did not get its port and
  terminated it; it followed the null pointer of a gRPC server that could not be built, which the shutdown does not
  check; the app took the signal, as it does by Crow's default, and the main thread polls its own flag for ever; or the
  app was stopped before its run began, in an environment where that does not stop the run, and is joined for
  ever.\<close>

theorem server_shutdown:
  assumes "follow (server_action E grpc_port) sched (server_start signals) = Some s"
  shows "(\<forall>c. lc_ending s = Some (Exits c) \<longrightarrow> c = 0 \<and> lc_g_shutdown s \<and> lc_http s = HttpReturned \<and>
      (en_grpc E \<longrightarrow> lc_grpc s = GrpcReturned)) \<and>
    length sched \<le> 14 + signals \<and>
    (stuck (server_action E grpc_port) s \<and> 0 < signals \<longrightarrow>
       lc_ending s = Some (Exits 0) \<and> lc_main s = JoiningHttp \<and> (en_grpc E \<longrightarrow> en_grpc_builds E (grpc_addr grpc_port)) \<or>
       lc_ending s = Some Killed \<and> lc_main s = Installing \<or>
       lc_ending s = Some Terminated \<and> \<not> en_http_binds E \<or>
       lc_ending s = Some Null_followed \<and> lc_main s = ShuttingGrpc \<and> en_grpc E \<and> \<not> en_grpc_builds E (grpc_addr grpc_port) \<or>
       lc_ending s = None \<and> lc_main s = Polling \<and> \<not> lc_g_shutdown s \<and> en_run_takes_signals E \<and> lc_http s = HttpReturned \<or>
       lc_ending s = None \<and> lc_main s = JoiningHttp \<and> \<not> en_stop_before_run E \<and> lc_http s = HttpRunning \<and> \<not> lc_http_stop s)"
proof (intro conjI impI allI)
  note i = server_inv_follow [OF assms]
  have "length sched + steps_left s \<le> steps_left (server_start signals)"
    using assms server_inv_start [of E grpc_port signals]
    by (rule follow_measure [where I = "server_inv E grpc_port"]) (auto intro: server_inv_action server_action_less)
  then show "length sched \<le> 14 + signals" by (simp add: server_start_def steps_left_def)
  fix c assume "lc_ending s = Some (Exits c)"
  then show "c = 0" "lc_g_shutdown s" "lc_http s = HttpReturned" "en_grpc E \<Longrightarrow> lc_grpc s = GrpcReturned"
    using i by (auto simp: server_inv_def http_inv_def grpc_inv_def ending_inv_def)
next
  note i = server_inv_follow [OF assms]
  assume a: "stuck (server_action E grpc_port) s \<and> 0 < signals"
  let ?I = "\<lambda>s. server_inv E grpc_port s \<and> signal_inv E signals s"
  have "?I (server_start signals)" using server_inv_start by (simp add: signal_inv_def server_start_def)
  with assms have "?I s" by (rule follow_inv) (blast intro: server_inv_action signal_inv_action)
  then have hangs: "lc_ending s = None \<Longrightarrow> lc_main s = Polling \<and> \<not> lc_g_shutdown s \<and> en_run_takes_signals E \<and> lc_http s = HttpReturned \<or>
      lc_main s = JoiningHttp \<and> \<not> en_stop_before_run E \<and> lc_http s = HttpRunning \<and> \<not> lc_http_stop s"
    using server_stuck a by blast
  have grpc: "en_grpc E \<Longrightarrow> lc_main s = JoiningHttp \<Longrightarrow> en_grpc_builds E (grpc_addr grpc_port)" "lc_main s = ShuttingGrpc \<Longrightarrow> en_grpc E"
    using i by (auto simp: server_inv_def grpc_inv_def StartGrpcHealthServer_def split: if_splits)
  show "lc_ending s = Some (Exits 0) \<and> lc_main s = JoiningHttp \<and> (en_grpc E \<longrightarrow> en_grpc_builds E (grpc_addr grpc_port)) \<or>
       lc_ending s = Some Killed \<and> lc_main s = Installing \<or>
       lc_ending s = Some Terminated \<and> \<not> en_http_binds E \<or>
       lc_ending s = Some Null_followed \<and> lc_main s = ShuttingGrpc \<and> en_grpc E \<and> \<not> en_grpc_builds E (grpc_addr grpc_port) \<or>
       lc_ending s = None \<and> lc_main s = Polling \<and> \<not> lc_g_shutdown s \<and> en_run_takes_signals E \<and> lc_http s = HttpReturned \<or>
       lc_ending s = None \<and> lc_main s = JoiningHttp \<and> \<not> en_stop_before_run E \<and> lc_http s = HttpRunning \<and> \<not> lc_http_stop s"
  proof (cases "lc_ending s")
    case None
    then show ?thesis using hangs by simp
  next
    case (Some e)
    then show ?thesis using i grpc by (cases e) (auto simp: server_inv_def ending_inv_def)
  qed
qed

text \<open>C37: where \<^verbatim>\<open>app.run()\<close> takes the signals for itself, a server that runs without having been sent a
  signal never ends: the signals stop the app, but the main thread waits for its own handler.\<close>

theorem server_signal_taken:
  assumes "follow (server_action E grpc_port) sched (server_start signals) = Some s" "en_run_takes_signals E"
    and "lc_http s = HttpRunning" "\<not> lc_g_shutdown s" "lc_ending s = None"
    and "follow (server_action E grpc_port) rest s = Some t"
  shows "lc_ending t = None \<and> \<not> lc_g_shutdown t \<and> (stuck (server_action E grpc_port) t \<longrightarrow> lc_main t = Polling)"
proof -
  let ?I = "\<lambda>s. server_inv E grpc_port s \<and> lc_http s \<in> {HttpRunning, HttpReturned} \<and> \<not> lc_g_shutdown s \<and> lc_ending s = None"
  have I: "?I t"
  proof (rule follow_inv [OF assms(6), of ?I])
    show "?I s" using server_inv_follow [OF assms(1)] assms(3-5) by simp
    fix a u v assume I: "?I u" and v: "server_action E grpc_port a u = Some v"
    have m: "main_step (lc_main u) \<le> 4" "2 \<le> main_step (lc_main u)"
      using I by (auto simp: server_inv_def http_inv_def)
    have "lc_http v \<in> {HttpRunning, HttpReturned} \<and> \<not> lc_g_shutdown v \<and> lc_ending v = None"
      using v
    proof (cases rule: server_action_cases)
      case 1
      from 1(2) show ?thesis using I m by (cases rule: main_action_cases) auto
    next
      case 2
      then show ?thesis using I by (cases "lc_http u") (auto simp: http_action_def split: if_splits)
    next
      case 3
      then show ?thesis using I by (cases "lc_grpc u") (auto simp: grpc_action_def split: if_splits)
    next
      case 4
      then show ?thesis using I m assms(2) by (auto simp: signal_action_def Let_def split: if_splits)
    qed
    then show "?I v" using server_inv_action [OF _ v] I by blast
  qed
  have "main_step (lc_main t) \<le> 4" using I by (auto simp: server_inv_def http_inv_def)
  moreover have "server_action E grpc_port Main t = None" if "stuck (server_action E grpc_port) t"
    using that by (simp add: stuck_def)
  ultimately have "stuck (server_action E grpc_port) t \<longrightarrow> lc_main t = Polling"
    using I by (cases "lc_main t") (auto simp: server_action_def main_action_def split: if_splits)
  then show ?thesis using I by simp
qed

text \<open>The ports, where the environment says nothing of them.\<close>

lemma Load_ports:
  assumes "Load tm env stoi [] = Inr cfg" "env ''SQT_HTTP_PORT'' = None" "env ''SQT_GRPC_PORT'' = None"
  shows "cf_http_port cfg = 8080" "cf_grpc_port cfg = 50051"
proof -
  from assms(1) obtain c where l: "ApplyEnv env stoi default_Config = Inr c"
    "cfg = c\<lparr>cf_log_level := normal_log_level (cf_log_level c)\<rparr>"
    by (auto simp: Load_def ebind_Inr_iff)
  from l(1) have "cf_http_port c = 8080 \<and> cf_grpc_port c = 50051"
    by (rule ApplyEnv_Inr) (simp add: assms(2,3) over_def default_Config_def)
  then show "cf_http_port cfg = 8080" "cf_grpc_port cfg = 50051" using l(2) by simp_all
qed

lemma port_texts: "to_text 8080 = ''8080''" "to_text 50051 = ''50051''"
  by (simp_all add: to_text_def decimal_digits.simps)

text \<open>C38: the health check of the container image, with its fixed ports, passes for a server whose environment
  sets no ports, if the network carries to the probes what the server answers, whatever the authorization.\<close>

theorem docker_healthcheck:
  assumes "server_main text_of tm env stoi build now = Inr (Running s)" "env ''SQT_HTTP_PORT'' = None" "env ''SQT_GRPC_PORT'' = None"
    and "hq_url req = ''/health''" "hq_body req = []" "serve (sd_auth s) S Health req (sd_state s) = (Inr r, st)"
    and "nw_http net (''http://127.0.0.1:'' @ to_text (sd_http_port s) @ ''/health'') = Some (True, int (rs_code r))"
    and "Health_Check [] = (ok, status)" "nw_grpc net (''127.0.0.1:'' @ to_text (sd_grpc_port s)) = (ok, status = SERVING)"
  shows "healthcheck_main net [''http://127.0.0.1:8080/health'', ''127.0.0.1:50051''] = 0"
proof -
  obtain cfg where l: "Load tm env stoi [] = Inr cfg" and p: "sd_http_port s = cf_http_port cfg" "sd_grpc_port s = cf_grpc_port cfg"
    using assms(1) by (auto simp: Started_iff)
  note ports = Load_ports [OF l assms(2,3)]
  have "middleware (sd_auth s) (hq_url req) (hq_header req ''X-API-Key'') (hq_body req) = None"
    by (simp add: assms(4,5) middleware_def ApiKeyAuth_before_def IsAuthorized_iff PayloadLimit_before_def)
  then have "rest_health S = Inr r" using assms(6) by (simp add: serve_def no_state_def)
  then have "rs_code r = 200" by (auto simp: rest_health_def JsonResponse_def Let_def ebind_Inr_iff)
  then have "nw_http net ''http://127.0.0.1:8080/health'' = Some (True, 200)"
    using assms(7) by (simp add: p ports port_texts)
  moreover have "nw_grpc net ''127.0.0.1:50051'' = (True, True)"
    using assms(8,9) by (simp add: p ports port_texts Health_Check_def)
  ultimately show ?thesis by (simp add: healthcheck_exit probe_def ProbeHttp_def ProbeGrpc_def)
qed

section \<open>Witnesses\<close>

definition sample_server_env :: Server_env where
  "sample_server_env = \<lparr>en_grpc = True, en_http_binds = True, en_grpc_builds = (\<lambda>a. a = ''0.0.0.0:50051''),
     en_run_takes_signals = False, en_stop_before_run = True\<rparr>"

lemma sample_env_facts:
  "en_grpc_builds sample_server_env (grpc_addr 50051)" "en_grpc sample_server_env" "en_http_binds sample_server_env"
  "\<not> en_run_takes_signals sample_server_env" "en_stop_before_run sample_server_env"
  by (simp_all add: sample_server_env_def grpc_addr_def port_texts)

lemma sample_shutdown:
  obtains s where "follow (server_action sample_server_env 50051)
      [Main, Main, Main, Main, Http, Grpc, Signal, Main, Main, Main, Grpc, Main, Http, Main] (server_start 1) = Some s"
    "lc_ending s = Some (Exits 0)"
  by (simp add: server_actions server_start_def StartGrpcHealthServer_def sample_env_facts Let_def)

theorem server_shutdown_witness:
  "\<exists>s. follow (server_action sample_server_env 50051)
      [Main, Main, Main, Main, Http, Grpc, Signal, Main, Main, Main, Grpc, Main, Http, Main] (server_start 1) = Some s \<and>
     lc_g_shutdown s \<and> lc_http s = HttpReturned \<and> lc_grpc s = GrpcReturned"
proof -
  obtain s where s: "follow (server_action sample_server_env 50051)
      [Main, Main, Main, Main, Http, Grpc, Signal, Main, Main, Main, Grpc, Main, Http, Main] (server_start 1) = Some s"
    "lc_ending s = Some (Exits 0)" by (rule sample_shutdown)
  show ?thesis using server_shutdown [OF s(1)] s sample_env_facts(2) by blast
qed

definition signal_env :: Server_env where
  "signal_env = sample_server_env\<lparr>en_run_takes_signals := True\<rparr>"

theorem server_signal_taken_witness:
  "\<exists>s t. follow (server_action signal_env 50051) [Main, Main, Main, Main, Http, Grpc] (server_start 2) = Some s \<and>
     follow (server_action signal_env 50051) [Signal, Signal] s = Some t \<and> lc_ending t = None \<and> lc_main t = Polling"
proof -
  have b: "en_grpc_builds signal_env (grpc_addr 50051)" "en_grpc signal_env" "en_http_binds signal_env"
    "en_run_takes_signals signal_env"
    using sample_env_facts by (simp_all add: signal_env_def)
  let ?s = "\<lparr>lc_main = Polling, lc_http = HttpRunning, lc_grpc = GrpcWaiting, lc_grpc_server = Some (grpc_addr 50051),
    lc_g_shutdown = False, lc_http_stop = False, lc_grpc_down = False, lc_signals = 2, lc_ending = None\<rparr>"
  let ?t = "?s\<lparr>lc_http := HttpReturned, lc_signals := 0\<rparr>"
  have f: "follow (server_action signal_env 50051) [Main, Main, Main, Main, Http, Grpc] (server_start 2) = Some ?s"
    "follow (server_action signal_env 50051) [Signal, Signal] ?s = Some ?t"
    by (simp_all add: server_actions server_start_def StartGrpcHealthServer_def b Let_def)
  have "stuck (server_action signal_env 50051) ?t" by (simp add: stuck_def server_actions split: actor.split)
  then have "lc_ending ?t = None \<and> lc_main ?t = Polling"
    using server_signal_taken [OF f(1) b(4) _ _ _ f(2)] by simp
  then show ?thesis using f by blast
qed

theorem docker_healthcheck_witness:
  "healthcheck_main \<lparr>nw_http = (\<lambda>url. Some (True, 200)), nw_grpc = (\<lambda>addr. case Health_Check [] of (ok, status) \<Rightarrow> (ok, status = SERVING))\<rparr>
     [''http://127.0.0.1:8080/health'', ''127.0.0.1:50051''] = 0"
proof -
  let ?req = "(sample_request [])\<lparr>hq_url := ''/health''\<rparr>"
  obtain s where s: "server_main (\<lambda>m. []) sample_toml sample_env no_number (None :: (tree, unit) Pg_build option) 0 =
      Inr (Running s)"
    by (rule sample_started)
  obtain body where "js_dump (srv_json storage_sample) (js_object (srv_json storage_sample)
      [(''status'', js_str (srv_json storage_sample) ''ok'')]) = Inr body"
    using sample_server_ok(2) unfolding storage_sample_def by blast
  then have h: "serve (sd_auth s) storage_sample Health ?req (sd_state s) =
      (Inr \<lparr>rs_code = 200, rs_content_type = ''application/json'', rs_body = body\<rparr>, sd_state s)"
    by (simp add: serve_def middleware_def ApiKeyAuth_before_def IsAuthorized_iff PayloadLimit_before_def sample_request_def
        no_state_def rest_health_def JsonResponse_def Let_def)
  show ?thesis
    by (rule docker_healthcheck [OF s _ _ _ _ h, of _ True SERVING])
      (simp_all add: sample_env_def sample_request_def Health_Check_def)
qed

end
