(* ===== verification/Regression_Exact.thy ===== *)
theory Regression_Exact
  imports Analysis Min_Variance
begin

text \<open>
  The regression read in exact rational arithmetic: the residuals are orthogonal to the explaining series,
  so the fit minimises the squared error and the coefficient of determination lies between 0 and 1.
\<close>

section \<open>Sums\<close>

lemma foldl_pair:
  "foldl (\<lambda>(a, b) i. (a + f i, b + g i)) (a, b) [0..<n] =
     (a + (\<Sum>i < n. f i :: 'a :: comm_monoid_add), b + (\<Sum>i < n. g i :: 'b :: comm_monoid_add))"
  by (induction n) (simp_all add: ac_simps)

lemma mean_sum: "xs \<noteq> [] \<Longrightarrow> (\<Sum>i < length xs. xs ! i - an_Mean id xs) = (0 :: rat)"
  by (simp add: an_Mean_def foldl_list sum_subtractf)

section \<open>Least squares\<close>

definition squared_error :: "rat list \<Rightarrow> rat list \<Rightarrow> rat \<Rightarrow> rat \<Rightarrow> rat" where
  "squared_error ys xs alpha beta = (\<Sum>i < length ys. (ys ! i - (alpha + beta * xs ! i))\<^sup>2)"

text \<open>Residuals that sum to 0 and are orthogonal to \<open>u\<close> are the shortest among all \<open>r + c + d u\<close>.\<close>

lemma orthogonal_shortest:
  fixes r u :: "nat \<Rightarrow> rat"
  assumes "(\<Sum>i < n. r i) = 0" "(\<Sum>i < n. r i * u i) = 0"
  shows "(\<Sum>i < n. (r i + (c + d * u i))\<^sup>2) = (\<Sum>i < n. (r i)\<^sup>2) + (\<Sum>i < n. (c + d * u i)\<^sup>2)"
proof -
  have "(\<Sum>i < n. (r i + (c + d * u i))\<^sup>2) =
      (\<Sum>i < n. (r i)\<^sup>2) + (\<Sum>i < n. (c + d * u i)\<^sup>2) + 2 * c * (\<Sum>i < n. r i) + 2 * d * (\<Sum>i < n. r i * u i)"
    by (simp add: power2_sum sum.distrib sum_distrib_left algebra_simps)
  then show ?thesis using assms by simp
qed

lemma regression_exact:
  assumes fit: "regression_fit id ys xs = Inr r" and len: "length xs = length ys" "ys \<noteq> []"
  shows "(\<Sum>i < length ys. rg_residuals r ! i) = 0"
    "squared_error ys xs (rg_alpha r) (rg_beta r) \<le> squared_error ys xs a b"
    "0 \<le> rg_r_squared r \<and> rg_r_squared r \<le> 1"
proof -
  let ?n = "length ys" and ?mx = "an_Mean id xs" and ?my = "an_Mean id ys"
  define u where "u i = xs ! i - ?mx" for i
  define v where "v i = ys ! i - ?my" for i
  define beta where "beta = (\<Sum>i < ?n. u i * v i) / (\<Sum>i < ?n. u i * u i)"
  define e where "e i = v i - beta * u i" for i
  have sums: "regression_sums ?mx ?my xs ys = ((\<Sum>i < ?n. u i * u i), (\<Sum>i < ?n. u i * v i))"
    by (simp add: regression_sums_def Let_def foldl_pair u_def v_def)
  have nz: "(\<Sum>i < ?n. u i * u i) \<noteq> 0"
    and beta: "rg_beta r = beta" and alpha: "rg_alpha r = ?my - beta * ?mx"
    and res: "rg_residuals r = map (\<lambda>i. ys ! i - (?my - beta * ?mx + beta * xs ! i)) [0..<?n]"
    and r2: "rg_r_squared r = (let tot = (\<Sum>i < ?n. v i * v i) in
      if tot \<noteq> 0 then 1 - (\<Sum>i < ?n. rg_residuals r ! i * rg_residuals r ! i) / tot else 0)"
    using fit by (auto simp: regression_fit_def Let_def sums ebind_Inr_iff vanishes_def foldl_pair beta_def v_def
        order_antisym_conv)
  have re: "rg_residuals r ! i = e i" if "i < ?n" for i
    using that by (simp add: res e_def u_def v_def algebra_simps)
  have u0: "(\<Sum>i < ?n. u i) = 0" and v0: "(\<Sum>i < ?n. v i) = 0"
    using mean_sum [of xs] mean_sum [of ys] len by (cases "xs = []"; simp add: u_def v_def)+
  have e0: "(\<Sum>i < ?n. e i) = 0" by (simp add: e_def sum_subtractf sum_distrib_left [symmetric] u0 v0)
  have eu: "(\<Sum>i < ?n. e i * u i) = 0"
  proof -
    have "(\<Sum>i < ?n. e i * u i) = (\<Sum>i < ?n. u i * v i) - beta * (\<Sum>i < ?n. u i * u i)"
      by (simp add: e_def sum_distrib_left sum_subtractf algebra_simps)
    then show ?thesis using nz by (simp add: beta_def)
  qed
  show "(\<Sum>i < ?n. rg_residuals r ! i) = 0" using e0 by (simp add: re)
  have se: "squared_error ys xs a b = (\<Sum>i < ?n. (e i)\<^sup>2) + (\<Sum>i < ?n. (?my - a - b * ?mx + (beta - b) * u i)\<^sup>2)" for a b
  proof -
    have "squared_error ys xs a b = (\<Sum>i < ?n. (e i + (?my - a - b * ?mx + (beta - b) * u i))\<^sup>2)"
      by (simp add: squared_error_def e_def u_def v_def algebra_simps)
    then show ?thesis by (simp add: orthogonal_shortest [OF e0 eu])
  qed
  show "squared_error ys xs (rg_alpha r) (rg_beta r) \<le> squared_error ys xs a b"
    unfolding se alpha beta by (simp add: sum_nonneg)
  have tot: "(\<Sum>i < ?n. (v i)\<^sup>2) = (\<Sum>i < ?n. (e i)\<^sup>2) + (\<Sum>i < ?n. (beta * u i)\<^sup>2)"
    using orthogonal_shortest [OF e0 eu, of 0 beta] by (simp add: e_def)
  let ?tot = "\<Sum>i < ?n. (v i)\<^sup>2" and ?res = "\<Sum>i < ?n. (e i)\<^sup>2"
  have b: "0 \<le> ?res" "?res \<le> ?tot" using tot by (simp_all add: sum_nonneg)
  have "rg_r_squared r = (if ?tot \<noteq> 0 then 1 - ?res / ?tot else 0)"
    using r2 re by (simp add: Let_def power2_eq_square)
  then show "0 \<le> rg_r_squared r \<and> rg_r_squared r \<le> 1" using b by (auto simp: divide_le_eq zero_le_divide_iff)
qed

section \<open>Properties\<close>

text \<open>C33: the regression, read in exact rational arithmetic, is the least-squares fit: its residuals sum to 0, no
  other intercept and slope have a smaller squared error, and the coefficient of determination is between 0
  and 1.\<close>

theorem regression_least_squares:
  assumes "regression_fit id asset_returns benchmark_returns = Inr r"
    and "length benchmark_returns = length asset_returns" "asset_returns \<noteq> []"
  shows "pf_Sum (rg_residuals r) = 0 \<and>
    squared_error asset_returns benchmark_returns (rg_alpha r) (rg_beta r) \<le> squared_error asset_returns benchmark_returns a b \<and>
    0 \<le> rg_r_squared r \<and> rg_r_squared r \<le> 1"
proof -
  have "length (rg_residuals r) = length asset_returns"
    using assms(1) by (auto simp: regression_fit_def Let_def ebind_Inr_iff case_prod_unfold)
  then show ?thesis using regression_exact [OF assms] by (simp add: pf_Sum_sum)
qed

theorem regression_least_squares_witness:
  "regression_fit id [1, 2, 6] [0, 1, 2 :: rat] =
     Inr \<lparr>rg_alpha = 1 / 2, rg_beta = 5 / 2, rg_r_squared = 25 / 28, rg_residuals = [1 / 2, - 1, 1 / 2]\<rparr> \<and>
   squared_error [1, 2, 6] [0, 1, 2] (1 / 2) (5 / 2) \<le> squared_error [1, 2, 6] [0, 1, 2] 0 3"
proof -
  have "regression_fit id [1, 2, 6] [0, 1, 2 :: rat] =
     Inr \<lparr>rg_alpha = 1 / 2, rg_beta = 5 / 2, rg_r_squared = 25 / 28, rg_residuals = [1 / 2, - 1, 1 / 2]\<rparr>"
    by code_simp
  from regression_least_squares [OF this, of 0 3] this show ?thesis by simp
qed

end
