(* ===== verification/Walk_Forward_Facts.thy ===== *)
theory Walk_Forward_Facts
  imports Walk_Forward
begin

text \<open>
  Facts of walk-forward optimization: the grid and its cap, the best parameters, termination of the
  loop over the windows, which bars each window uses, and the combined equity curve.
\<close>

section \<open>The grid\<close>

definition grid_step :: "params list \<Rightarrow> string \<times> double list \<Rightarrow> params list" where
  "grid_step cs g = (if snd g = [] then cs else extend_combinations cs (fst g) (snd g))"

lemma grid_step_pair: "grid_step cs (k, vs) = (if vs = [] then cs else extend_combinations cs k vs)"
  by (simp add: grid_step_def)

definition grid_product :: "(string \<times> double list) list \<Rightarrow> params list" where
  "grid_product grid = foldl grid_step [Map.empty] grid"

abbreviation grid_error :: exn where
  "grid_error \<equiv> InvalidCommandError [T ''parameter grid produces more than '', N kMaxWalkForwardCombinations,
     T '' combinations'']"

lemma length_extend: "length (extend_combinations cs k vs) = length cs * length vs"
  by (induction cs) (simp_all add: extend_combinations_def)

lemma length_grid_step: "length cs \<le> length (grid_step cs g)" "length (foldl grid_step cs grid) \<ge> length cs"
proof -
  show s: "length cs \<le> length (grid_step cs g)" for cs g
    by (cases g; cases "snd g") (auto simp: grid_step_pair length_extend)
  show "length (foldl grid_step cs grid) \<ge> length cs"
    by (induction grid arbitrary: cs) (auto intro: order_trans [OF s])
qed

lemma combine_grid_foldl:
  "length cs \<le> kMaxWalkForwardCombinations \<Longrightarrow>
     combine_grid cs grid =
       (if length (foldl grid_step cs grid) \<le> kMaxWalkForwardCombinations then Inr (foldl grid_step cs grid)
        else Inl grid_error)"
proof (induction grid arbitrary: cs)
  case (Cons g grid)
  obtain k vs where g: "g = (k, vs)" by (cases g)
  show ?case
  proof (cases "vs = []")
    case True
    then show ?thesis using Cons by (simp add: g grid_step_pair)
  next
    case False
    let ?cs = "extend_combinations cs k vs"
    have "foldl grid_step cs (g # grid) = foldl grid_step ?cs grid" using False by (simp add: g grid_step_pair)
    then show ?thesis using False Cons.IH [of ?cs] length_grid_step(2) [of ?cs grid]
      by (simp add: g Let_def throw_if_def not_le)
  qed
qed simp

lemma length_foldl_grid:
  "length (foldl grid_step cs grid) = length cs * prod_list (map (\<lambda>(k, vs). max 1 (length vs)) grid)"
proof (induction grid arbitrary: cs)
  case (Cons g grid)
  obtain k vs where g: "g = (k, vs)" by (cases g)
  have "length (grid_step cs g) = length cs * max 1 (length vs)"
    by (cases vs) (simp_all add: g grid_step_pair length_extend)
  then show ?case using Cons by (simp add: g)
qed simp

lemma bex_extend:
  "(\<exists>m \<in> set (extend_combinations cs k vs). P m) \<longleftrightarrow> (\<exists>b \<in> set cs. \<exists>v \<in> set vs. P (b(k \<mapsto> v)))"
  by (auto simp: extend_combinations_def)

lemma set_foldl_grid:
  assumes "distinct (map fst grid)"
  shows "m \<in> set (foldl grid_step cs grid) \<longleftrightarrow>
    (\<exists>b \<in> set cs. (\<forall>k. k \<notin> fst ` {g \<in> set grid. snd g \<noteq> []} \<longrightarrow> m k = b k) \<and>
       (\<forall>(k, vs) \<in> set grid. vs \<noteq> [] \<longrightarrow> m k \<in> Some ` set vs))"
  using assms
proof (induction grid arbitrary: cs)
  case (Cons g grid)
  obtain k vs where g: "g = (k, vs)" by (cases g)
  have d: "k \<notin> fst ` set grid" "distinct (map fst grid)" using Cons.prems by (auto simp: g)
  let ?ok = "\<forall>(k, vs) \<in> set grid. vs \<noteq> [] \<longrightarrow> m k \<in> Some ` set vs"
  let ?K = "fst ` {g \<in> set grid. snd g \<noteq> []}"
  have IH: "m \<in> set (foldl grid_step cs' grid) \<longleftrightarrow> (\<exists>b \<in> set cs'. (\<forall>k. k \<notin> ?K \<longrightarrow> m k = b k) \<and> ?ok)" for cs'
    using Cons.IH d(2) by blast
  have k: "k \<notin> ?K" using d(1) by auto
  show ?case
  proof (cases "vs = []")
    case True
    have "{h \<in> set (g # grid). snd h \<noteq> []} = {h \<in> set grid. snd h \<noteq> []}" using True by (auto simp: g)
    then show ?thesis using IH [of cs] True by (simp add: g grid_step_pair)
  next
    case False
    have "m \<in> set (foldl grid_step cs (g # grid)) \<longleftrightarrow>
        (\<exists>b \<in> set cs. \<exists>v \<in> set vs. (\<forall>j. j \<notin> ?K \<longrightarrow> m j = (b(k \<mapsto> v)) j) \<and> ?ok)"
      using IH [of "extend_combinations cs k vs"] False
      by (simp only: g foldl_Cons grid_step_pair if_False bex_extend)
    also have "\<dots> \<longleftrightarrow> (\<exists>b \<in> set cs. (\<forall>j. j \<notin> insert k ?K \<longrightarrow> m j = b j) \<and> m k \<in> Some ` set vs \<and> ?ok)"
      using k by (auto simp: image_iff) metis+
    also have "insert k ?K = fst ` {h \<in> set (g # grid). snd h \<noteq> []}" using False by (force simp: g)
    finally show ?thesis using False by (simp add: g)
  qed
qed (auto simp flip: fun_eq_iff)

section \<open>The best parameters\<close>

lemma less_trans_d: "x < y \<Longrightarrow> y < z \<Longrightarrow> x < (z :: double)"
  by (simp add: less_key)

text \<open>\<open>best\<close> holds a score that \<open>x\<close> does not exceed.\<close>

definition at_least :: "(double \<times> params) option \<Rightarrow> double \<Rightarrow> bool" where
  "at_least best x \<longleftrightarrow> (case best of None \<Rightarrow> False | Some (s, p) \<Rightarrow> \<not> s < x)"

definition best_of :: "(double \<times> params) option \<Rightarrow> double \<Rightarrow> params \<Rightarrow> (double \<times> params) option" where
  "best_of best s q = (case best of None \<Rightarrow> Some (s, q)
     | Some (best_score, best_params) \<Rightarrow> if best_score < s then Some (s, q) else best)"

lemma best_of_at_least: "at_least (best_of best s q) s" "at_least best x \<Longrightarrow> at_least (best_of best s q) x"
  by (auto simp: at_least_def best_of_def less_key split: option.splits)

lemma best_of_cases: "best_of best s q = Some (s, q) \<or> best_of best s q = best \<and> best \<noteq> None"
  by (auto simp: best_of_def split: option.splits)

lemma optimize_loop_Cons:
  "optimize_loop name train config metric best (q # cs) =
     (case backtest name config train q of
        Inl e \<Rightarrow> if catchable e then optimize_loop name train config metric best cs else Inl e
      | Inr r \<Rightarrow> optimize_loop name train config metric (best_of best (ScoreResult r metric) q) cs)"
  by (simp add: best_of_def Let_def split: sum.split)

lemma optimize_loop_keeps:
  "optimize_loop name train config metric best cs = Inr best' \<Longrightarrow> at_least best x \<Longrightarrow> at_least best' x"
proof (induction cs arbitrary: best)
  case (Cons q cs)
  then show ?case unfolding optimize_loop_Cons
    by (auto split: sum.splits if_splits intro: best_of_at_least)
qed simp

lemma optimize_loop_best:
  "optimize_loop name train config metric best cs = Inr best' \<Longrightarrow> q \<in> set cs \<Longrightarrow>
     backtest name config train q = Inr r \<Longrightarrow> at_least best' (ScoreResult r metric)"
proof (induction cs arbitrary: best)
  case (Cons p cs)
  show ?case
  proof (cases "q = p")
    case True
    then have "optimize_loop name train config metric (best_of best (ScoreResult r metric) q) cs = Inr best'"
      using Cons.prems unfolding optimize_loop_Cons by simp
    then show ?thesis using optimize_loop_keeps best_of_at_least(1) by blast
  next
    case False
    then show ?thesis using Cons unfolding optimize_loop_Cons by (auto split: sum.splits if_splits)
  qed
qed simp

lemma optimize_loop_origin:
  "optimize_loop name train config metric best cs = Inr (Some (s, p)) \<Longrightarrow>
     best = Some (s, p) \<or> p \<in> set cs \<and> (\<exists>r. backtest name config train p = Inr r \<and> s = ScoreResult r metric)"
proof (induction cs arbitrary: best)
  case (Cons q cs)
  show ?case
  proof (cases "backtest name config train q")
    case (Inl e)
    then show ?thesis using Cons unfolding optimize_loop_Cons by (auto split: if_splits)
  next
    case (Inr r)
    let ?s = "ScoreResult r metric"
    have "best_of best ?s q = Some (s, p) \<or>
        p \<in> set cs \<and> (\<exists>r. backtest name config train p = Inr r \<and> s = ScoreResult r metric)"
      using Cons.prems Inr unfolding optimize_loop_Cons by (intro Cons.IH) simp
    then show ?thesis using best_of_cases [of best ?s q] Inr by auto
  qed
qed simp

text \<open>The parameters chosen ran, and no other that ran scores more.\<close>

lemma Optimize_best:
  assumes "Optimize name train cs config metric = Inr p"
  shows "p \<in> set cs" "\<exists>r. backtest name config train p = Inr r \<and>
    (\<forall>q \<in> set cs. \<forall>r'. backtest name config train q = Inr r' \<longrightarrow> \<not> ScoreResult r metric < ScoreResult r' metric)"
proof -
  from assms obtain s where l: "optimize_loop name train config metric None cs = Inr (Some (s, p))"
    by (auto simp: Optimize_def ebind_Inr_iff split: option.splits)
  note o = optimize_loop_origin [OF this]
  then show "p \<in> set cs" by simp
  show "\<exists>r. backtest name config train p = Inr r \<and>
    (\<forall>q \<in> set cs. \<forall>r'. backtest name config train q = Inr r' \<longrightarrow> \<not> ScoreResult r metric < ScoreResult r' metric)"
    using o optimize_loop_best [OF l] by (auto simp: at_least_def)
qed

lemma optimize_loop_none:
  "optimize_loop name train config metric best cs = Inr None \<Longrightarrow>
     best = None \<and> (\<forall>q \<in> set cs. \<exists>e. backtest name config train q = Inl e \<and> catchable e)"
proof (induction cs arbitrary: best)
  case (Cons q cs)
  show ?case
  proof (cases "backtest name config train q")
    case (Inl e)
    then show ?thesis using Cons unfolding optimize_loop_Cons by (auto split: if_splits)
  next
    case (Inr r)
    then have "best_of best (ScoreResult r metric) q = None" using Cons unfolding optimize_loop_Cons by auto
    then show ?thesis using best_of_cases [of best "ScoreResult r metric" q] by auto
  qed
qed simp

lemma optimize_loop_error:
  "optimize_loop name train config metric best cs = Inl e \<Longrightarrow> \<not> catchable e"
  by (induction cs arbitrary: best) (auto simp: optimize_loop_Cons simp del: optimize_loop.simps(2) split: sum.splits if_splits)

lemma Optimize_error:
  assumes "Optimize name train cs config metric = Inl e" "catchable e"
  shows "\<forall>q \<in> set cs. \<exists>e. backtest name config train q = Inl e \<and> catchable e"
proof -
  have "optimize_loop name train config metric None cs = Inr None"
    using assms optimize_loop_error [of name train config metric None cs e]
    by (cases "optimize_loop name train config metric None cs") (auto simp: Optimize_def split: option.splits)
  then show ?thesis using optimize_loop_none by blast
qed

section \<open>The loop over the windows\<close>

definition wf_count :: "WalkForwardRequest \<Rightarrow> nat" where
  "wf_count request = (length (wf_series request) - wf_train_size request) div wf_test_size request"

text \<open>With a positive test size the loop ends, and it visits the windows in steps of the test size.\<close>

lemma wf_loop_total:
  assumes "0 < wf_test_size request"
  shows "\<exists>y. wf_loop request cs start rs ps = Some y"
proof (induction "length (wf_series request) - start" arbitrary: start rs ps rule: less_induct)
  case less
  show ?case
  proof (cases "start + wf_train_size request + wf_test_size request \<le> length (wf_series request)")
    case True
    then have "length (wf_series request) - (start + wf_test_size request) < length (wf_series request) - start"
      using assms by linarith
    then show ?thesis using less by (subst wf_loop.simps) (auto split: sum.split)
  qed (simp add: wf_loop.simps)
qed

lemma wf_loop_windows:
  assumes "0 < wf_test_size request" "wf_loop request cs start rs ps = Some (Inr (rs', ps'))"
  shows "\<exists>ws. rs' = rs @ map fst ws \<and> ps' = ps @ map snd ws \<and>
    (\<forall>k < length ws. wf_window request cs (start + k * wf_test_size request) = Inr (ws ! k)) \<and>
    length ws = (length (wf_series request) - wf_train_size request - start) div wf_test_size request"
  using assms(2)
proof (induction "length (wf_series request) - start" arbitrary: start rs ps rule: less_induct)
  case less
  let ?n = "length (wf_series request)" and ?tr = "wf_train_size request" and ?t = "wf_test_size request"
  show ?case
  proof (cases "start + ?tr + ?t \<le> ?n")
    case True
    obtain r p where w: "wf_window request cs start = Inr (r, p)"
      and l: "wf_loop request cs (start + ?t) (rs @ [r]) (ps @ [p]) = Some (Inr (rs', ps'))"
      using less.prems True by (subst (asm) wf_loop.simps) (auto split: sum.splits)
    have "?n - (start + ?t) < ?n - start" using True assms(1) by linarith
    from less.hyps [OF this l] obtain ws where ws: "rs' = (rs @ [r]) @ map fst ws" "ps' = (ps @ [p]) @ map snd ws"
      "\<forall>k < length ws. wf_window request cs (start + ?t + k * ?t) = Inr (ws ! k)"
      "length ws = (?n - ?tr - (start + ?t)) div ?t" by blast
    have "length ((r, p) # ws) = (?n - ?tr - start) div ?t"
      using ws(4) True assms(1) div_add_self2 [of ?t "?n - ?tr - (start + ?t)"] by (simp add: algebra_simps)
    moreover have "wf_window request cs (start + k * ?t) = Inr (((r, p) # ws) ! k)" if "k < length ((r, p) # ws)" for k
      using that ws(3) w by (cases k) (simp_all add: algebra_simps)
    ultimately show ?thesis using ws(1,2) by (intro exI [of _ "(r, p) # ws"]) auto
  next
    case False
    then have "rs' = rs" "ps' = ps" using less.prems by (simp_all add: wf_loop.simps)
    moreover have "(?n - ?tr - start) div ?t = 0" using False assms(1) by (intro div_less) linarith
    ultimately show ?thesis by (intro exI [of _ "[]"]) auto
  qed
qed

section \<open>The combined curve\<close>

lemma set_unique_dates: "set (unique_dates ps) \<subseteq> set ps"
  by (induction ps rule: unique_dates.induct) auto

lemma dates_unique: "sorted (map ep_date ps) \<Longrightarrow>
    sorted_wrt (<) (map ep_date (unique_dates ps)) \<and> ep_date ` set (unique_dates ps) = ep_date ` set ps"
proof (induction ps rule: unique_dates.induct)
  case (1 p q ps)
  show ?case
  proof (cases "ep_date p = ep_date q")
    case True
    then show ?thesis using 1 by auto
  next
    case False
    have "\<forall>d \<in> ep_date ` set (unique_dates (q # ps)). ep_date p < d"
      using 1 False by (auto simp: less_le)
    then show ?thesis using 1 False by auto
  qed
qed auto

lemma unique_dates_id: "sorted_wrt (<) (map ep_date ps) \<Longrightarrow> unique_dates ps = ps"
  by (induction ps rule: unique_dates.induct) auto

lemma CombineResults_dates:
  assumes "CombineResults results sel config = Inr r"
  shows "sorted_wrt (<) (map ep_date (wr_equity_curve r))"
  using assms by (auto simp: CombineResults_def Let_def split: if_splits prod.splits intro!: conjunct1 [OF dates_unique])

text \<open>What the fold collects: the dates of all the curves, and all the trades.\<close>

lemma combine_step_fields:
  "map ep_date (fst (combine_step config results (ps, ts, c) n)) = map ep_date ps @ map ep_date (br_equity_curve (results ! n))"
  "map tr_entry_date (fst (snd (combine_step config results (ps, ts, c) n))) =
     map tr_entry_date ts @ map tr_entry_date (br_trades (results ! n))"
  by (simp_all add: combine_step_def Let_def scale_points_def scale_trades_def)

lemma combine_fold:
  "n \<le> length results \<Longrightarrow>
     map ep_date (fst (foldl (combine_step config results) ([], [], 0) [0..<n])) =
       concat (map (map ep_date \<circ> br_equity_curve) (take n results)) \<and>
     map tr_entry_date (fst (snd (foldl (combine_step config results) ([], [], 0) [0..<n]))) =
       concat (map (map tr_entry_date \<circ> br_trades) (take n results))"
proof (induction n)
  case (Suc n)
  obtain ps ts c where f: "foldl (combine_step config results) ([], [], 0) [0..<n] = (ps, ts, c)"
    by (metis prod_cases3)
  show ?case using Suc by (simp add: f combine_step_fields take_Suc_conv_app_nth)
qed simp

lemma CombineResults_cases:
  assumes "CombineResults results sel config = Inr r"
  obtains ps ts c where "foldl (combine_step config results) ([], [], 0) [0..<length results] = (ps, ts, c)"
    "wr_equity_curve r = unique_dates (sort_key ep_date ps)" "wr_trades r = ts" "wr_win_rate r = win_rate_of ts"
    "wr_number_of_trades r = length ts" "wr_max_drawdown r = ComputeMaxDrawdown (wr_equity_curve r)"
    "wr_selected_params r = sel" "results \<noteq> []"
  using assms by (auto simp: CombineResults_def Let_def ComputeMaxDrawdown_def split: if_splits prod.splits)

lemma CombineResults_counts:
  assumes "CombineResults results sel config = Inr r"
  shows "wr_number_of_trades r = length (wr_trades r)"
    "length (wr_trades r) = sum_list (map (length \<circ> br_trades) results)"
    "wr_max_drawdown r \<le> 0"
proof -
  obtain ps ts c where f: "foldl (combine_step config results) ([], [], 0) [0..<length results] = (ps, ts, c)"
    "wr_trades r = ts" "wr_number_of_trades r = length ts" "wr_max_drawdown r = ComputeMaxDrawdown (wr_equity_curve r)"
    using assms by (rule CombineResults_cases)
  then show "wr_number_of_trades r = length (wr_trades r)" "wr_max_drawdown r \<le> 0"
    by (simp_all add: max_drawdown_range)
  have "length ts = length (concat (map (map tr_entry_date \<circ> br_trades) results))"
    using combine_fold [of "length results" results config] f(1) by (metis fst_conv snd_conv length_map order_refl take_all)
  then show "length (wr_trades r) = sum_list (map (length \<circ> br_trades) results)"
    by (simp add: f length_concat comp_def)
qed

lemma CombineResults_chronological:
  assumes "CombineResults results sel config = Inr r"
    and "concat (map (map ep_date \<circ> br_equity_curve) results) = ds" "sorted_wrt (<) ds"
  shows "map ep_date (wr_equity_curve r) = ds"
proof -
  obtain ps ts c where f: "foldl (combine_step config results) ([], [], 0) [0..<length results] = (ps, ts, c)"
    "wr_equity_curve r = unique_dates (sort_key ep_date ps)"
    using assms(1) by (rule CombineResults_cases)
  then have d: "map ep_date ps = ds" using combine_fold [of "length results" results config] assms(2) by simp
  then have "sort_key ep_date ps = ps" using assms(3)
    by (intro sort_key_id_if_sorted) (metis strict_sorted_iff)
  then show ?thesis using f d assms(3) by (simp add: unique_dates_id)
qed

section \<open>The run\<close>

definition bars :: "OHLCV list \<Rightarrow> nat \<Rightarrow> nat \<Rightarrow> OHLCV list" where
  "bars series i n = take n (drop i series)"

lemma make_optimizer_Inr:
  "make_WalkForwardOptimizer request = Inr r \<longleftrightarrow> r = request \<and> BuiltinStrategy (wf_strategy request) \<noteq> None \<and>
     0 < wf_train_size request \<and> wf_train_size request \<le> kMaxWalkForwardWindow \<and>
     0 < wf_test_size request \<and> wf_test_size request \<le> kMaxWalkForwardWindow \<and> wf_param_grid request \<noteq> []"
  by (auto simp: make_WalkForwardOptimizer_def ebind_Inr_iff BacktestEngine_def)

lemma WalkForward_Run_total:
  assumes "0 < wf_test_size request"
  shows "\<exists>y. WalkForward_Run request = Some y"
proof -
  have "wf_loop request cs 0 [] [] \<noteq> None" for cs using wf_loop_total [OF assms, of cs 0 "[]" "[]"] by auto
  then have "WalkForward_Run request \<noteq> None"
    by (simp add: WalkForward_Run_def del: not_None_eq split: sum.split option.split)
  then show ?thesis by blast
qed

lemma WalkForward_Run_windows:
  assumes "WalkForward_Run request = Some (Inr r)" "0 < wf_test_size request"
  obtains combinations results where
    "BuildParamCombinations (wf_param_grid request) = Inr combinations"
    "length results = wf_count request" "length (wr_selected_params r) = wf_count request"
    "\<And>k. k < wf_count request \<Longrightarrow> wf_window request combinations (k * wf_test_size request) =
        Inr (results ! k, wr_selected_params r ! k)"
    "CombineResults results (wr_selected_params r) (wf_config request) = Inr r"
    "wf_train_size request + wf_test_size request \<le> length (wf_series request)"
proof -
  from assms(1) obtain cs rs ps where b: "BuildParamCombinations (wf_param_grid request) = Inr cs"
    and l: "wf_loop request cs 0 [] [] = Some (Inr (rs, ps))"
    and c: "CombineResults rs ps (wf_config request) = Inr r"
    and n: "wf_train_size request + wf_test_size request \<le> length (wf_series request)"
    by (auto simp: WalkForward_Run_def not_less split: if_splits sum.splits option.splits prod.splits)
  obtain ws where ws: "rs = map fst ws" "ps = map snd ws"
    "\<forall>k < length ws. wf_window request cs (k * wf_test_size request) = Inr (ws ! k)" "length ws = wf_count request"
    using wf_loop_windows [OF assms(2) l] by (auto simp: wf_count_def)
  have "wr_selected_params r = ps" using c by (rule CombineResults_cases)
  then show thesis using that [of cs rs] b c n ws by simp
qed

lemma wf_window_Inr:
  "wf_window request cs start = Inr (r, w) \<Longrightarrow>
     Optimize (wf_strategy request) (bars (wf_series request) start (wf_train_size request)) cs (wf_config request)
       (wf_metric request) = Inr (pw_params w) \<and>
     backtest (wf_strategy request) (wf_config request)
       (bars (wf_series request) (start + wf_train_size request) (wf_test_size request)) (pw_params w) = Inr r \<and>
     pw_start w = bar_date (hd (bars (wf_series request) (start + wf_train_size request) (wf_test_size request)))"
  by (auto simp: wf_window_def Let_def ebind_Inr_iff bars_def)

lemma WalkForward_Run_selected:
  assumes "WalkForward_Run request = Some (Inr r)" "0 < wf_test_size request" "k < length (wr_selected_params r)"
  shows "\<exists>cs. BuildParamCombinations (wf_param_grid request) = Inr cs \<and>
    Optimize (wf_strategy request) (bars (wf_series request) (k * wf_test_size request) (wf_train_size request)) cs
      (wf_config request) (wf_metric request) = Inr (pw_params (wr_selected_params r ! k))"
proof -
  from WalkForward_Run_windows [OF assms(1,2)] obtain cs rs where w:
    "BuildParamCombinations (wf_param_grid request) = Inr cs" "length (wr_selected_params r) = wf_count request"
    "\<And>k. k < wf_count request \<Longrightarrow> wf_window request cs (k * wf_test_size request) = Inr (rs ! k, wr_selected_params r ! k)"
    by metis
  then show ?thesis using wf_window_Inr [OF w(3) [of k]] assms(3) by auto
qed

lemma backtest_dates: "backtest name config series params = Inr r \<Longrightarrow> map ep_date (br_equity_curve r) = map bar_date series"
  by (auto simp: backtest_def ebind_Inr_iff final_account_facts elim!: Run_cases)

text \<open>The test windows follow one another without gap or overlap.\<close>

lemma concat_bars:
  "i + m * n \<le> length series \<Longrightarrow> concat (map (\<lambda>k. bars series (i + k * n) n) [0..<m]) = bars series i (m * n)"
proof (induction m)
  case (Suc m)
  have "bars series i (m * n) @ bars series (i + m * n) n = bars series i (Suc m * n)"
    by (simp add: bars_def take_add add.commute [of n] add.commute [of i])
  then show ?case using Suc by simp
qed (simp add: bars_def)

lemma wf_count_bound: "wf_train_size request \<le> length (wf_series request) \<Longrightarrow>
    wf_train_size request + wf_count request * wf_test_size request \<le> length (wf_series request)"
  using div_times_less_eq_dividend [of "length (wf_series request) - wf_train_size request" "wf_test_size request"]
  unfolding wf_count_def by linarith

lemma WalkForward_curve:
  assumes "WalkForward_Run request = Some (Inr r)" "0 < wf_test_size request"
    and "sorted_wrt (<) (map bar_date (wf_series request))"
  shows "map ep_date (wr_equity_curve r) =
    map bar_date (bars (wf_series request) (wf_train_size request) (wf_count request * wf_test_size request))"
proof -
  let ?s = "wf_series request" and ?tr = "wf_train_size request" and ?t = "wf_test_size request" and ?m = "wf_count request"
  from WalkForward_Run_windows [OF assms(1,2)] obtain cs rs where w: "length rs = ?m"
    "\<And>k. k < ?m \<Longrightarrow> wf_window request cs (k * ?t) = Inr (rs ! k, wr_selected_params r ! k)"
    "CombineResults rs (wr_selected_params r) (wf_config request) = Inr r" "?tr + ?t \<le> length ?s"
    by metis
  have d: "map ep_date (br_equity_curve (rs ! k)) = map bar_date (bars ?s (?tr + k * ?t) ?t)" if "k < ?m" for k
    using backtest_dates [OF conjunct1 [OF conjunct2 [OF wf_window_Inr [OF w(2) [OF that]]]]]
    by (simp add: add.commute)
  have "map (map ep_date \<circ> br_equity_curve) rs = map (\<lambda>k. map bar_date (bars ?s (?tr + k * ?t) ?t)) [0..<?m]"
    using w(1) by (intro nth_equalityI) (simp_all add: d)
  then have c: "concat (map (map ep_date \<circ> br_equity_curve) rs) = map bar_date (bars ?s ?tr (?m * ?t))"
    using arg_cong [OF concat_bars [of ?tr ?m ?t ?s], of "map bar_date"] wf_count_bound [of request] w(4)
    by (simp add: map_concat comp_def)
  have "sorted_wrt (<) (map bar_date (bars ?s ?tr (?m * ?t)))"
    using assms(3) by (simp add: bars_def take_map [symmetric] drop_map [symmetric] sorted_wrt_take sorted_wrt_drop)
  with w(3) c show ?thesis by (rule CombineResults_chronological)
qed

section \<open>Walk-forward of buy and hold\<close>

text \<open>A strategy that cannot fail makes every window succeed.\<close>

lemma optimize_loop_succeeds:
  "(\<forall>q \<in> set cs. \<exists>r. backtest name config train q = Inr r) \<Longrightarrow>
     \<exists>best'. optimize_loop name train config metric best cs = Inr best' \<and> (best \<noteq> None \<or> cs \<noteq> [] \<longrightarrow> best' \<noteq> None)"
proof (induction cs arbitrary: best)
  case (Cons q cs)
  from Cons.prems obtain r where r: "backtest name config train q = Inr r" by auto
  have "best_of best (ScoreResult r metric) q \<noteq> None" by (auto simp: best_of_def split: option.splits)
  then show ?case
    using Cons.IH [of "best_of best (ScoreResult r metric) q"] Cons.prems r unfolding optimize_loop_Cons by auto
qed simp

lemma backtest_hold: "train \<noteq> [] \<Longrightarrow> length train \<le> kMaxBacktestBars \<Longrightarrow>
    \<exists>r. backtest ''buy_and_hold'' config train q = Inr r"
  using buy_hold.Run_count_ok [of train config q]
  by (simp add: backtest_def BacktestEngine_def BuiltinStrategy_def BuyAndHold_def)

definition hold_request :: "WalkForwardRequest \<Rightarrow> bool" where
  "hold_request request \<longleftrightarrow> wf_strategy request = ''buy_and_hold'' \<and>
     0 < wf_train_size request \<and> wf_train_size request \<le> kMaxWalkForwardWindow \<and>
     0 < wf_test_size request \<and> wf_test_size request \<le> kMaxWalkForwardWindow"

lemma wf_window_hold:
  assumes "hold_request request" "cs \<noteq> []"
    and "start + wf_train_size request + wf_test_size request \<le> length (wf_series request)"
  shows "\<exists>x. wf_window request cs start = Inr x"
proof -
  let ?train = "take (wf_train_size request) (drop start (wf_series request))"
  let ?test = "take (wf_test_size request) (drop (start + wf_train_size request) (wf_series request))"
  have ne: "?train \<noteq> []" "length ?train \<le> kMaxBacktestBars" "?test \<noteq> []" "length ?test \<le> kMaxBacktestBars"
    using assms(1,3) by (auto simp: hold_request_def kMaxBacktestBars_def kMaxWalkForwardWindow_def)
  obtain p where "Optimize ''buy_and_hold'' ?train cs (wf_config request) (wf_metric request) = Inr p"
    using optimize_loop_succeeds [of cs "''buy_and_hold''" "wf_config request" ?train "wf_metric request" None]
      backtest_hold [OF ne(1,2)] assms(2) by (auto simp: Optimize_def)
  moreover obtain r where "backtest ''buy_and_hold'' (wf_config request) ?test p = Inr r"
    using backtest_hold [OF ne(3,4)] by blast
  ultimately show ?thesis using assms(1) by (simp add: wf_window_def Let_def hold_request_def)
qed

lemma wf_loop_hold:
  assumes "hold_request request" "cs \<noteq> []"
  shows "\<exists>rs' ps'. wf_loop request cs start rs ps = Some (Inr (rs', ps')) \<and>
    (rs \<noteq> [] \<or> start + wf_train_size request + wf_test_size request \<le> length (wf_series request) \<longrightarrow> rs' \<noteq> [])"
proof (induction "length (wf_series request) - start" arbitrary: start rs ps rule: less_induct)
  case less
  show ?case
  proof (cases "start + wf_train_size request + wf_test_size request \<le> length (wf_series request)")
    case True
    obtain r w where w: "wf_window request cs start = Inr (r, w)"
      using wf_window_hold [OF assms True] by auto
    have "length (wf_series request) - (start + wf_test_size request) < length (wf_series request) - start"
      using assms(1) True by (auto simp: hold_request_def)
    from less [OF this, of "rs @ [r]" "ps @ [w]"] show ?thesis
      by (subst wf_loop.simps) (simp add: True w)
  qed (subst wf_loop.simps, simp)
qed

lemma walk_forward_hold:
  assumes "hold_request request" "BuildParamCombinations (wf_param_grid request) = Inr cs" "cs \<noteq> []"
    and "wf_train_size request + wf_test_size request \<le> length (wf_series request)"
  shows "\<exists>r. WalkForward_Run request = Some (Inr r)"
proof -
  obtain rs ps where "wf_loop request cs 0 [] [] = Some (Inr (rs, ps))" "rs \<noteq> []"
    using wf_loop_hold [OF assms(1,3), of 0 "[]" "[]"] assms(4) by auto
  then show ?thesis using assms(2-4)
    by (simp add: WalkForward_Run_def CombineResults_def Let_def case_prod_beta)
qed

section \<open>Properties\<close>

text \<open>The number of parameter combinations is the product of the sizes of the non-empty candidate lists; a
  grid of more than 10000 is refused, whatever the order in which its entries are visited.\<close>

theorem wf_grid_size:
  "BuildParamCombinations grid =
     (if prod_list (map (\<lambda>(k, vs). max 1 (length vs)) grid) \<le> 10000 then Inr (grid_product grid)
      else Inl (InvalidCommandError [T ''parameter grid produces more than '', N 10000, T '' combinations''])) \<and>
   length (grid_product grid) = prod_list (map (\<lambda>(k, vs). max 1 (length vs)) grid)"
  using combine_grid_foldl [of "[Map.empty]" grid] length_foldl_grid [of "[Map.empty]" grid]
  by (simp add: BuildParamCombinations_def grid_product_def kMaxWalkForwardCombinations_def)

text \<open>The combinations of a grid with distinct names are exactly the maps that give each name with
  candidates one of its candidates and no other name a value.\<close>

theorem wf_grid_content:
  assumes "distinct (map fst grid)" "BuildParamCombinations grid = Inr combinations"
  shows "m \<in> set combinations \<longleftrightarrow>
    (\<forall>(k, vs) \<in> set grid. vs \<noteq> [] \<longrightarrow> m k \<in> Some ` set vs) \<and>
    (\<forall>k. k \<notin> fst ` {g \<in> set grid. snd g \<noteq> []} \<longrightarrow> m k = None)"
proof -
  have "combinations = foldl grid_step [Map.empty] grid"
    using assms(2) combine_grid_foldl [of "[Map.empty]" grid]
    by (simp add: BuildParamCombinations_def kMaxWalkForwardCombinations_def split: if_splits)
  then show ?thesis using set_foldl_grid [OF assms(1), of m "[Map.empty]"] by auto
qed

definition sample_grid :: "(string \<times> double list) list" where
  "sample_grid = [(''x'', [lit 1, lit 2]), (''y'', [])]"

lemma sample_grid_product:
  "BuildParamCombinations sample_grid = Inr [[''x'' \<mapsto> lit 1], [''x'' \<mapsto> lit 2]]"
  by (simp add: BuildParamCombinations_def sample_grid_def extend_combinations_def kMaxWalkForwardCombinations_def)

theorem wf_grid_content_witness:
  "\<exists>combinations. BuildParamCombinations sample_grid = Inr combinations \<and>
     [''x'' \<mapsto> lit 2] \<in> set combinations \<and> Map.empty \<notin> set combinations"
  using wf_grid_content [OF _ sample_grid_product, of "[''x'' \<mapsto> lit 2]"]
    wf_grid_content [OF _ sample_grid_product, of Map.empty] sample_grid_product
  by (auto simp: sample_grid_def)

text \<open>C17: the parameters chosen on a training window are one of the combinations, their backtest succeeds there, and
  no combination whose backtest succeeds has a larger score.\<close>

theorem wf_best:
  assumes "Optimize name train combinations config metric = Inr best"
  shows "best \<in> set combinations \<and> (\<exists>r. backtest name config train best = Inr r \<and>
    (\<forall>q \<in> set combinations. \<forall>r'. backtest name config train q = Inr r' \<longrightarrow>
       \<not> ScoreResult r metric < ScoreResult r' metric))"
  using Optimize_best [OF assms] by blast

lemma sample_Optimize:
  "\<exists>best. Optimize ''buy_and_hold'' rising3 [Map.empty, [''x'' \<mapsto> lit 1]] default_BacktestConfig Sharpe = Inr best"
proof -
  have "\<exists>r. backtest ''buy_and_hold'' default_BacktestConfig rising3 q = Inr r" for q
    by (rule backtest_hold) (simp_all add: kMaxBacktestBars_def)
  then show ?thesis
    using optimize_loop_succeeds [of "[Map.empty, [''x'' \<mapsto> lit 1]]" "''buy_and_hold''" default_BacktestConfig rising3
      Sharpe None] by (auto simp: Optimize_def simp del: optimize_loop.simps)
qed

theorem wf_best_witness:
  "\<exists>best. Optimize ''buy_and_hold'' rising3 [Map.empty, [''x'' \<mapsto> lit 1]] default_BacktestConfig Sharpe = Inr best \<and>
     best \<in> {Map.empty, [''x'' \<mapsto> lit 1]}"
  using sample_Optimize wf_best [of "''buy_and_hold''" rising3 "[Map.empty, [''x'' \<mapsto> lit 1]]"] by fastforce

text \<open>C23: a request the constructor of the optimizer accepts is run to an end: the loop over the windows
  terminates, with a result or an exception.\<close>

theorem wf_terminates:
  assumes "make_WalkForwardOptimizer request = Inr optimizer"
  shows "\<exists>y. WalkForward_Run optimizer = Some y"
  using assms WalkForward_Run_total [of optimizer] by (simp add: make_optimizer_Inr)

definition sample_request :: WalkForwardRequest where
  "sample_request = \<lparr>wf_strategy = ''buy_and_hold'', wf_series = zigzag4, wf_param_grid = sample_grid,
     wf_train_size = 1, wf_test_size = 1, wf_metric = Sharpe, wf_config = default_BacktestConfig\<rparr>"

lemma sample_request_hold: "hold_request sample_request" "hold_request (sample_request\<lparr>wf_series := rising3\<rparr>)"
  by (simp_all add: hold_request_def sample_request_def kMaxWalkForwardWindow_def)

lemma sample_request_runs: "\<exists>r. WalkForward_Run sample_request = Some (Inr r)"
  "\<exists>r. WalkForward_Run (sample_request\<lparr>wf_series := rising3\<rparr>) = Some (Inr r)"
  using walk_forward_hold [OF sample_request_hold(1)] walk_forward_hold [OF sample_request_hold(2)] sample_grid_product
  by (simp_all add: sample_request_def)

lemma make_sample: "make_WalkForwardOptimizer sample_request = Inr sample_request"
  by (simp add: make_optimizer_Inr sample_request_def sample_grid_def BuiltinStrategy_def kMaxWalkForwardWindow_def)

theorem wf_terminates_witness: "\<exists>y. WalkForward_Run sample_request = Some y"
  by (rule wf_terminates [OF make_sample])

text \<open>C2: the parameters of window \<open>k\<close> are chosen on the \<open>train\<close> bars before its test bars, and on nothing
  else: two series that agree up to the end of that training window get the same parameters for it.\<close>

theorem wf_out_of_sample:
  assumes "make_WalkForwardOptimizer request = Inr request"
    and "WalkForward_Run request = Some (Inr r1)" "WalkForward_Run (request\<lparr>wf_series := series2\<rparr>) = Some (Inr r2)"
    and "k < length (wr_selected_params r1)" "k < length (wr_selected_params r2)"
    and "take (k * wf_test_size request + wf_train_size request) (wf_series request) =
         take (k * wf_test_size request + wf_train_size request) series2"
  shows "pw_params (wr_selected_params r1 ! k) = pw_params (wr_selected_params r2 ! k)"
proof -
  let ?request2 = "request\<lparr>wf_series := series2\<rparr>"
  have t: "0 < wf_test_size request" using assms(1) by (simp add: make_optimizer_Inr)
  have 1: "\<exists>cs. BuildParamCombinations (wf_param_grid request) = Inr cs \<and>
      Optimize (wf_strategy request) (bars (wf_series request) (k * wf_test_size request) (wf_train_size request)) cs
        (wf_config request) (wf_metric request) = Inr (pw_params (wr_selected_params r1 ! k))"
    using WalkForward_Run_selected [OF assms(2) t assms(4)] .
  have 2: "\<exists>cs. BuildParamCombinations (wf_param_grid request) = Inr cs \<and>
      Optimize (wf_strategy request) (bars series2 (k * wf_test_size request) (wf_train_size request)) cs
        (wf_config request) (wf_metric request) = Inr (pw_params (wr_selected_params r2 ! k))"
    using WalkForward_Run_selected [OF assms(3)] t assms(5) by simp
  have "bars (wf_series request) (k * wf_test_size request) (wf_train_size request) =
      bars series2 (k * wf_test_size request) (wf_train_size request)"
    using arg_cong [OF assms(6), of "drop (k * wf_test_size request)"] by (simp add: bars_def drop_take)
  then show ?thesis using 1 2 by auto
qed

lemma selected_count:
  assumes "WalkForward_Run request = Some (Inr r)" "0 < wf_test_size request"
  shows "length (wr_selected_params r) = wf_count request"
  using WalkForward_Run_windows [OF assms] .

theorem wf_out_of_sample_witness:
  "\<exists>r1 r2. WalkForward_Run sample_request = Some (Inr r1) \<and>
     WalkForward_Run (sample_request\<lparr>wf_series := rising3\<rparr>) = Some (Inr r2) \<and>
     pw_params (wr_selected_params r1 ! 0) = pw_params (wr_selected_params r2 ! 0)"
proof -
  obtain r1 r2 where r: "WalkForward_Run sample_request = Some (Inr r1)"
    "WalkForward_Run (sample_request\<lparr>wf_series := rising3\<rparr>) = Some (Inr r2)"
    using sample_request_runs by blast
  have "0 < length (wr_selected_params r1)" "0 < length (wr_selected_params r2)"
    using selected_count [OF r(1)] selected_count [OF r(2)] by (simp_all add: wf_count_def sample_request_def)
  moreover have "take (0 * wf_test_size sample_request + wf_train_size sample_request) (wf_series sample_request) =
      take (0 * wf_test_size sample_request + wf_train_size sample_request) rising3"
    by (simp add: sample_request_def rising3_def zigzag4_def)
  ultimately show ?thesis using wf_out_of_sample [OF make_sample r, of 0] r by blast
qed

text \<open>C16: for a series with increasing dates, the combined equity curve has exactly one point for each test bar, in
  order: the bars after the first training window, for as many whole test windows as fit.\<close>

theorem wf_curve:
  assumes "make_WalkForwardOptimizer request = Inr request" "WalkForward_Run request = Some (Inr r)"
    and "sorted_wrt (<) (map bar_date (wf_series request))"
  shows "map ep_date (wr_equity_curve r) = map bar_date
    (take ((length (wf_series request) - wf_train_size request) div wf_test_size request * wf_test_size request)
      (drop (wf_train_size request) (wf_series request)))"
  using WalkForward_curve [OF assms(2) _ assms(3)] assms(1) by (simp add: make_optimizer_Inr wf_count_def bars_def)

theorem wf_curve_witness:
  "\<exists>r. WalkForward_Run sample_request = Some (Inr r) \<and> map ep_date (wr_equity_curve r) = map bar_date (tl zigzag4)"
proof -
  obtain r where r: "WalkForward_Run sample_request = Some (Inr r)" using sample_request_runs(1) by blast
  have "sorted_wrt (<) (map bar_date (wf_series sample_request))"
    by (simp add: sample_request_def zigzag4_def sample_bar_def)
  from wf_curve [OF make_sample r this] r show ?thesis by (simp add: sample_request_def zigzag4_def)
qed

end
