(* ===== verification/Spec2Isabelle.thy ===== *)
theory Spec2Isabelle
  imports Analysis_Facts Concurrent_Fetch Concurrent_Writers Jacobi_Exact Lifecycle Regression_Exact Walk_Forward_Facts
begin

text \<open>
  standard-tools is a C++ library of financial tools (indicators, backtests, risk metrics, portfolio
  weights, statistical analysis, screening, market data) behind a REST, MCP and A2A server that
  authenticates requests and records tool calls in a hash-chained audit log. This development
  translates it to HOL, from the arithmetic to the handlers of the routes and the start of the server,
  and proves what makes each part correct.

  \<^bold>\<open>Layers.\<close>
  \<^item> \<open>Rounding\<close>, \<open>Double\<close>, \<open>Double_Ops\<close>: IEEE-754 binary64 as the C++ \<^verbatim>\<open>double\<close>: a type of finite
    rationals, a negative zero, two infinities and NaN, with every operation rounded to nearest, ties to
    even. \<open>key\<close> is the rational a double stands for; the lemmas say how each operation acts on it.
    \<open>std::max\<close>, \<open>std::sqrt\<close>, \<open>std::floor\<close>, \<open>std::lround\<close>, the conversion to \<open>std::size_t\<close> (undefined out of
    range, then \<open>None\<close>) and sorting (undefined with NaN, then \<open>None\<close>) are defined there.
  \<^item> \<open>Prelude\<close>: results as \<open>exn + 'a\<close> with their bind \<open>ebind\<close>, guards \<open>throw_if\<close>, loops that push one
    element per iteration (\<open>for_push\<close>), list lemmas.
  \<^item> \<open>Core\<close>: \<^verbatim>\<open>core/errors.hpp\<close> and \<^verbatim>\<open>core/value_objects.cpp\<close>: exceptions as the datatype \<open>exn\<close>,
    tickers, intervals, date ranges, bars. An exception of the standard library is a constructor of \<open>exn\<close>,
    and so is undefined behaviour, which no handler catches.
  \<^item> \<open>Indicators\<close>, \<open>Indicator_Facts\<close>, \<open>Indicator_Ranges\<close> (and \<open>Samples\<close>, series for witnesses):
    \<^verbatim>\<open>indicators/calculator.cpp\<close>: one definition per function; closed forms, no look-ahead, warm-up, ranges.
  \<^item> \<open>Strategy\<close>: \<^verbatim>\<open>backtest/strategy.cpp\<close>. The locale \<open>bar_strategy\<close> is the contract between a strategy and
    the engine (one dated signal per bar, causal), interpreted for each of the five strategies.
  \<^item> \<open>Engine\<close>, \<open>Engine_Facts\<close>: \<^verbatim>\<open>backtest/engine.cpp\<close>. The record \<open>Account\<close> holds the variables of the loop
    of \<^verbatim>\<open>BacktestEngine::Run\<close>; \<open>bar_step\<close> is its body, \<open>account_inv\<close> its invariant.
  \<^item> \<open>Monte_Carlo\<close>: \<^verbatim>\<open>backtest/monte_carlo.cpp\<close>, with the generator and the shuffle as arguments.
  \<^item> \<open>Walk_Forward\<close>, \<open>Walk_Forward_Facts\<close>: \<^verbatim>\<open>backtest/walk_forward.cpp\<close>. The loop over the windows is a
    \<open>partial_function\<close> whose value is \<open>None\<close> when it does not end; for a positive test size it ends.
  \<^item> \<open>Risk_Return\<close>: \<^verbatim>\<open>metrics/risk_return.cpp\<close>, with \<open>std::pow\<close> as an argument.
  \<^item> \<open>Screener\<close>: \<^verbatim>\<open>screener/\<close>, over any provider that keeps the contract \<open>fundamental_provider\<close>.
  \<^item> \<open>Market_Data\<close>, \<open>Market_Data_Facts\<close>: \<^verbatim>\<open>marketdata/\<close>, over any cache that keeps the law of the locale
    \<open>series_cache\<close>; the cache key; the synthetic provider.
  \<^item> \<open>Audit_Trail\<close>, \<open>Audit_Trail_Facts\<close>: \<^verbatim>\<open>audit/\<close>, over any storage that keeps the laws of
    \<open>audit_storage\<close>; \<open>Lib\<close> holds what comes from the JSON library, OpenSSL and the date library.
    \<open>Json_Text\<close>: the named hypothesis \<open>json_texts\<close> on the texts \<^verbatim>\<open>dump\<close> writes: objects with the same keys have the
    same text exactly when their members have, text that is not UTF-8 has none. Nothing is assumed of the values
    themselves, so objects are unordered and NaN may read as null. Trees with their texts are its instance.
  \<^item> \<open>Api_Core\<close>: \<^verbatim>\<open>api/auth.hpp\<close>, parts of \<^verbatim>\<open>api/helpers.hpp\<close>, \<^verbatim>\<open>core/uuid.hpp\<close>.
  \<^item> \<open>Json\<close>, \<open>Json_Serialization\<close>: the record \<open>Json\<close> holds what is used of the JSON library, with its laws as
    named hypotheses (\<open>json_objects\<close>, \<open>json_scalars\<close>), for which the trees are an instance; every \<^verbatim>\<open>to_json\<close> and \<^verbatim>\<open>from_json\<close>.
  \<^item> \<open>Steps\<close>: operations that change a state and may throw, with their composition, \<^verbatim>\<open>catch\<close> included, and two
    calculi over them: \<open>keeps\<close> for an invariant, \<open>uniform\<close> for a relation between two runs.
  \<^item> \<open>Tools\<close>, \<open>Dispatcher\<close>, \<open>Dispatcher_Facts\<close>: \<^verbatim>\<open>agent/\<close>: the table of the tools, the parsing of the arguments, the
    ten handlers and \<open>Dispatch\<close>, as steps of the market-data service.
  \<^item> \<open>Routes\<close>, \<open>Routes_Facts\<close>: \<^verbatim>\<open>api/rest.cpp\<close>, \<^verbatim>\<open>api/mcp.cpp\<close>, \<^verbatim>\<open>api/a2a.cpp\<close>, \<^verbatim>\<open>api/helpers.hpp\<close>: one definition per route, as a
    step of \<open>AppState\<close> (service and audit storage); \<open>serve\<close> puts the middleware before them, \<open>serve_all\<close>
    serves a sequence of requests. \<open>Server\<close> and \<open>HttpRequest\<close> hold what comes from outside.
  \<^item> \<open>Config\<close>: \<^verbatim>\<open>config/\<close>. \<open>Postgres\<close>: \<^verbatim>\<open>audit/postgres.cpp\<close> and \<^verbatim>\<open>storage/migrate.cpp\<close>, refining the log in
    memory, up to the time that a \<^verbatim>\<open>TIMESTAMPTZ\<close> column keeps, and a set of versions. \<open>Pool\<close>: \<^verbatim>\<open>storage/postgres.cpp\<close>, the connections of the threads. \<open>Programs\<close>: \<^verbatim>\<open>server/main.cpp\<close>, \<^verbatim>\<open>cli/main.cpp\<close> and \<^verbatim>\<open>tools/\<close>.
  \<^item> \<open>Threads\<close>: actors that move one atomic action at a time, under any schedule (\<open>reachable\<close>, \<open>follow\<close>), with the
    rules for invariants and for measures that bound a run. \<open>Concurrent_Writers\<close>: \<^verbatim>\<open>Writer::Write\<close> under threads,
    a refinement of one call after the other. \<open>Concurrent_Fetch\<close>: \<^verbatim>\<open>Service::Fetch\<close> under threads,
    where requests that share a cache key can get each other's series. \<open>Lifecycle\<close>: for every \<open>Server_env\<close>, the threads of \<^verbatim>\<open>server/main.cpp\<close>, its signals and its shutdown, and \<^verbatim>\<open>api/grpc_server.cpp\<close>.
  \<^item> \<open>Portfolio\<close>, \<open>Portfolio_Optimizers\<close>, \<open>Portfolio_Facts\<close>, \<open>Exact_Inverse\<close>, \<open>Min_Variance\<close>,
    \<open>Portfolio_Validity\<close>: \<^verbatim>\<open>portfolio/\<close>. The inversion
    and the linear algebra are written over any type with the operations they use: at \<open>double\<close> they are
    the code, at the rationals they are what the algorithm computes without rounding.
  \<^item> \<open>Analysis\<close>, \<open>Analysis_Facts\<close>, \<open>Regression_Exact\<close>, \<open>Jacobi_Exact\<close>: \<^verbatim>\<open>analysis/\<close>. The regression and the Jacobi
    iteration are also read in exact arithmetic. \<open>NormalCdf\<close> is a \<open>partial_function\<close>: it does not end on NaN.

  \<^bold>\<open>Conventions.\<close> A \<^verbatim>\<open>std::size_t\<close> that counts elements of a vector in memory is a \<open>nat\<close>; where the
  code converts or wraps, the width is written out. A loop over indices is a fold over \<open>[0..<n]\<close>. A
  \<^verbatim>\<open>std::unordered_map\<close> is a map, or the list of its entries where the iteration order matters. Dates
  are nanoseconds since the epoch. Messages of exceptions are lists of text and numbers, as the code
  streams them. Sums are evaluated left to right as the code does, without extended precision or
  fused operations. Calls are sequential: where the code holds a mutex, the section it protects is one step.

  \<^bold>\<open>Bounds.\<close> Theorems on counts converted to doubles assume fewer than \<open>2 ^ 53\<close> elements, below which the
  conversion is exact; vectors of that size do not fit in memory. The engine's own limit of 50000 bars, the
  10000 combinations of a grid and the 100000 simulations are those of the code.

  \<^bold>\<open>The whole.\<close> \<open>Programs\<close> composes the layers: \<open>server_main\<close> loads the configuration from the environment, opens
  the storage and builds the state that \<open>serve_all\<close> then serves requests from; the handlers run the dispatcher, the
  dispatcher the components, and the audit writer the storage. The properties there follow the environment to the
  response (authorization fails closed) and the start to the log (it verifies after any requests); those of \<open>Routes_Facts\<close>
  say which exceptions leave a handler and that the cache cannot be seen; those of \<open>Postgres\<close> that the table stands
  for the log in memory. A run under threads has as many steps as its measure at the
  start, which is its bound. Helpers that a file repeats with the same text are abbreviations of one definition.
  \<^bold>\<open>Not modelled.\<close> What is a library's: the SQL engine, the JSON and the TOML parsers, Crow's matching of a URL to its
  route, gRPC and libpqxx, which are parameters, and the parsing of a command line. Whole requests are served one after
  the other; threads are modelled where they share state: the audit writer, the market-data service, the
  connections and the process itself. \<^verbatim>\<open>GetNumber\<close> of the dispatcher and \<^verbatim>\<open>MakeDate\<close> are never used. Constructors that
  only move their arguments into fields have no definition of their own.
\<close>

end
